(* ===== verification/Tox_Prelude.thy ===== *)
theory Tox_Prelude
  imports Main "HOL-Library.Word"
begin

text \<open>
  What every component of the development shares: the machine types of the Go source, results
  (a Go pair \<^verbatim>\<open>(value, error)\<close> is a sum), slices, the big-endian integer codec of
  \<^verbatim>\<open>encoding/binary\<close>, fixed-size byte arrays, Go maps as association lists, and three
  interfaces that several components implement (byte codecs, dictionaries, invariants of
  operation sequences) stated as locales.
\<close>

unbundle bit_operations_syntax

section \<open>Machine types, results and slices\<close>

type_synonym byte = "8 word"
type_synonym bytes = "byte list"
type_synonym u8 = "8 word"
type_synonym u16 = "16 word"
type_synonym u32 = "32 word"
type_synonym u64 = "64 word"

text \<open>
  A \<^verbatim>\<open>[32]byte\<close> array (keys, nonces of the replay store) is a 256-bit word; its contents
  as bytes are \<open>key_bytes\<close> below. Two arrays are equal exactly when the words are, and the zero
  array is \<open>0\<close>.
\<close>

type_synonym key32 = "256 word"

text \<open>Points in time (\<^verbatim>\<open>time.Time\<close>) and durations are nanoseconds.\<close>

type_synonym time = int
type_synonym duration = int

abbreviation Err :: "'e \<Rightarrow> 'e + 'a" where "Err \<equiv> Inl"
abbreviation Ok :: "'a \<Rightarrow> 'e + 'a" where "Ok \<equiv> Inr"

named_theorems wire_simps \<open>lengths, slices and decodings of serialised data\<close>
named_theorems dict_simps \<open>lookups and sizes of Go maps\<close>

text \<open>The Go slice expression \<^verbatim>\<open>data[a:b]\<close>, used where \<open>a \<le> b \<le> length data\<close>.\<close>

definition slice :: "nat \<Rightarrow> nat \<Rightarrow> 'a list \<Rightarrow> 'a list" where
  "slice a b xs = take (b - a) (drop a xs)"

lemma length_slice [wire_simps]: "b \<le> length xs \<Longrightarrow> length (slice a b xs) = b - a"
  by (simp add: slice_def)

lemma slice_append_left [wire_simps]: "b \<le> length xs \<Longrightarrow> slice a b (xs @ ys) = slice a b xs"
  by (simp add: slice_def)

lemma slice_append_right [wire_simps]:
  "length xs \<le> a \<Longrightarrow> slice a b (xs @ ys) = slice (a - length xs) (b - length xs) ys"
  by (simp add: slice_def)

lemma slice_all [wire_simps]: "length xs \<le> b \<Longrightarrow> slice 0 b xs = xs"
  by (simp add: slice_def)

lemma slice_split:
  assumes "a \<le> b" and "b \<le> c"
  shows "slice a b xs @ slice b c xs = slice a c xs"
proof -
  have "c - a = (b - a) + (c - b)" using assms by simp
  moreover have "drop b xs = drop (b - a) (drop a xs)" using assms by simp
  ultimately show ?thesis by (simp only: slice_def take_add)
qed

lemma length_2_cases: "length xs = 2 \<Longrightarrow> (\<And>a b. xs = [a, b] \<Longrightarrow> thesis) \<Longrightarrow> thesis"
  by (cases xs; cases "tl xs") auto

section \<open>Big-endian integers\<close>

primrec be_bytes :: "nat \<Rightarrow> nat \<Rightarrow> bytes" where
  "be_bytes 0 n = []"
| "be_bytes (Suc k) n = be_bytes k (n div 256) @ [word_of_nat n]"

definition be_val :: "bytes \<Rightarrow> nat" where
  "be_val bs = foldl (\<lambda>a b. a * 256 + unat b) 0 bs"

lemma length_be_bytes [simp, wire_simps]: "length (be_bytes k n) = k"
  by (induction k arbitrary: n) auto

lemma be_val_Nil [simp]: "be_val [] = 0"
  by (simp add: be_val_def)

lemma be_val_snoc [simp]: "be_val (bs @ [b]) = be_val bs * 256 + unat b"
  by (simp add: be_val_def)

lemma unat_byte_less: "unat (b :: byte) < 256"
  using unsigned_less [of b] by simp

lemma unat_byte_of_nat: "unat (word_of_nat n :: byte) = n mod 256"
  by (simp add: unat_of_nat)

lemma be_val_be_bytes: "be_val (be_bytes k n) = n mod 256 ^ k"
proof (induction k arbitrary: n)
  case 0
  show ?case by simp
next
  case (Suc k)
  have "n mod 256 ^ Suc k = 256 * (n div 256 mod 256 ^ k) + n mod 256"
    by (simp add: mod_mult2_eq)
  then show ?case by (simp add: Suc.IH unat_byte_of_nat)
qed

lemma be_bytes_be_val: "be_bytes (length bs) (be_val bs) = bs"
proof (induction bs rule: rev_induct)
  case Nil
  show ?case by simp
next
  case (snoc b bs)
  have "(be_val bs * 256 + unat b) div 256 = be_val bs"
    using unat_byte_less [of b] by simp
  moreover have "unat (word_of_nat (be_val bs * 256 + unat b) :: byte) = unat b"
    using unat_byte_less [of b] by (simp only: unat_byte_of_nat) simp
  then have "(word_of_nat (be_val bs * 256 + unat b) :: byte) = b"
    by (simp only: word_unat_eq_iff)
  ultimately show ?case by (simp add: snoc.IH)
qed

lemma be_val_less: "be_val bs < 256 ^ length bs"
proof (induction bs rule: rev_induct)
  case Nil
  show ?case by simp
next
  case (snoc b bs)
  then show ?case using unat_byte_less [of b] by simp
qed

lemma be_val_inject: "length bs = length cs \<Longrightarrow> be_val bs = be_val cs \<Longrightarrow> bs = cs"
  by (metis be_bytes_be_val)

text \<open>
  \<^verbatim>\<open>binary.BigEndian.PutUintN\<close> and \<^verbatim>\<open>binary.BigEndian.UintN\<close>, the latter on a slice of
  exactly the width.
\<close>

definition PutUint16 :: "u16 \<Rightarrow> bytes" where "PutUint16 v = be_bytes 2 (unat v)"
definition PutUint32 :: "u32 \<Rightarrow> bytes" where "PutUint32 v = be_bytes 4 (unat v)"
definition PutUint64 :: "u64 \<Rightarrow> bytes" where "PutUint64 v = be_bytes 8 (unat v)"
definition Uint16 :: "bytes \<Rightarrow> u16" where "Uint16 bs = word_of_nat (be_val bs)"
definition Uint32 :: "bytes \<Rightarrow> u32" where "Uint32 bs = word_of_nat (be_val bs)"
definition Uint64 :: "bytes \<Rightarrow> u64" where "Uint64 bs = word_of_nat (be_val bs)"

text \<open>The bytes of a \<^verbatim>\<open>[32]byte\<close> array, and \<^verbatim>\<open>copy(arr[:], bs)\<close> for 32 bytes \<open>bs\<close>.\<close>

definition key_bytes :: "key32 \<Rightarrow> bytes" where "key_bytes k = be_bytes 32 (unat k)"
definition bytes_key :: "bytes \<Rightarrow> key32" where "bytes_key bs = word_of_nat (be_val bs)"

text \<open>Evaluation goes through binary integers: the same conversions on \<open>int\<close>.\<close>

primrec int_bytes :: "nat \<Rightarrow> int \<Rightarrow> bytes" where
  "int_bytes 0 i = []"
| "int_bytes (Suc k) i = int_bytes k (i div 256) @ [word_of_int i]"

definition int_val :: "bytes \<Rightarrow> int" where
  "int_val bs = foldl (\<lambda>a b. a * 256 + uint b) 0 bs"

lemma be_bytes_int: "be_bytes k n = int_bytes k (int n)"
  by (induction k arbitrary: n) (simp_all add: zdiv_int)

lemma be_val_int: "int (be_val bs) = int_val bs"
  by (induction bs rule: rev_induct) (simp_all add: int_val_def)

lemma be_put_code [code]:
  "PutUint16 v = int_bytes 2 (uint v)" "PutUint32 w = int_bytes 4 (uint w)"
  "PutUint64 x = int_bytes 8 (uint x)" "key_bytes k = int_bytes 32 (uint k)"
  by (simp_all add: PutUint16_def PutUint32_def PutUint64_def key_bytes_def be_bytes_int)

lemma be_get_code [code]:
  "Uint16 bs = word_of_int (int_val bs)" "Uint32 bs = word_of_int (int_val bs)"
  "Uint64 bs = word_of_int (int_val bs)" "bytes_key bs = word_of_int (int_val bs)"
  by (simp_all add: Uint16_def Uint32_def Uint64_def bytes_key_def flip: be_val_int)

lemma word_be_roundtrip:
  assumes "256 ^ k = (2 :: nat) ^ LENGTH('a :: len)"
  shows "(word_of_nat (be_val (be_bytes k (unat w))) :: 'a word) = w"
proof -
  have "unat w < 256 ^ k" using assms unsigned_less [of w] by simp
  then show ?thesis by (simp add: be_val_be_bytes)
qed

lemma be_word_roundtrip:
  assumes "256 ^ length bs = (2 :: nat) ^ LENGTH('a :: len)"
  shows "be_bytes (length bs) (unat (word_of_nat (be_val bs) :: 'a word)) = bs"
proof -
  have "be_val bs < 2 ^ LENGTH('a)" using assms be_val_less [of bs] by simp
  then show ?thesis by (simp add: unat_of_nat be_bytes_be_val)
qed

lemma Uint16_PutUint16 [simp, wire_simps]: "Uint16 (PutUint16 v) = v"
  unfolding Uint16_def PutUint16_def by (rule word_be_roundtrip) simp

lemma Uint32_PutUint32 [simp, wire_simps]: "Uint32 (PutUint32 v) = v"
  unfolding Uint32_def PutUint32_def by (rule word_be_roundtrip) simp

lemma Uint64_PutUint64 [simp, wire_simps]: "Uint64 (PutUint64 v) = v"
  unfolding Uint64_def PutUint64_def by (rule word_be_roundtrip) simp

lemma bytes_key_key_bytes [simp, wire_simps]: "bytes_key (key_bytes k) = k"
  unfolding bytes_key_def key_bytes_def by (rule word_be_roundtrip) simp

lemma PutUint16_Uint16: "length bs = 2 \<Longrightarrow> PutUint16 (Uint16 bs) = bs"
  using be_word_roundtrip [of bs, where 'a = 16] by (simp add: Uint16_def PutUint16_def)

lemma PutUint32_Uint32: "length bs = 4 \<Longrightarrow> PutUint32 (Uint32 bs) = bs"
  using be_word_roundtrip [of bs, where 'a = 32] by (simp add: Uint32_def PutUint32_def)

lemma PutUint64_Uint64: "length bs = 8 \<Longrightarrow> PutUint64 (Uint64 bs) = bs"
  using be_word_roundtrip [of bs, where 'a = 64] by (simp add: Uint64_def PutUint64_def)

lemma key_bytes_bytes_key: "length bs = 32 \<Longrightarrow> key_bytes (bytes_key bs) = bs"
  using be_word_roundtrip [of bs, where 'a = 256] by (simp add: key_bytes_def bytes_key_def)

lemma length_PutUint16 [simp, wire_simps]: "length (PutUint16 v) = 2"
  by (simp add: PutUint16_def)

lemma length_PutUint32 [simp, wire_simps]: "length (PutUint32 v) = 4"
  by (simp add: PutUint32_def)

lemma length_PutUint64 [simp, wire_simps]: "length (PutUint64 v) = 8"
  by (simp add: PutUint64_def)

lemma length_key_bytes [simp, wire_simps]: "length (key_bytes k) = 32"
  by (simp add: key_bytes_def)

text \<open>Go's integer division truncates towards zero.\<close>

definition go_quot :: "int \<Rightarrow> int \<Rightarrow> int" where
  "go_quot a b = sgn a * sgn b * (\<bar>a\<bar> div \<bar>b\<bar>)"

text \<open>The range of \<^verbatim>\<open>int64\<close>.\<close>

definition MaxInt64 :: int where "MaxInt64 = 2 ^ 63 - 1"

definition int64 :: "int \<Rightarrow> bool" where
  "int64 i \<longleftrightarrow> - (2 ^ 63) \<le> i \<and> i \<le> MaxInt64"

lemma unat_of_nat_u32: "n < 2 ^ 32 \<Longrightarrow> unat (word_of_nat n :: u32) = n"
  by (simp add: unat_of_nat)

lemma unat_of_nat_u64: "n < 2 ^ 64 \<Longrightarrow> unat (word_of_nat n :: u64) = n"
  by (simp add: unat_of_nat)

lemma unat_of_nat_u16: "n < 2 ^ 16 \<Longrightarrow> unat (word_of_nat n :: u16) = n"
  by (simp add: unat_of_nat)

section \<open>Go maps\<close>

text \<open>
  A Go map is an association list with distinct keys. Iteration over a Go map visits its entries
  in an unspecified order: the order of the list is one such order, and statements for every list
  are statements for every order.
\<close>

type_synonym ('k, 'v) gomap = "('k \<times> 'v) list"

definition mget :: "('k, 'v) gomap \<Rightarrow> 'k \<Rightarrow> 'v option" where
  "mget m k = map_of m k"

definition mdel :: "'k \<Rightarrow> ('k, 'v) gomap \<Rightarrow> ('k, 'v) gomap" where
  "mdel k m = filter (\<lambda>e. fst e \<noteq> k) m"

definition mput :: "'k \<Rightarrow> 'v \<Rightarrow> ('k, 'v) gomap \<Rightarrow> ('k, 'v) gomap" where
  "mput k v m = (k, v) # mdel k m"

definition wf_map :: "('k, 'v) gomap \<Rightarrow> bool" where
  "wf_map m \<longleftrightarrow> distinct (map fst m)"

locale dictionary =
  fixes get :: "'m \<Rightarrow> 'k \<Rightarrow> 'v option"
    and put :: "'k \<Rightarrow> 'v \<Rightarrow> 'm \<Rightarrow> 'm"
    and del :: "'k \<Rightarrow> 'm \<Rightarrow> 'm"
    and count :: "'m \<Rightarrow> nat"
    and wf :: "'m \<Rightarrow> bool"
  assumes get_put: "get (put k v m) k' = (if k' = k then Some v else get m k')"
    and get_del: "get (del k m) k' = (if k' = k then None else get m k')"
    and wf_put: "wf m \<Longrightarrow> wf (put k v m)"
    and wf_del: "wf m \<Longrightarrow> wf (del k m)"
    and count_put: "wf m \<Longrightarrow> count (put k v m) = (if get m k = None then Suc (count m) else count m)"
    and count_del: "wf m \<Longrightarrow> count (del k m) = (if get m k = None then count m else count m - 1)"
    and count_pos: "get m k \<noteq> None \<Longrightarrow> 0 < count m"
begin

lemma count_put_le: "wf m \<Longrightarrow> count (put k v m) \<le> Suc (count m)"
  by (simp add: count_put)

lemma count_put_room: "wf m \<Longrightarrow> count m < n \<Longrightarrow> count (put k v m) \<le> n"
  using count_put_le [of m k v] by simp

lemma count_del_le: "wf m \<Longrightarrow> count (del k m) \<le> count m"
  by (simp add: count_del)

lemma count_evict_put:
  assumes "wf m" and "get m old \<noteq> None"
  shows "count (put k v (del old m)) \<le> count m"
proof -
  have "0 < count m" using assms(2) by (rule count_pos)
  moreover have "count (del old m) = count m - 1" using assms by (auto simp: count_del)
  ultimately show ?thesis using count_put_le [OF wf_del, OF assms(1), of k v old] by simp
qed

lemma get_put_other: "k' \<noteq> k \<Longrightarrow> get (put k v m) k' = get m k'"
  by (simp add: get_put)

end

lemma map_of_filter_key:
  "map_of (filter (\<lambda>e. fst e \<noteq> k) m) k' = (if k' = k then None else map_of m k')"
  by (induction m) auto

lemma filter_key_absent: "map_of m k = None \<Longrightarrow> filter (\<lambda>e. fst e \<noteq> k) m = m"
  by (auto simp: map_of_eq_None_iff filter_id_conv image_iff)

lemma length_filter_key:
  "distinct (map fst m) \<Longrightarrow> map_of m k \<noteq> None \<Longrightarrow>
     length (filter (\<lambda>e. fst e \<noteq> k) m) = length m - 1"
proof (induction m)
  case Nil
  then show ?case by simp
next
  case (Cons e m)
  show ?case
  proof (cases "fst e = k")
    case True
    with Cons.prems have "map_of m k = None" by (auto simp: map_of_eq_None_iff)
    with True show ?thesis by (simp add: filter_key_absent)
  next
    case False
    with Cons.prems have "map_of m k \<noteq> None" by (auto split: if_splits)
    with Cons.prems have "m \<noteq> []" "length (filter (\<lambda>e. fst e \<noteq> k) m) = length m - 1"
      using Cons.IH by auto
    with False show ?thesis by (cases m) auto
  qed
qed

interpretation gm: dictionary mget mput mdel length wf_map
proof (unfold_locales, goal_cases)
  case (1 k v m k')
  then show ?case by (simp add: mget_def mput_def mdel_def map_of_filter_key)
next
  case (2 k m k')
  then show ?case by (simp add: mget_def mdel_def map_of_filter_key)
next
  case (3 m k v)
  then show ?case by (auto simp: wf_map_def mput_def mdel_def distinct_map inj_on_def)
next
  case (4 m k)
  then show ?case by (auto simp: wf_map_def mdel_def distinct_map inj_on_def)
next
  case (5 m k v)
  show ?case
  proof (cases "map_of m k = None")
    case True
    then show ?thesis by (simp add: mget_def mput_def mdel_def filter_key_absent)
  next
    case False
    then have "length m > 0" by (cases m) auto
    with False 5 show ?thesis
      by (auto simp: wf_map_def mget_def mput_def mdel_def length_filter_key)
  qed
next
  case (6 m k)
  then show ?case
    by (simp add: wf_map_def mget_def mdel_def filter_key_absent length_filter_key)
next
  case (7 m k)
  then show ?case by (cases m) (auto simp: mget_def)
qed

lemmas [dict_simps] = gm.get_put gm.get_del gm.wf_put gm.wf_del

lemma mget_Nil [simp]: "mget [] k = None"
  by (simp add: mget_def)

lemma wf_map_Nil [simp]: "wf_map []"
  by (simp add: wf_map_def)

lemma wf_map_filter: "wf_map m \<Longrightarrow> wf_map (filter P m)"
  by (auto simp: wf_map_def distinct_map inj_on_def)

lemma mget_filter:
  "wf_map m \<Longrightarrow> mget (filter P m) k =
     (case mget m k of None \<Rightarrow> None | Some v \<Rightarrow> if P (k, v) then Some v else None)"
  unfolding mget_def wf_map_def
  by (induction m) (auto split: option.splits simp: map_of_eq_None_iff image_iff)

lemma mget_in_set: "mget m k = Some v \<Longrightarrow> (k, v) \<in> set m"
  unfolding mget_def by (rule map_of_SomeD)

lemma mget_iff_in_set: "wf_map m \<Longrightarrow> mget m k = Some v \<longleftrightarrow> (k, v) \<in> set m"
  unfolding mget_def wf_map_def by simp

section \<open>Interfaces shared by the components\<close>

text \<open>
  A serialiser and its parser. Components that put structured data on the wire or on disk
  interpret this locale on their own encoders; injectivity of the encoding (no two values share a
  representation) is then a fact of each of them.
\<close>

locale codec =
  fixes enc :: "'a \<Rightarrow> 'w list"
    and dec :: "'w list \<Rightarrow> 'e + 'a"
    and valid :: "'a \<Rightarrow> bool"
  assumes dec_enc: "valid x \<Longrightarrow> dec (enc x) = Ok x"
begin

lemma enc_inject:
  assumes "valid x" and "valid y" and "enc x = enc y"
  shows "x = y"
proof -
  have "(Ok x :: 'e + 'a) = Ok y" using assms dec_enc by metis
  then show ?thesis by simp
qed

lemma dec_enc_not_Err: "valid x \<Longrightarrow> dec (enc x) \<noteq> Err e"
  by (simp add: dec_enc)

end

text \<open>A parser that reads its value from the front of the buffer and ignores what follows.\<close>

locale prefix_codec = codec +
  assumes dec_enc_append: "valid x \<Longrightarrow> dec (enc x @ rest) = Ok x"
begin

lemma enc_prefix_free:
  assumes "valid x" and "valid y" and "enc x @ r = enc y @ r'"
  shows "x = y"
  using assms dec_enc_append by (metis sum.inject(2))

end

text \<open>
  A component whose state changes by operations, with an invariant every operation keeps: it then
  holds after every sequence of operations.
\<close>

locale op_system =
  fixes step :: "'o \<Rightarrow> 's \<Rightarrow> 's"
    and inv :: "'s \<Rightarrow> bool"
  assumes inv_step: "inv s \<Longrightarrow> inv (step p s)"
begin

lemma inv_run: "inv s \<Longrightarrow> inv (fold step ps s)"
  by (induction ps arbitrary: s) (auto simp: inv_step)

lemma stable_run:
  assumes stable: "\<And>s p. inv s \<Longrightarrow> P s \<Longrightarrow> P (step p s)"
    and "inv s" and "P s"
  shows "P (fold step ps s)"
proof -
  have "inv (fold step ps s) \<and> P (fold step ps s)" using assms(2,3)
    by (induction ps arbitrary: s) (auto simp: inv_step stable)
  then show ?thesis ..
qed

end

section \<open>Sequencing fallible steps\<close>

text \<open>
  A Go method that changes its receiver and may fail is a function from the state to a result and the
  new state; the next call runs only when the previous one returned no error, and an error keeps the
  changes made so far.
\<close>

definition andThen :: "('s \<Rightarrow> ('e + 'a) \<times> 's) \<Rightarrow> ('a \<Rightarrow> 's \<Rightarrow> ('e + 'b) \<times> 's) \<Rightarrow> 's \<Rightarrow> ('e + 'b) \<times> 's" where
  "andThen f g s = (case f s of (Inl e, s') \<Rightarrow> (Inl e, s') | (Inr a, s') \<Rightarrow> g a s')"

lemma andThen_Ok: "f s = (Inr a, s') \<Longrightarrow> andThen f g s = g a s'"
  by (simp add: andThen_def)

lemma andThen_Err: "f s = (Inl e, s') \<Longrightarrow> andThen f g s = (Inl e, s')"
  by (simp add: andThen_def)

lemma andThen_OkE:
  assumes "andThen f g s = (Inr b, s'')"
  obtains a s' where "f s = (Inr a, s')" "g a s' = (Inr b, s'')"
  using assms by (auto simp: andThen_def split: prod.splits sum.splits)

end
