(* ===== verification/Limits.thy ===== *)
theory Limits
  imports Tox_Prelude
begin

text \<open>
  The size limits of \<^verbatim>\<open>limits/constants.go\<close>: the four maxima, the encryption overhead and
  the five validators. Sizes are Go \<^verbatim>\<open>int\<close>s, so a limit may be negative.
\<close>

datatype limits_error = ErrMessageEmpty | ErrMessageTooLarge nat int

abbreviation (input) MaxPlaintextMessage :: int where "MaxPlaintextMessage \<equiv> 1372"
abbreviation (input) MaxEncryptedMessage :: int where "MaxEncryptedMessage \<equiv> 1388"
abbreviation (input) MaxStorageMessage :: int where "MaxStorageMessage \<equiv> 16384"
abbreviation (input) MaxProcessingBuffer :: int where "MaxProcessingBuffer \<equiv> 1024 * 1024"
abbreviation (input) EncryptionOverhead :: nat where "EncryptionOverhead \<equiv> 16"

definition ValidateMessageSize :: "bytes \<Rightarrow> int \<Rightarrow> limits_error + unit" where
  "ValidateMessageSize message maxSize =
     (if length message = 0 then Err ErrMessageEmpty
      else if int (length message) > maxSize then Err (ErrMessageTooLarge (length message) maxSize)
      else Ok ())"

definition ValidatePlaintextMessage :: "bytes \<Rightarrow> limits_error + unit" where
  "ValidatePlaintextMessage message =
     (if length message = 0 then Err ErrMessageEmpty
      else if int (length message) > MaxPlaintextMessage
           then Err (ErrMessageTooLarge (length message) MaxPlaintextMessage)
      else Ok ())"

definition ValidateEncryptedMessage :: "bytes \<Rightarrow> limits_error + unit" where
  "ValidateEncryptedMessage message =
     (if length message = 0 then Err ErrMessageEmpty
      else if int (length message) > MaxEncryptedMessage
           then Err (ErrMessageTooLarge (length message) MaxEncryptedMessage)
      else Ok ())"

definition ValidateStorageMessage :: "bytes \<Rightarrow> limits_error + unit" where
  "ValidateStorageMessage message =
     (if length message = 0 then Err ErrMessageEmpty
      else if int (length message) > MaxStorageMessage
           then Err (ErrMessageTooLarge (length message) MaxStorageMessage)
      else Ok ())"

definition ValidateProcessingBuffer :: "bytes \<Rightarrow> limits_error + unit" where
  "ValidateProcessingBuffer data =
     (if length data = 0 then Err ErrMessageEmpty
      else if int (length data) > MaxProcessingBuffer
           then Err (ErrMessageTooLarge (length data) MaxProcessingBuffer)
      else Ok ())"

text \<open>The four fixed validators are the general one at their limit.\<close>

lemma validators_are_instances:
  "ValidatePlaintextMessage m = ValidateMessageSize m MaxPlaintextMessage \<and>
   ValidateEncryptedMessage m = ValidateMessageSize m MaxEncryptedMessage \<and>
   ValidateStorageMessage m = ValidateMessageSize m MaxStorageMessage \<and>
   ValidateProcessingBuffer m = ValidateMessageSize m MaxProcessingBuffer"
  by (simp add: ValidateMessageSize_def ValidatePlaintextMessage_def ValidateEncryptedMessage_def
      ValidateStorageMessage_def ValidateProcessingBuffer_def)

lemma ValidateMessageSize_Ok_iff:
  "ValidateMessageSize m n = Ok () \<longleftrightarrow> m \<noteq> [] \<and> int (length m) \<le> n"
  by (simp add: ValidateMessageSize_def)

lemma ValidateMessageSize_mono:
  "ValidateMessageSize m n = Ok () \<Longrightarrow> n \<le> n' \<Longrightarrow> ValidateMessageSize m n' = Ok ()"
  by (simp add: ValidateMessageSize_Ok_iff)

lemma sealed_fits:
  assumes "ValidatePlaintextMessage m = Ok ()"
    and "length c = length m + EncryptionOverhead"
  shows "ValidateEncryptedMessage c = Ok ()"
proof -
  have "m \<noteq> []" "int (length m) \<le> 1372"
    using assms(1) by (simp_all add: validators_are_instances ValidateMessageSize_Ok_iff)
  then have "c \<noteq> []" "int (length c) \<le> 1388" using assms(2) by auto
  then show ?thesis by (simp add: validators_are_instances ValidateMessageSize_Ok_iff)
qed

end
