(* ===== verification/Tox_Id.thy ===== *)
theory Tox_Id
  imports Tox_Prelude
begin

text \<open>
  Tox identifiers (\<^verbatim>\<open>crypto/toxid.go\<close>): a public key, a nospam value and a two-byte XOR
  checksum, printed as 76 hexadecimal digits. The hexadecimal codec is that of
  \<^verbatim>\<open>encoding/hex\<close>. The \<^verbatim>\<open>[4]byte\<close> nospam and the \<^verbatim>\<open>[2]byte\<close> checksum are words of that
  width.
\<close>

section \<open>Hexadecimal\<close>

datatype hex_error = InvalidByteError char | ErrLength

definition to_hex :: "nat \<Rightarrow> char" where
  "to_hex n = char_of (if n < 10 then 48 + n else 87 + n)"

definition from_hex :: "char \<Rightarrow> nat option" where
  "from_hex c =
     (let n = of_char c in
      if 48 \<le> n \<and> n \<le> 57 then Some (n - 48)
      else if 97 \<le> n \<and> n \<le> 102 then Some (n - 87)
      else if 65 \<le> n \<and> n \<le> 70 then Some (n - 55)
      else None)"

definition hex_lower :: "char \<Rightarrow> char" where
  "hex_lower c = (case from_hex c of None \<Rightarrow> c | Some n \<Rightarrow> to_hex n)"

fun hex_EncodeToString :: "bytes \<Rightarrow> string" where
  "hex_EncodeToString [] = []"
| "hex_EncodeToString (b # bs) =
     to_hex (unat b div 16) # to_hex (unat b mod 16) # hex_EncodeToString bs"

fun hex_DecodeString :: "string \<Rightarrow> hex_error + bytes" where
  "hex_DecodeString [] = Ok []"
| "hex_DecodeString [p] =
     (case from_hex p of None \<Rightarrow> Err (InvalidByteError p) | Some _ \<Rightarrow> Err ErrLength)"
| "hex_DecodeString (p # q # s) =
     (case from_hex p of
        None \<Rightarrow> Err (InvalidByteError p)
      | Some a \<Rightarrow>
          (case from_hex q of
             None \<Rightarrow> Err (InvalidByteError q)
           | Some b \<Rightarrow>
               (case hex_DecodeString s of
                  Err e \<Rightarrow> Err e
                | Ok bs \<Rightarrow> Ok (word_of_nat (a * 16 + b) # bs))))"

lemma from_hex_to_hex [simp]: "n < 16 \<Longrightarrow> from_hex (to_hex n) = Some n"
  by (auto simp: from_hex_def to_hex_def Let_def of_char_of)

lemma from_hex_less: "from_hex c = Some n \<Longrightarrow> n < 16"
  by (auto simp: from_hex_def Let_def split: if_splits)

lemma hex_pair_unat:
  "a < 16 \<Longrightarrow> b < 16 \<Longrightarrow> unat (word_of_nat (a * 16 + b) :: byte) = a * 16 + b"
  by (simp only: unat_byte_of_nat) simp

lemma hex_pair_byte: "(word_of_nat (unat b div 16 * 16 + unat b mod 16) :: byte) = b"
  by simp

lemma hex_Decode_Encode: "hex_DecodeString (hex_EncodeToString bs) = Ok bs"
proof (induction bs)
  case Nil
  show ?case by simp
next
  case (Cons b bs)
  have "unat b div 16 < 16" using unat_byte_less [of b] by simp
  with Cons.IH show ?case by (simp only: hex_EncodeToString.simps hex_DecodeString.simps
      from_hex_to_hex hex_pair_byte option.case sum.case mod_less_divisor zero_less_numeral)
qed

lemma length_hex_Encode [simp]: "length (hex_EncodeToString bs) = 2 * length bs"
  by (induction bs) auto

lemma length_hex_Decode: "hex_DecodeString s = Ok bs \<Longrightarrow> length s = 2 * length bs"
  by (induction s arbitrary: bs rule: hex_DecodeString.induct) (auto split: option.splits sum.splits)

lemma hex_Encode_Decode: "hex_DecodeString s = Ok bs \<Longrightarrow> hex_EncodeToString bs = map hex_lower s"
proof (induction s arbitrary: bs rule: hex_DecodeString.induct)
  case (3 p q s)
  then obtain a b bs' where ab: "from_hex p = Some a" "from_hex q = Some b"
    and bs': "hex_DecodeString s = Ok bs'" and bs: "bs = word_of_nat (a * 16 + b) # bs'"
    by (auto split: option.splits sum.splits)
  have "a < 16" "b < 16" using ab by (auto dest: from_hex_less)
  moreover have "hex_EncodeToString bs' = map hex_lower s"
    using "3.IH" ab bs' by blast
  ultimately show ?case using ab bs by (simp add: hex_pair_unat hex_lower_def del: of_nat_add of_nat_mult)
qed (auto split: option.splits)

text \<open>Replacing one character by one with a different digit value changes exactly one byte.\<close>

lemma hex_Decode_update:
  assumes "hex_DecodeString s = Ok bs" and "i < length s"
    and "from_hex c = Some d" and "from_hex c \<noteq> from_hex (s ! i)"
  shows "\<exists>b. b \<noteq> bs ! (i div 2) \<and> hex_DecodeString (s[i := c]) = Ok (bs[i div 2 := b])"
  using assms
proof (induction s arbitrary: bs i rule: hex_DecodeString.induct)
  case (3 p q s)
  then obtain x y bs' where xy: "from_hex p = Some x" "from_hex q = Some y"
    and bs': "hex_DecodeString s = Ok bs'" and bs: "bs = word_of_nat (x * 16 + y) # bs'"
    by (auto split: option.splits sum.splits)
  have lt: "x < 16" "y < 16" "d < 16" using xy "3.prems"(3) by (auto dest: from_hex_less)
  consider "i = 0" | "i = 1" | j where "i = Suc (Suc j)" by (metis One_nat_def nat.exhaust)
  then show ?case
  proof cases
    case 1
    with "3.prems" xy have "d \<noteq> x" by auto
    then have "unat (word_of_nat (d * 16 + y) :: byte) \<noteq> unat (word_of_nat (x * 16 + y) :: byte)"
      using lt by (simp add: hex_pair_unat del: of_nat_add of_nat_mult)
    then have "(word_of_nat (d * 16 + y) :: byte) \<noteq> word_of_nat (x * 16 + y)" by metis
    with 1 bs bs' xy "3.prems"(3) show ?thesis by (auto simp del: of_nat_add of_nat_mult)
  next
    case 2
    with "3.prems" xy have "d \<noteq> y" by auto
    then have "unat (word_of_nat (x * 16 + d) :: byte) \<noteq> unat (word_of_nat (x * 16 + y) :: byte)"
      using lt by (simp add: hex_pair_unat del: of_nat_add of_nat_mult)
    then have "(word_of_nat (x * 16 + d) :: byte) \<noteq> word_of_nat (x * 16 + y)" by metis
    with 2 bs bs' xy "3.prems"(3) show ?thesis by (auto simp del: of_nat_add of_nat_mult)
  next
    case (3 j)
    then have "\<exists>b. b \<noteq> bs' ! (j div 2) \<and> hex_DecodeString (s[j := c]) = Ok (bs'[j div 2 := b])"
      using "3.IH" [OF xy bs'] "3.prems" by auto
    with 3 bs xy show ?thesis by auto
  qed
qed (auto split: option.splits)

lemma hex_Decode_update_invalid:
  assumes "i < length s" and "from_hex c = None"
  shows "\<exists>e. hex_DecodeString (s[i := c]) = Err e"
  using assms
proof (induction s arbitrary: i rule: hex_DecodeString.induct)
  case (3 p q s)
  show ?case
  proof (cases "i < 2 \<or> from_hex p = None \<or> from_hex q = None")
    case True
    with "3.prems" show ?thesis
      by (auto simp: less_2_cases_iff nth_Cons' list_update.simps split: option.splits nat.splits)
  next
    case False
    then obtain j x y where j: "i = Suc (Suc j)" and "from_hex p = Some x" "from_hex q = Some y"
      by (metis One_nat_def Suc_1 less_Suc0 less_Suc_eq nat.exhaust option.exhaust)
    moreover from this "3.prems" have "\<exists>e. hex_DecodeString (s[j := c]) = Err e"
      by (intro "3.IH") auto
    ultimately show ?thesis by auto
  qed
qed auto

section \<open>Identifiers\<close>

definition ToxIDHexLength :: nat where "ToxIDHexLength = 76"

record ToxID =
  PublicKey :: key32
  Nospam :: u32
  Checksum :: u16

datatype toxid_error = InvalidToxIDLength | HexError hex_error | InvalidChecksum

text \<open>The loop of \<^verbatim>\<open>calculateChecksum\<close>: byte \<open>i\<close> is XORed into accumulator \<open>i mod 2\<close>.\<close>

fun checksum_loop :: "nat \<Rightarrow> bytes \<Rightarrow> bytes \<Rightarrow> bytes" where
  "checksum_loop i [] c = c"
| "checksum_loop i (d # ds) c = checksum_loop (Suc i) ds (c[i mod 2 := c ! (i mod 2) XOR d])"

definition calculateChecksum :: "ToxID \<Rightarrow> ToxID" where
  "calculateChecksum tid =
     (let data = key_bytes (PublicKey tid) @ PutUint32 (Nospam tid)
      in tid\<lparr>Checksum := Uint16 (checksum_loop 0 data [0, 0])\<rparr>)"

definition NewToxID :: "key32 \<Rightarrow> u32 \<Rightarrow> ToxID" where
  "NewToxID publicKey nospam =
     calculateChecksum \<lparr>PublicKey = publicKey, Nospam = nospam, Checksum = 0\<rparr>"

definition ToxIDFromString :: "string \<Rightarrow> toxid_error + ToxID" where
  "ToxIDFromString s =
     (if length s \<noteq> ToxIDHexLength then Err InvalidToxIDLength
      else case hex_DecodeString s of
        Err e \<Rightarrow> Err (HexError e)
      | Ok data \<Rightarrow>
          (let tid = \<lparr>PublicKey = bytes_key (slice 0 32 data),
                     Nospam = Uint32 (slice 32 36 data),
                     Checksum = Uint16 (slice 36 38 data)\<rparr>;
               expectedID = calculateChecksum
                 \<lparr>PublicKey = PublicKey tid, Nospam = Nospam tid, Checksum = 0\<rparr>
           in if Checksum tid \<noteq> Checksum expectedID then Err InvalidChecksum else Ok tid))"

definition ToxID_String :: "ToxID \<Rightarrow> string" where
  "ToxID_String tid =
     hex_EncodeToString (key_bytes (PublicKey tid) @ PutUint32 (Nospam tid) @ PutUint16 (Checksum tid))"

definition SetNospam :: "u32 \<Rightarrow> ToxID \<Rightarrow> ToxID" where
  "SetNospam nospam tid = calculateChecksum (tid\<lparr>Nospam := nospam\<rparr>)"

text \<open>\<^verbatim>\<open>rand.Read\<close> either fills the buffer or fails.\<close>

definition GenerateNospam :: "'e + u32 \<Rightarrow> 'e + u32" where
  "GenerateNospam entropy = (case entropy of Err e \<Rightarrow> Err e | Ok nospam \<Rightarrow> Ok nospam)"

definition GetNospam :: "ToxID \<Rightarrow> u32" where
  "GetNospam tid = Nospam tid"

definition ToxID_Equal :: "ToxID \<Rightarrow> ToxID \<Rightarrow> bool" where
  "ToxID_Equal tid other \<longleftrightarrow>
     PublicKey tid = PublicKey other \<and> Nospam tid = Nospam other \<and> Checksum tid = Checksum other"

definition PublicKeyEqual :: "ToxID \<Rightarrow> ToxID \<Rightarrow> bool" where
  "PublicKeyEqual tid other \<longleftrightarrow> PublicKey tid = PublicKey other"

section \<open>The checksum\<close>

lemma length_checksum_loop [simp]: "length (checksum_loop i ds c) = length c"
  by (induction ds arbitrary: i c) auto

lemma checksum_loop_append:
  "checksum_loop i (xs @ ys) c = checksum_loop (i + length xs) ys (checksum_loop i xs c)"
  by (induction xs arbitrary: i c) auto

text \<open>XORing into the accumulator before the loop is XORing into its result.\<close>

lemma checksum_loop_xor:
  assumes "k < length c" and "length c = 2"
  shows "checksum_loop i ds (c[k := c ! k XOR d]) =
    (checksum_loop i ds c)[k := checksum_loop i ds c ! k XOR d]"
  using assms
proof (induction ds arbitrary: i c)
  case Nil
  then show ?case by simp
next
  case (Cons x ds)
  have "(c[k := c ! k XOR d])[i mod 2 := (c[k := c ! k XOR d]) ! (i mod 2) XOR x] =
        (c[i mod 2 := c ! (i mod 2) XOR x])[k := (c[i mod 2 := c ! (i mod 2) XOR x]) ! k XOR d]"
    using Cons.prems by (cases "k = i mod 2") (auto simp: ac_simps list_update_swap)
  with Cons show ?case by simp
qed

lemma checksum_loop_update:
  assumes "j < length xs" and "length c = 2"
  shows "checksum_loop 0 (xs[j := xs ! j XOR d]) c =
    (checksum_loop 0 xs c)[j mod 2 := checksum_loop 0 xs c ! (j mod 2) XOR d]"
proof -
  let ?pre = "take j xs" and ?post = "drop (Suc j) xs"
  let ?c = "checksum_loop 0 ?pre c"
  let ?e = "?c[j mod 2 := ?c ! (j mod 2) XOR xs ! j]"
  have len: "length ?pre = j" using assms(1) by simp
  have "?c[j mod 2 := ?c ! (j mod 2) XOR (xs ! j XOR d)] = ?e[j mod 2 := ?e ! (j mod 2) XOR d]"
    using assms by (simp add: xor.assoc)
  then have "checksum_loop 0 (?pre @ (xs ! j XOR d) # ?post) c =
      checksum_loop (Suc j) ?post (?e[j mod 2 := ?e ! (j mod 2) XOR d])"
    by (simp only: checksum_loop_append checksum_loop.simps len add_0)
  also have "\<dots> = (checksum_loop (Suc j) ?post ?e)[j mod 2 := checksum_loop (Suc j) ?post ?e ! (j mod 2) XOR d]"
    by (rule checksum_loop_xor) (simp_all add: assms)
  also have "checksum_loop (Suc j) ?post ?e = checksum_loop 0 (?pre @ xs ! j # ?post) c"
    by (simp only: checksum_loop_append checksum_loop.simps len add_0)
  also have "?pre @ xs ! j # ?post = xs" using assms(1) by (simp add: id_take_nth_drop [symmetric])
  finally show ?thesis using assms(1) by (simp add: upd_conv_take_nth_drop)
qed

text \<open>
  The 38 bytes of an identifier carry a right checksum exactly when the loop over all of them
  returns to zero.
\<close>

lemma xor_eq_0_iff: "(a :: 'a :: len word) XOR b = 0 \<longleftrightarrow> a = b"
  by (auto simp: bit_eq_iff bit_xor_iff)

lemma checksum_loop_closed:
  assumes "length data = 38"
  shows "checksum_loop 0 data [0, 0] = [0, 0] \<longleftrightarrow>
    checksum_loop 0 (slice 0 36 data) [0, 0] = slice 36 38 data"
proof -
  obtain a b where ab: "slice 36 38 data = [a, b]"
    using assms by (rule_tac length_2_cases [of "slice 36 38 data"]) (auto simp: length_slice)
  obtain x y where xy: "checksum_loop 0 (slice 0 36 data) [0, 0] = [x, y]"
    by (rule length_2_cases [of "checksum_loop 0 (slice 0 36 data) [0, 0]"]) auto
  have "slice 0 36 data @ [a, b] = data"
    unfolding ab [symmetric] using assms by (simp add: slice_def)
  moreover have "checksum_loop 0 (slice 0 36 data @ [a, b]) [0, 0] = [x XOR a, y XOR b]"
    using assms by (simp add: checksum_loop_append xy length_slice)
  ultimately have "checksum_loop 0 data [0, 0] = [x XOR a, y XOR b]" by simp
  then show ?thesis using ab xy by (simp add: xor_eq_0_iff)
qed

section \<open>Parsing and printing\<close>

definition toxid_of_data :: "bytes \<Rightarrow> ToxID" where
  "toxid_of_data data = \<lparr>PublicKey = bytes_key (slice 0 32 data),
     Nospam = Uint32 (slice 32 36 data), Checksum = Uint16 (slice 36 38 data)\<rparr>"

lemma Uint16_inject: "length bs = 2 \<Longrightarrow> length cs = 2 \<Longrightarrow> Uint16 bs = Uint16 cs \<longleftrightarrow> bs = cs"
  by (metis PutUint16_Uint16)

lemma toxid_data_bytes:
  assumes "length data = 38"
  shows "key_bytes (PublicKey (toxid_of_data data)) @ PutUint32 (Nospam (toxid_of_data data)) =
    slice 0 36 data"
    and "PutUint16 (Checksum (toxid_of_data data)) = slice 36 38 data"
  using assms slice_split [of 0 32 36 data]
  by (simp_all add: toxid_of_data_def length_slice key_bytes_bytes_key PutUint32_Uint32
      PutUint16_Uint16)

lemma ToxIDFromString_Ok_iff:
  "ToxIDFromString s = Ok tid \<longleftrightarrow>
     (\<exists>data. hex_DecodeString s = Ok data \<and> length data = 38 \<and>
        checksum_loop 0 data [0, 0] = [0, 0] \<and> tid = toxid_of_data data)"
proof (cases "hex_DecodeString s")
  case (Inl e)
  then show ?thesis by (simp add: ToxIDFromString_def)
next
  case (Inr data)
  have len: "length s = ToxIDHexLength \<longleftrightarrow> length data = 38"
    using length_hex_Decode [OF Inr] by (auto simp: ToxIDHexLength_def)
  show ?thesis
  proof (cases "length data = 38")
    case True
    have "ToxIDFromString s =
        (if Checksum (toxid_of_data data) \<noteq> Uint16 (checksum_loop 0 (slice 0 36 data) [0, 0])
         then Err InvalidChecksum else Ok (toxid_of_data data))"
      using Inr True len toxid_data_bytes(1) [OF True]
      by (simp add: ToxIDFromString_def calculateChecksum_def Let_def toxid_of_data_def)
    also have "Checksum (toxid_of_data data) \<noteq> Uint16 (checksum_loop 0 (slice 0 36 data) [0, 0])
        \<longleftrightarrow> checksum_loop 0 data [0, 0] \<noteq> [0, 0]"
      using True by (auto simp: toxid_of_data_def checksum_loop_closed Uint16_inject length_slice)
    finally show ?thesis using Inr True by auto
  next
    case False
    then show ?thesis using Inr len by (simp add: ToxIDFromString_def)
  qed
qed

lemma toxid_of_data_bytes:
  "toxid_of_data (key_bytes (PublicKey tid) @ PutUint32 (Nospam tid) @ PutUint16 (Checksum tid)) = tid"
  by (simp add: toxid_of_data_def wire_simps)

lemma NewToxID_closed:
  "checksum_loop 0 (key_bytes pk @ PutUint32 ns @ PutUint16 (Checksum (NewToxID pk ns))) [0, 0] = [0, 0]"
proof -
  let ?data = "key_bytes pk @ PutUint32 ns @ PutUint16 (Checksum (NewToxID pk ns))"
  have "slice 0 36 ?data = key_bytes pk @ PutUint32 ns"
    by (simp add: slice_def)
  moreover have "slice 36 38 ?data = PutUint16 (Checksum (NewToxID pk ns))"
    by (simp add: slice_def)
  ultimately show ?thesis
    by (subst checksum_loop_closed)
      (simp_all add: NewToxID_def calculateChecksum_def Let_def PutUint16_Uint16)
qed

lemma SetNospam_eq_NewToxID: "SetNospam ns tid = NewToxID (PublicKey tid) ns"
  by (simp add: SetNospam_def NewToxID_def calculateChecksum_def Let_def)

definition wf_toxid :: "ToxID \<Rightarrow> bool" where
  "wf_toxid tid \<longleftrightarrow> tid = NewToxID (PublicKey tid) (Nospam tid)"

lemma NewToxID_fields [simp]: "PublicKey (NewToxID pk ns) = pk" "Nospam (NewToxID pk ns) = ns"
  by (simp_all add: NewToxID_def calculateChecksum_def Let_def)

lemma wf_toxid_NewToxID [simp]: "wf_toxid (NewToxID pk ns)"
  by (simp add: wf_toxid_def)

lemma wf_toxid_SetNospam [simp]: "wf_toxid (SetNospam ns tid)"
  by (simp add: SetNospam_eq_NewToxID)

interpretation toxid: codec ToxID_String ToxIDFromString wf_toxid
proof
  fix tid assume "wf_toxid tid"
  then obtain pk ns where "tid = NewToxID pk ns" by (auto simp: wf_toxid_def)
  then show "ToxIDFromString (ToxID_String tid) = Ok tid"
    unfolding ToxIDFromString_Ok_iff ToxID_String_def hex_Decode_Encode
    using NewToxID_closed [of pk ns] toxid_of_data_bytes [of "NewToxID pk ns"] by auto
qed

text \<open>
  C37. Printing an identifier made by \<^verbatim>\<open>NewToxID\<close> or updated by \<^verbatim>\<open>SetNospam\<close>, and
  parsing the result, gives the identifier back, for every key and nospam.
\<close>

theorem ToxID_print_parse:
  "ToxIDFromString (ToxID_String (NewToxID pk ns)) = Ok (NewToxID pk ns) \<and>
   ToxIDFromString (ToxID_String (SetNospam ns tid)) = Ok (SetNospam ns tid)"
  by (simp add: toxid.dec_enc)

text \<open>
  Parsing accepts only canonical data: an accepted string has 76 hexadecimal digits, printing
  the parsed identifier gives the same string in lower case, and the parsed checksum is the one
  \<^verbatim>\<open>NewToxID\<close> computes for the key and nospam.
\<close>

theorem ToxID_parse_print:
  assumes "ToxIDFromString s = Ok tid"
  shows "length s = 76 \<and> ToxID_String tid = map hex_lower s \<and>
    tid = NewToxID (PublicKey tid) (Nospam tid)"
proof -
  obtain data where dec: "hex_DecodeString s = Ok data" and len: "length data = 38"
    and closed: "checksum_loop 0 data [0, 0] = [0, 0]" and tid: "tid = toxid_of_data data"
    using assms by (auto simp: ToxIDFromString_Ok_iff)
  have bytes: "key_bytes (PublicKey tid) @ PutUint32 (Nospam tid) @ PutUint16 (Checksum tid) = data"
    using toxid_data_bytes [OF len] len unfolding tid by (simp flip: append_assoc) (simp add: slice_def)
  have "ToxID_String tid = map hex_lower s"
    unfolding ToxID_String_def bytes by (rule hex_Encode_Decode [OF dec])
  moreover have "Checksum tid = Checksum (NewToxID (PublicKey tid) (Nospam tid))"
    using closed toxid_data_bytes [OF len]
    by (simp add: checksum_loop_closed len tid NewToxID_def calculateChecksum_def Let_def)
      (metis Uint16_PutUint16)
  then have "tid = NewToxID (PublicKey tid) (Nospam tid)"
    by (simp add: NewToxID_def calculateChecksum_def Let_def)
  ultimately show ?thesis using length_hex_Decode [OF dec] len by simp
qed

theorem ToxID_parse_print_witness:
  "ToxIDFromString ''0000000000000000000000000000000000000000000000000000000000000005000000070002'' =
     Ok (NewToxID 5 7) \<and>
   ToxID_String (NewToxID 5 7) =
     map hex_lower ''0000000000000000000000000000000000000000000000000000000000000005000000070002''"
proof -
  have "ToxIDFromString ''0000000000000000000000000000000000000000000000000000000000000005000000070002'' =
     Ok (NewToxID 5 7)" by code_simp
  then show ?thesis using ToxID_parse_print by blast
qed

text \<open>
  The checksum detects every single mistyped character: replacing one character of a valid
  identifier by any character that is not the same hexadecimal digit makes parsing fail.
\<close>

theorem ToxID_typo_detected:
  assumes "ToxIDFromString s = Ok tid" and "i < length s" and "from_hex c \<noteq> from_hex (s ! i)"
  shows "\<exists>e. ToxIDFromString (s[i := c]) = Err e"
proof -
  obtain data where dec: "hex_DecodeString s = Ok data" and len: "length data = 38"
    and closed: "checksum_loop 0 data [0, 0] = [0, 0]"
    using assms(1) by (auto simp: ToxIDFromString_Ok_iff)
  have "ToxIDFromString (s[i := c]) \<noteq> Ok tid'" for tid'
  proof (cases "from_hex c")
    case None
    then show ?thesis
      using hex_Decode_update_invalid [OF assms(2) None] by (auto simp: ToxIDFromString_Ok_iff)
  next
    case (Some d)
    obtain b where b: "b \<noteq> data ! (i div 2)"
      and upd: "hex_DecodeString (s[i := c]) = Ok (data[i div 2 := b])"
      using hex_Decode_update [OF dec assms(2) Some assms(3)] by blast
    let ?j = "i div 2" and ?x = "data ! (i div 2) XOR b"
    have j: "?j < length data" using assms(2) length_hex_Decode [OF dec] by simp
    have "data[?j := b] = data[?j := data ! ?j XOR ?x]" by (simp flip: xor.assoc)
    then have "checksum_loop 0 (data[?j := b]) [0, 0] = [0, 0][?j mod 2 := ([0, 0] ! (?j mod 2)) XOR ?x]"
      using checksum_loop_update [OF j, of "[0, 0]" ?x] closed by simp
    moreover have "?x \<noteq> 0" using b by (simp add: xor_eq_0_iff)
    moreover have "?j mod 2 = 0 \<or> ?j mod 2 = 1" by auto
    ultimately have "checksum_loop 0 (data[?j := b]) [0, 0] \<noteq> [0, 0]" by auto
    then show ?thesis using upd by (auto simp: ToxIDFromString_Ok_iff)
  qed
  then show ?thesis by (metis sum.exhaust)
qed

theorem ToxID_typo_detected_witness:
  "\<exists>e. ToxIDFromString
     (''0000000000000000000000000000000000000000000000000000000000000005000000070002''[63 := CHR ''F'']) = Err e"
proof (rule ToxID_typo_detected)
  show "ToxIDFromString ''0000000000000000000000000000000000000000000000000000000000000005000000070002'' =
     Ok (NewToxID 5 7)" by code_simp
  show "63 < length ''0000000000000000000000000000000000000000000000000000000000000005000000070002''"
    by simp
  show "from_hex (CHR ''F'') \<noteq>
      from_hex (''0000000000000000000000000000000000000000000000000000000000000005000000070002'' ! 63)"
    by code_simp
qed

end
