(* ===== verification/Nonce_Store.thy ===== *)
theory Nonce_Store
  imports Tox_Prelude
begin

text \<open>
  The persistent replay store of handshake nonces (\<^verbatim>\<open>crypto/replay_protection.go\<close>) with the
  checked conversions of \<^verbatim>\<open>crypto/safe_conversions.go\<close>. A timestamp is a Unix time in
  seconds, an \<^verbatim>\<open>int64\<close>. Every operation that reads the clock takes its value \<open>now\<close> as an
  argument. The contents of the data file and the outcome of the file-system calls are arguments
  too. \<^verbatim>\<open>cleanupLoop\<close> runs \<^verbatim>\<open>cleanup\<close> at unspecified times, so statements quantify over
  every interleaving of checks and cleanups.
\<close>

section \<open>Definitions\<close>

datatype conv_error = ExceedsInt64Max u64 | NegativeInt64 int

definition safeUint64ToInt64 :: "u64 \<Rightarrow> conv_error + int" where
  "safeUint64ToInt64 val = (if uint val > MaxInt64 then Err (ExceedsInt64Max val) else Ok (uint val))"

definition safeInt64ToUint64 :: "int \<Rightarrow> conv_error + u64" where
  "safeInt64ToUint64 val = (if val < 0 then Err (NegativeInt64 val) else Ok (word_of_int val))"

record NonceStore =
  nonces :: "(key32, int) gomap"
  maxEntries :: nat
  closed :: bool

abbreviation (input) maxNonceStoreEntries :: nat where "maxNonceStoreEntries \<equiv> 100000"

definition expiryDelta :: int where "expiryDelta = 6 * 60"

definition cleanupExpiredLocked :: "int \<Rightarrow> NonceStore \<Rightarrow> NonceStore" where
  "cleanupExpiredLocked now ns = ns\<lparr>nonces := filter (\<lambda>e. \<not> snd e \<le> now) (nonces ns)\<rparr>"

definition cleanup :: "int \<Rightarrow> NonceStore \<Rightarrow> NonceStore" where
  "cleanup now ns = cleanupExpiredLocked now ns"

definition CheckAndStore :: "key32 \<Rightarrow> int \<Rightarrow> int \<Rightarrow> NonceStore \<Rightarrow> bool \<times> NonceStore" where
  "CheckAndStore nonce timestamp now ns =
     (if mget (nonces ns) nonce \<noteq> None then (False, ns)
      else
        let ns1 = (if length (nonces ns) \<ge> maxEntries ns then cleanupExpiredLocked now ns else ns)
        in if length (nonces ns) \<ge> maxEntries ns \<and> length (nonces ns1) \<ge> maxEntries ns1
           then (False, ns1)
           else if timestamp > MaxInt64 - expiryDelta then (False, ns1)
           else (True, ns1\<lparr>nonces := mput nonce (timestamp + expiryDelta) (nonces ns1)\<rparr>))"

datatype file_content = NotExist | ReadError | FileData bytes

datatype store_error = ReadFailed | CorruptedTooSmall | WriteFailed | RenameFailed

definition readNonceStoreFile :: "file_content \<Rightarrow> store_error + bytes option" where
  "readNonceStoreFile f =
     (case f of
        NotExist \<Rightarrow> Ok None
      | ReadError \<Rightarrow> Err ReadFailed
      | FileData data \<Rightarrow> if length data < 8 then Err CorruptedTooSmall else Ok (Some data))"

definition parseNonceRecord :: "bytes \<Rightarrow> nat \<Rightarrow> int \<Rightarrow> key32 \<times> int \<times> bool" where
  "parseNonceRecord data offset now =
     (let nonce = bytes_key (slice offset (offset + 32) data);
          timestampUint = Uint64 (slice (offset + 32) (offset + 40) data)
      in case safeUint64ToInt64 timestampUint of
           Err _ \<Rightarrow> (nonce, 0, False)
         | Ok timestamp \<Rightarrow> (nonce, timestamp, timestamp > now))"

text \<open>The loop of \<^verbatim>\<open>load\<close>; the first argument is \<^verbatim>\<open>count - i\<close>.\<close>

fun load_loop :: "nat \<Rightarrow> bytes \<Rightarrow> nat \<Rightarrow> int \<Rightarrow> (key32, int) gomap \<Rightarrow> (key32, int) gomap" where
  "load_loop remaining data offset now m =
     (if remaining > 0 \<and> offset + 40 \<le> length data
      then let (nonce, timestamp, valid) = parseNonceRecord data offset now
           in load_loop (remaining - 1) data (offset + 40) now
                (if valid then mput nonce timestamp m else m)
      else m)"

declare load_loop.simps [simp del]

definition load :: "file_content \<Rightarrow> int \<Rightarrow> NonceStore \<Rightarrow> (store_error + unit) \<times> NonceStore" where
  "load f now ns =
     (case readNonceStoreFile f of
        Err e \<Rightarrow> (Err e, ns)
      | Ok None \<Rightarrow> (Ok (), ns)
      | Ok (Some data) \<Rightarrow>
          (Ok (), ns\<lparr>nonces := load_loop (unat (Uint64 (slice 0 8 data))) data 8 now (nonces ns)\<rparr>))"

text \<open>The entries that \<^verbatim>\<open>save\<close> keeps, and the buffer it writes.\<close>

fun valid_entries :: "(key32, int) gomap \<Rightarrow> (key32 \<times> u64) list" where
  "valid_entries [] = []"
| "valid_entries ((nonce, timestamp) # m) =
     (case safeInt64ToUint64 timestamp of
        Err _ \<Rightarrow> valid_entries m
      | Ok expiry \<Rightarrow> (nonce, expiry) # valid_entries m)"

definition nonce_record :: "key32 \<times> u64 \<Rightarrow> bytes" where
  "nonce_record e = key_bytes (fst e) @ PutUint64 (snd e)"

definition save_buffer :: "NonceStore \<Rightarrow> bytes" where
  "save_buffer ns =
     (let valid = valid_entries (nonces ns)
      in PutUint64 (word_of_nat (length valid)) @ concat (map nonce_record valid))"

text \<open>
  \<^verbatim>\<open>os.WriteFile\<close> to the temporary file and \<^verbatim>\<open>os.Rename\<close> over the data file either
  succeed or fail; the data file changes only by the rename.
\<close>

definition save :: "bool \<Rightarrow> bool \<Rightarrow> NonceStore \<Rightarrow> file_content \<Rightarrow> (store_error + unit) \<times> file_content" where
  "save write_ok rename_ok ns f =
     (if \<not> write_ok then (Err WriteFailed, f)
      else if \<not> rename_ok then (Err RenameFailed, f)
      else (Ok (), FileData (save_buffer ns)))"

definition Close ::
  "bool \<Rightarrow> bool \<Rightarrow> NonceStore \<Rightarrow> file_content \<Rightarrow> (store_error + unit) \<times> NonceStore \<times> file_content" where
  "Close write_ok rename_ok ns f =
     (if closed ns then (Ok (), ns, f)
      else let (r, f') = save write_ok rename_ok ns f in (r, ns\<lparr>closed := True\<rparr>, f'))"

definition Size :: "NonceStore \<Rightarrow> nat" where
  "Size ns = length (nonces ns)"

definition NewNonceStore :: "file_content \<Rightarrow> int \<Rightarrow> NonceStore" where
  "NewNonceStore f now =
     snd (load f now \<lparr>nonces = [], maxEntries = maxNonceStoreEntries, closed = False\<rparr>)"

section \<open>The invariant\<close>

definition wf_store :: "NonceStore \<Rightarrow> bool" where
  "wf_store ns \<longleftrightarrow> wf_map (nonces ns) \<and> length (nonces ns) \<le> maxEntries ns"

datatype nonce_op = CheckOp key32 int int | CleanupOp int

fun nonce_step :: "nonce_op \<Rightarrow> NonceStore \<Rightarrow> NonceStore" where
  "nonce_step (CheckOp nonce timestamp now) ns = snd (CheckAndStore nonce timestamp now ns)"
| "nonce_step (CleanupOp now) ns = cleanup now ns"

fun op_time :: "nonce_op \<Rightarrow> int" where
  "op_time (CheckOp nonce timestamp now) = now"
| "op_time (CleanupOp now) = now"

lemma wf_cleanup: "wf_store ns \<Longrightarrow> wf_store (cleanupExpiredLocked now ns)"
  by (auto simp: wf_store_def cleanupExpiredLocked_def wf_map_filter intro: le_trans [OF length_filter_le])

lemma wf_CheckAndStore: "wf_store ns \<Longrightarrow> wf_store (snd (CheckAndStore nonce timestamp now ns))"
proof -
  assume wf: "wf_store ns"
  let ?ns1 = "if length (nonces ns) \<ge> maxEntries ns then cleanupExpiredLocked now ns else ns"
  have wf1: "wf_store ?ns1" using wf by (simp add: wf_cleanup)
  have max1: "maxEntries ?ns1 = maxEntries ns" by (simp add: cleanupExpiredLocked_def)
  have room: "length (nonces ?ns1) < maxEntries ?ns1 \<Longrightarrow>
      length (mput nonce e (nonces ?ns1)) \<le> maxEntries ?ns1" for e
    using wf1 by (intro gm.count_put_room) (simp_all add: wf_store_def)
  show ?thesis
    using wf wf1 max1 room
    by (auto simp: CheckAndStore_def Let_def wf_store_def gm.wf_put not_le split: if_splits)
qed

lemma maxEntries_CheckAndStore [simp]:
  "maxEntries (snd (CheckAndStore nonce timestamp now ns)) = maxEntries ns"
  by (simp add: CheckAndStore_def Let_def cleanupExpiredLocked_def)

interpretation nonce_sys: op_system nonce_step wf_store
proof
  fix ns p assume "wf_store ns"
  then show "wf_store (nonce_step p ns)"
    by (cases p) (auto simp: wf_CheckAndStore wf_cleanup cleanup_def)
qed

lemma mget_cleanup:
  "wf_store ns \<Longrightarrow> mget (nonces (cleanupExpiredLocked now ns)) k =
     (case mget (nonces ns) k of None \<Rightarrow> None | Some e \<Rightarrow> if e \<le> now then None else Some e)"
  by (auto simp: cleanupExpiredLocked_def wf_store_def mget_filter split: option.splits)

lemma nonce_step_keeps:
  assumes "wf_store ns" and "mget (nonces ns) k = Some e" and "op_time p < e"
  shows "mget (nonces (nonce_step p ns)) k = Some e"
proof (cases p)
  case (CleanupOp now)
  then show ?thesis using assms by (simp add: cleanup_def mget_cleanup)
next
  case (CheckOp nonce timestamp now)
  have c: "mget (nonces (cleanupExpiredLocked now ns)) k = Some e"
    using assms CheckOp by (simp add: mget_cleanup)
  show ?thesis
    using assms CheckOp c by (auto simp: CheckAndStore_def Let_def dict_simps)
qed

lemma nonce_run_keeps:
  assumes "wf_store ns" and "mget (nonces ns) k = Some e" and "\<forall>p \<in> set ps. op_time p < e"
  shows "mget (nonces (fold nonce_step ps ns)) k = Some e"
  using assms
proof (induction ps arbitrary: ns)
  case Nil
  then show ?case by simp
next
  case (Cons p ps)
  then show ?case by (simp add: nonce_step_keeps nonce_sys.inv_step)
qed

lemma CheckAndStore_accept:
  "CheckAndStore nonce timestamp now ns = (True, ns') \<Longrightarrow>
     mget (nonces ns') nonce = Some (timestamp + expiryDelta) \<and> timestamp + expiryDelta \<le> MaxInt64"
  by (auto simp: CheckAndStore_def Let_def dict_simps split: if_splits)

lemma CheckAndStore_seen:
  "mget (nonces ns) nonce = Some e \<Longrightarrow> CheckAndStore nonce timestamp now ns = (False, ns)"
  by (simp add: CheckAndStore_def)

section \<open>Saving and loading\<close>

lemma uint_word_of_int64: "0 \<le> i \<Longrightarrow> int64 i \<Longrightarrow> uint (word_of_int i :: u64) = i"
  by (simp add: int64_def MaxInt64_def unsigned_of_int take_bit_int_eq_self)

lemma length_nonce_record [simp]: "length (nonce_record e) = 40"
  by (simp add: nonce_record_def)

definition reload :: "int \<Rightarrow> (key32 \<times> u64) list \<Rightarrow> (key32, int) gomap \<Rightarrow> (key32, int) gomap" where
  "reload now es m = foldl (\<lambda>m e. if uint (snd e) \<le> MaxInt64 \<and> uint (snd e) > now
     then mput (fst e) (uint (snd e)) m else m) m es"

lemma parse_nonce_record:
  "parseNonceRecord (pre @ nonce_record e @ post) (length pre) now =
     (if uint (snd e) > MaxInt64 then (fst e, 0, False) else (fst e, uint (snd e), uint (snd e) > now))"
  by (simp add: parseNonceRecord_def nonce_record_def safeUint64ToInt64_def slice_def Let_def)

lemma load_loop_records:
  "load_loop (length es) (pre @ concat (map nonce_record es)) (length pre) now m = reload now es m"
proof (induction es arbitrary: pre m)
  case Nil
  show ?case by (simp add: load_loop.simps reload_def)
next
  case (Cons e es)
  let ?data = "pre @ concat (map nonce_record (e # es))"
  let ?m = "if uint (snd e) \<le> MaxInt64 \<and> uint (snd e) > now then mput (fst e) (uint (snd e)) m else m"
  have "load_loop (length (e # es)) ?data (length pre) now m =
        load_loop (length es) ?data (length pre + 40) now ?m"
    by (subst load_loop.simps) (auto simp: parse_nonce_record)
  also have "\<dots> = load_loop (length es) ((pre @ nonce_record e) @ concat (map nonce_record es))
      (length (pre @ nonce_record e)) now ?m" by simp
  also have "\<dots> = reload now es ?m" by (rule Cons.IH)
  finally show ?case by (simp add: reload_def)
qed

lemma length_valid_entries: "length (valid_entries m) \<le> length m"
  by (induction m rule: valid_entries.induct) (auto split: sum.splits)

lemma load_save_buffer:
  assumes "length (nonces ns) < 2 ^ 64"
  shows "load (FileData (save_buffer ns)) now ns' =
    (Ok (), ns'\<lparr>nonces := reload now (valid_entries (nonces ns)) (nonces ns')\<rparr>)"
proof -
  let ?es = "valid_entries (nonces ns)"
  let ?data = "PutUint64 (word_of_nat (length ?es)) @ concat (map nonce_record ?es)"
  have "length ?es < 2 ^ 64" using assms length_valid_entries [of "nonces ns"] by simp
  then have "unat (Uint64 (slice 0 8 ?data)) = length ?es"
    by (simp add: wire_simps unat_of_nat_u64)
  moreover have "load_loop (length ?es) ?data 8 now (nonces ns') = reload now ?es (nonces ns')"
    using load_loop_records [of ?es "PutUint64 (word_of_nat (length ?es))"] by simp
  ultimately show ?thesis by (simp add: load_def readNonceStoreFile_def save_buffer_def Let_def)
qed

lemma valid_entries_keys: "k \<notin> fst ` set m \<Longrightarrow> k \<notin> fst ` set (valid_entries m)"
  by (induction m rule: valid_entries.induct) (auto split: sum.splits)

lemma reload_other: "k \<notin> fst ` set es \<Longrightarrow> mget (reload now es m) k = mget m k"
  unfolding reload_def
  by (induction es arbitrary: m) (auto simp: dict_simps)

lemma mget_reload_valid_entries:
  assumes "wf_map m" and "\<forall>e \<in> set m. int64 (snd e)"
  shows "mget (reload now (valid_entries m) m0) k =
    (case mget m k of
       Some e \<Rightarrow> if 0 \<le> e \<and> e > now then Some e else mget m0 k
     | None \<Rightarrow> mget m0 k)"
  using assms
proof (induction m arbitrary: m0 rule: valid_entries.induct)
  case 1
  then show ?case by (simp add: reload_def)
next
  case (2 nonce ts m)
  have rest: "wf_map m" "nonce \<notin> fst ` set m" and ts: "int64 ts"
    using "2.prems" by (auto simp: wf_map_def)
  show ?case
  proof (cases "ts < 0")
    case True
    have "mget (reload now (valid_entries m) m0) nonce = mget m0 nonce"
      using rest by (intro reload_other valid_entries_keys)
    with True "2.IH"(1) [of "NegativeInt64 ts" m0] "2.prems" rest show ?thesis
      by (auto simp: safeInt64ToUint64_def mget_def)
  next
    case False
    then have u: "uint (word_of_int ts :: u64) = ts" "ts \<le> MaxInt64"
      using ts uint_word_of_int64 [of ts] by (auto simp: int64_def)
    let ?m0 = "if ts > now then mput nonce ts m0 else m0"
    have "reload now (valid_entries ((nonce, ts) # m)) m0 = reload now (valid_entries m) ?m0"
      using False u by (simp add: reload_def safeInt64ToUint64_def)
    moreover have "mget (reload now (valid_entries m) ?m0) nonce = mget ?m0 nonce"
      using rest by (intro reload_other valid_entries_keys)
    ultimately show ?thesis
      using False "2.IH"(2) [of "word_of_int ts" ?m0] "2.prems" rest
      by (auto simp: safeInt64ToUint64_def mget_def [of "(nonce, ts) # m"] mget_def [of m, symmetric] dict_simps
          split: option.splits)
  qed
qed

lemma wf_reload: "wf_map m \<Longrightarrow> wf_map (reload now es m)"
  unfolding reload_def by (induction es arbitrary: m) (auto simp: gm.wf_put)

lemma length_reload: "wf_map m \<Longrightarrow> length (reload now es m) \<le> length m + length es"
  unfolding reload_def
proof (induction es arbitrary: m)
  case Nil
  then show ?case by simp
next
  case (Cons e es)
  let ?m = "if uint (snd e) \<le> MaxInt64 \<and> uint (snd e) > now then mput (fst e) (uint (snd e)) m else m"
  have "wf_map ?m" using Cons.prems by (simp add: gm.wf_put)
  moreover have "length ?m \<le> Suc (length m)" using gm.count_put_le [OF Cons.prems] by simp
  ultimately show ?case using Cons.IH [of ?m] by simp
qed

text \<open>Timestamps are \<^verbatim>\<open>int64\<close> values, so the stored expiries are too.\<close>

definition int64_store :: "NonceStore \<Rightarrow> bool" where
  "int64_store ns \<longleftrightarrow> (\<forall>e \<in> set (nonces ns). int64 (snd e))"

fun int64_op :: "nonce_op \<Rightarrow> bool" where
  "int64_op (CheckOp nonce timestamp now) \<longleftrightarrow> int64 timestamp"
| "int64_op (CleanupOp now) \<longleftrightarrow> True"

lemma int64_step: "int64_store ns \<Longrightarrow> int64_op p \<Longrightarrow> int64_store (nonce_step p ns)"
  by (cases p)
    (auto simp: int64_store_def CheckAndStore_def Let_def cleanup_def cleanupExpiredLocked_def
      mput_def mdel_def int64_def expiryDelta_def)

lemma int64_run: "int64_store ns \<Longrightarrow> \<forall>p \<in> set ps. int64_op p \<Longrightarrow> int64_store (fold nonce_step ps ns)"
  by (induction ps arbitrary: ns) (auto simp: int64_step)

lemma closed_step [simp]: "closed (nonce_step p ns) = closed ns"
  by (cases p) (auto simp: CheckAndStore_def Let_def cleanup_def cleanupExpiredLocked_def)

lemma closed_run [simp]: "closed (fold nonce_step ps ns) = closed ns"
  by (induction ps arbitrary: ns) auto

lemma maxEntries_run [simp]: "maxEntries (fold nonce_step ps ns) = maxEntries ns"
proof (induction ps arbitrary: ns)
  case (Cons p ps)
  then show ?case by (cases p) (auto simp: cleanup_def cleanupExpiredLocked_def)
qed simp

lemma restart:
  fixes now :: int
  assumes wf: "wf_store ns" and typed: "int64_store ns"
    and max: "maxEntries ns = maxNonceStoreEntries"
  defines "ns' \<equiv> NewNonceStore (FileData (save_buffer ns)) now"
  shows "wf_store ns'"
    and "mget (nonces ns') k =
      (case mget (nonces ns) k of None \<Rightarrow> None | Some e \<Rightarrow> if 0 \<le> e \<and> e > now then Some e else None)"
proof -
  have "length (nonces ns) \<le> 100000" using wf max by (simp add: wf_store_def)
  then have ns': "nonces ns' = reload now (valid_entries (nonces ns)) []"
      "maxEntries ns' = maxNonceStoreEntries"
    by (simp_all add: ns'_def NewNonceStore_def load_save_buffer)
  have "length (nonces ns') \<le> length (nonces ns)"
    using ns' length_reload [of "[]" now "valid_entries (nonces ns)"] length_valid_entries [of "nonces ns"]
    by simp
  then show "wf_store ns'" using ns' wf max by (simp add: wf_store_def wf_reload)
  show "mget (nonces ns') k =
      (case mget (nonces ns) k of None \<Rightarrow> None | Some e \<Rightarrow> if 0 \<le> e \<and> e > now then Some e else None)"
    using wf typed by (auto simp: ns' mget_reload_valid_entries wf_store_def int64_store_def
        split: option.splits)
qed

section \<open>Replay protection\<close>

text \<open>
  C32. A nonce accepted with timestamp \<open>ts\<close> is rejected by every later check, whatever checks and
  cleanups happen in between, as long as the clock of those operations has not reached the
  expiry \<open>ts + 360\<close>.
\<close>

theorem replay_rejected:
  assumes "wf_store ns" and "CheckAndStore nonce ts now ns = (True, ns1)"
    and "\<forall>p \<in> set ps. op_time p < ts + 360"
  shows "fst (CheckAndStore nonce ts' now' (fold nonce_step ps ns1)) = False"
proof -
  have "wf_store ns1" using wf_CheckAndStore [OF assms(1), of nonce ts now] assms(2) by simp
  moreover have "mget (nonces ns1) nonce = Some (ts + 360)"
    using CheckAndStore_accept [OF assms(2)] by (simp add: expiryDelta_def)
  ultimately have "mget (nonces (fold nonce_step ps ns1)) nonce = Some (ts + 360)"
    using assms(3) by (rule nonce_run_keeps)
  then show ?thesis by (simp add: CheckAndStore_seen)
qed

theorem replay_rejected_witness:
  "fst (CheckAndStore 7 1005 1006
     (fold nonce_step [CheckOp 8 1000 1001, CleanupOp 1300]
        (snd (CheckAndStore 7 1000 1000
          \<lparr>nonces = [], maxEntries = maxNonceStoreEntries, closed = False\<rparr>)))) = False"
proof (rule replay_rejected)
  show "wf_store \<lparr>nonces = [], maxEntries = maxNonceStoreEntries, closed = False\<rparr>"
    by (simp add: wf_store_def)
  show "CheckAndStore 7 1000 1000 \<lparr>nonces = [], maxEntries = maxNonceStoreEntries, closed = False\<rparr> =
      (True, snd (CheckAndStore 7 1000 1000
          \<lparr>nonces = [], maxEntries = maxNonceStoreEntries, closed = False\<rparr>))"
    by (simp add: CheckAndStore_def Let_def MaxInt64_def expiryDelta_def)
  show "\<forall>p \<in> set [CheckOp 8 1000 1001, CleanupOp 1300]. op_time p < 1000 + 360" by simp
qed

text \<open>
  C33. Replay protection survives a restart: a nonce accepted with timestamp \<open>ts\<close>, in a store
  that is then closed with a successful save and reopened before the expiry, is still rejected
  after any operations before the expiry.
\<close>

theorem replay_rejected_after_restart:
  assumes store: "wf_store ns" "int64_store ns" "maxEntries ns = maxNonceStoreEntries" "\<not> closed ns"
    and accepted: "CheckAndStore nonce ts now ns = (True, ns1)" and ts: "int64 ts" "0 \<le> ts + 360"
    and before: "\<forall>p \<in> set ps. op_time p < ts + 360 \<and> int64_op p"
    and closed: "Close True True (fold nonce_step ps ns1) f = (Ok (), ns2, f')"
    and "reopened < ts + 360" and after: "\<forall>p \<in> set qs. op_time p < ts + 360"
  shows "fst (CheckAndStore nonce ts' now' (fold nonce_step qs (NewNonceStore f' reopened))) = False"
proof -
  let ?ns = "fold nonce_step ps ns1"
  have ns1: "ns1 = nonce_step (CheckOp nonce ts now) ns" using accepted by simp
  have wf1: "wf_store ns1" using store(1) unfolding ns1 by (rule nonce_sys.inv_step)
  have typed1: "int64_store ns1" using store(2) ts unfolding ns1 by (intro int64_step) auto
  have wf: "wf_store ?ns" using wf1 by (rule nonce_sys.inv_run)
  have typed: "int64_store ?ns" using typed1 before by (intro int64_run) auto
  have max: "maxEntries ?ns = maxNonceStoreEntries" using store(3) by (simp add: ns1)
  have "mget (nonces ns1) nonce = Some (ts + 360)"
    using CheckAndStore_accept [OF accepted] by (simp add: expiryDelta_def)
  then have "mget (nonces ?ns) nonce = Some (ts + 360)"
    using wf1 before by (intro nonce_run_keeps) auto
  moreover have "\<not> NonceStore.closed ?ns" using store(4) by (simp add: ns1 del: nonce_step.simps)
  then have f': "f' = FileData (save_buffer ?ns)"
    using closed by (simp add: Close_def save_def)
  ultimately have "mget (nonces (NewNonceStore f' reopened)) nonce = Some (ts + 360)"
    using restart(2) [OF wf typed max, of reopened nonce] ts(2) assms(10) by simp
  moreover have "wf_store (NewNonceStore f' reopened)"
    unfolding f' using restart(1) [OF wf typed max] .
  ultimately have "mget (nonces (fold nonce_step qs (NewNonceStore f' reopened))) nonce = Some (ts + 360)"
    using after by (intro nonce_run_keeps)
  then show ?thesis by (simp add: CheckAndStore_seen)
qed

theorem replay_rejected_after_restart_witness:
  "fst (CheckAndStore 7 1005 1106
     (fold nonce_step [CleanupOp 1105]
       (NewNonceStore (snd (snd (Close True True
          (fold nonce_step [CleanupOp 1001]
            (snd (CheckAndStore 7 1000 1000
              \<lparr>nonces = [], maxEntries = maxNonceStoreEntries, closed = False\<rparr>))) NotExist))) 1100))) = False"
proof -
  let ?empty = "\<lparr>nonces = [], maxEntries = maxNonceStoreEntries, closed = False\<rparr>"
  let ?ns1 = "snd (CheckAndStore 7 1000 1000 ?empty)"
  let ?ns = "fold nonce_step [CleanupOp 1001] ?ns1"
  have "CheckAndStore 7 1000 1000 ?empty = (True, ?ns1)"
    by (simp add: CheckAndStore_def Let_def MaxInt64_def expiryDelta_def)
  moreover have "Close True True ?ns NotExist =
      (Ok (), fst (snd (Close True True ?ns NotExist)), snd (snd (Close True True ?ns NotExist)))"
    by (simp add: Close_def save_def)
  ultimately show ?thesis
    using replay_rejected_after_restart [of ?empty 7 1000 1000 ?ns1 "[CleanupOp 1001]" NotExist
        "fst (snd (Close True True ?ns NotExist))" "snd (snd (Close True True ?ns NotExist))"
        1100 "[CleanupOp 1105]" 1005 1106]
    by (simp add: wf_store_def int64_store_def int64_def MaxInt64_def)
qed

text \<open>
  The store never grows beyond its cap: after every sequence of checks and cleanups on a
  fresh store, it holds at most \<^verbatim>\<open>maxNonceStoreEntries\<close> entries, with no nonce twice.
\<close>

theorem nonce_store_bounded:
  "Size (fold nonce_step ps (NewNonceStore NotExist now)) \<le> maxNonceStoreEntries \<and>
   wf_map (nonces (fold nonce_step ps (NewNonceStore NotExist now)))"
proof -
  have "wf_store (NewNonceStore NotExist now)"
    by (simp add: NewNonceStore_def load_def readNonceStoreFile_def wf_store_def)
  then have "wf_store (fold nonce_step ps (NewNonceStore NotExist now))"
    by (rule nonce_sys.inv_run)
  moreover have "maxEntries (NewNonceStore NotExist now) = maxNonceStoreEntries"
    by (simp add: NewNonceStore_def load_def readNonceStoreFile_def)
  ultimately show ?thesis by (simp add: wf_store_def Size_def)
qed

end
