(* ===== verification/Key_Rotation.thy ===== *)
theory Key_Rotation
  imports Tox_Prelude
begin

text \<open>
  Identity key rotation (\<^verbatim>\<open>crypto/key_rotation.go\<close>, \<^verbatim>\<open>WipeKeyPair\<close> and
  \<^verbatim>\<open>SecureWipe\<close> of \<^verbatim>\<open>crypto/secure_memory.go\<close>). The manager holds pointers to key pairs,
  and wiping a key pair changes the memory the pointer names, so the key pairs live in an explicit
  memory: a pointer is \<open>Some\<close> address or \<^verbatim>\<open>nil\<close>. Key generation is an argument: it gives a
  key pair or an error. The clock is an argument.
\<close>

section \<open>Definitions\<close>

record KeyPair =
  Public :: key32
  Private :: key32

record 'k memory =
  cells :: "nat \<Rightarrow> 'k"
  top :: nat

definition alloc :: "'k \<Rightarrow> 'k memory \<Rightarrow> nat \<times> 'k memory" where
  "alloc v mem = (top mem, mem\<lparr>cells := (cells mem)(top mem := v), top := Suc (top mem)\<rparr>)"

datatype 'e rotation_error = GenerateFailed 'e | WipeNilKeyPair | PeriodTooShort

text \<open>XORing the private bytes with themselves leaves zeros.\<close>

definition WipeKeyPair :: "nat option \<Rightarrow> KeyPair memory \<Rightarrow> ('e rotation_error + unit) \<times> KeyPair memory" where
  "WipeKeyPair kp mem =
     (case kp of
        None \<Rightarrow> (Err WipeNilKeyPair, mem)
      | Some a \<Rightarrow>
          (let v = cells mem a in
           (Ok (), mem\<lparr>cells := (cells mem)(a := v\<lparr>Private := Private v XOR Private v\<rparr>)\<rparr>)))"

record KeyRotationManager =
  currentKeyPair :: "nat option"
  previousKeys :: "nat option list"
  KeyCreationTime :: time
  RotationPeriod :: duration
  MaxPreviousKeys :: int

definition day :: duration where "day = 24 * 60 * 60 * 1000000000"

definition NewKeyRotationManager :: "nat option \<Rightarrow> time \<Rightarrow> KeyRotationManager" where
  "NewKeyRotationManager initialKeyPair now =
     \<lparr>currentKeyPair = initialKeyPair, previousKeys = [], KeyCreationTime = now,
      RotationPeriod = 7 * day, MaxPreviousKeys = 3\<rparr>"

definition RotateKey ::
  "'e + KeyPair \<Rightarrow> time \<Rightarrow> KeyRotationManager \<Rightarrow> KeyPair memory \<Rightarrow>
     ('e rotation_error + nat) \<times> KeyRotationManager \<times> KeyPair memory" where
  "RotateKey gen now krm mem =
     (case gen of
        Err e \<Rightarrow> (Err (GenerateFailed e), krm, mem)
      | Ok kp \<Rightarrow>
          (let (new, mem1) = alloc kp mem in
           case currentKeyPair krm of
             None \<Rightarrow> (Ok new, krm\<lparr>currentKeyPair := Some new, KeyCreationTime := now\<rparr>, mem1)
           | Some cur \<Rightarrow>
               (let previous = Some cur # previousKeys krm in
                if int (length previous) > MaxPreviousKeys krm
                then (case WipeKeyPair (last previous) mem1 of
                        (Err e, mem2) \<Rightarrow> (Err e, krm\<lparr>previousKeys := previous\<rparr>, mem2)
                      | (Ok _, mem2) \<Rightarrow>
                          (Ok new, krm\<lparr>previousKeys := butlast previous, currentKeyPair := Some new,
                                       KeyCreationTime := now\<rparr>, mem2))
                else (Ok new, krm\<lparr>previousKeys := previous, currentKeyPair := Some new,
                                  KeyCreationTime := now\<rparr>, mem1))))"

definition EmergencyRotation ::
  "'e + KeyPair \<Rightarrow> time \<Rightarrow> KeyRotationManager \<Rightarrow> KeyPair memory \<Rightarrow>
     ('e rotation_error + nat) \<times> KeyRotationManager \<times> KeyPair memory" where
  "EmergencyRotation gen now krm mem = RotateKey gen now krm mem"

definition ShouldRotate :: "time \<Rightarrow> KeyRotationManager \<Rightarrow> bool" where
  "ShouldRotate now krm \<longleftrightarrow> now - KeyCreationTime krm \<ge> RotationPeriod krm"

text \<open>The copies a getter returns are the values the pointers name; \<^verbatim>\<open>nil\<close> is left out.\<close>

definition deref :: "KeyPair memory \<Rightarrow> nat option list \<Rightarrow> KeyPair list" where
  "deref mem ps = List.map_filter (map_option (cells mem)) ps"

definition GetAllActiveKeys :: "KeyRotationManager \<Rightarrow> KeyPair memory \<Rightarrow> KeyPair list" where
  "GetAllActiveKeys krm mem = deref mem (currentKeyPair krm # previousKeys krm)"

definition FindKeyForPublicKey :: "key32 \<Rightarrow> KeyRotationManager \<Rightarrow> KeyPair memory \<Rightarrow> KeyPair option" where
  "FindKeyForPublicKey publicKey krm mem =
     (case currentKeyPair krm of
        Some a \<Rightarrow> if Public (cells mem a) = publicKey then Some (cells mem a)
                  else List.find (\<lambda>k. Public k = publicKey) (deref mem (previousKeys krm))
      | None \<Rightarrow> List.find (\<lambda>k. Public k = publicKey) (deref mem (previousKeys krm)))"

definition SetRotationPeriod ::
  "duration \<Rightarrow> KeyRotationManager \<Rightarrow> ('e rotation_error + unit) \<times> KeyRotationManager" where
  "SetRotationPeriod period krm =
     (if period < day then (Err PeriodTooShort, krm) else (Ok (), krm\<lparr>RotationPeriod := period\<rparr>))"

text \<open>The loop of \<^verbatim>\<open>Cleanup\<close> over the previous keys; the last error is kept.\<close>

fun wipe_all ::
  "nat option list \<Rightarrow> 'e rotation_error + unit \<Rightarrow> KeyPair memory \<Rightarrow> ('e rotation_error + unit) \<times> KeyPair memory" where
  "wipe_all [] lastErr mem = (lastErr, mem)"
| "wipe_all (k # ks) lastErr mem =
     (case WipeKeyPair k mem of
        (Err e, mem') \<Rightarrow> wipe_all ks (Err e) mem'
      | (Ok _, mem') \<Rightarrow> wipe_all ks lastErr mem')"

definition Cleanup ::
  "KeyRotationManager \<Rightarrow> KeyPair memory \<Rightarrow> ('e rotation_error + unit) \<times> KeyRotationManager \<times> KeyPair memory" where
  "Cleanup krm mem =
     (let (lastErr, mem1) =
            (case currentKeyPair krm of None \<Rightarrow> (Ok (), mem) | Some a \<Rightarrow> WipeKeyPair (Some a) mem);
          (lastErr', mem2) = wipe_all (previousKeys krm) lastErr mem1
      in (lastErr', krm\<lparr>currentKeyPair := None, previousKeys := []\<rparr>, mem2))"

definition GetCurrentKeyPair :: "KeyRotationManager \<Rightarrow> KeyPair memory \<Rightarrow> KeyPair option" where
  "GetCurrentKeyPair krm mem = map_option (cells mem) (currentKeyPair krm)"


record KeyRotationConfig =
  cfgRotationPeriod :: duration
  cfgMaxPreviousKeys :: int
  cfgEnabled :: bool
  cfgAutoRotate :: bool

definition GetConfig :: "KeyRotationManager option \<Rightarrow> KeyRotationConfig option" where
  "GetConfig m = map_option (\<lambda>krm. \<lparr>cfgRotationPeriod = RotationPeriod krm,
     cfgMaxPreviousKeys = MaxPreviousKeys krm, cfgEnabled = True, cfgAutoRotate = True\<rparr>) m"

section \<open>The invariant\<close>

text \<open>The addresses of the active keys, and the retired ones: allocated but not active.\<close>

definition active :: "KeyRotationManager \<Rightarrow> nat option list" where
  "active krm = (case currentKeyPair krm of None \<Rightarrow> [] | Some a \<Rightarrow> [Some a]) @ previousKeys krm"

definition rotation_inv :: "KeyRotationManager \<times> KeyPair memory \<Rightarrow> bool" where
  "rotation_inv s \<longleftrightarrow>
     (case s of (krm, mem) \<Rightarrow>
        distinct (active krm) \<and> None \<notin> set (previousKeys krm) \<and>
        (\<forall>a. Some a \<in> set (active krm) \<longrightarrow> a < top mem) \<and>
        (\<forall>a < top mem. Some a \<notin> set (active krm) \<longrightarrow> Private (cells mem a) = 0))"

datatype 'e rotation_op =
    Rotate "'e + KeyPair" time
  | SetPeriod duration
  | CleanupAll

fun rotation_step ::
  "'e rotation_op \<Rightarrow> KeyRotationManager \<times> KeyPair memory \<Rightarrow> KeyRotationManager \<times> KeyPair memory" where
  "rotation_step (Rotate gen now) (krm, mem) = snd (RotateKey gen now krm mem)"
| "rotation_step (SetPeriod p) (krm, mem) =
     (snd (SetRotationPeriod p krm :: ('e rotation_error + unit) \<times> KeyRotationManager), mem)"
| "rotation_step CleanupAll (krm, mem) =
     snd (Cleanup krm mem :: ('e rotation_error + unit) \<times> KeyRotationManager \<times> KeyPair memory)"

definition wipe_cell :: "nat \<Rightarrow> KeyPair memory \<Rightarrow> KeyPair memory" where
  "wipe_cell a mem = mem\<lparr>cells := (cells mem)(a := (cells mem a)\<lparr>Private := 0\<rparr>)\<rparr>"

lemma WipeKeyPair_Some [simp]: "WipeKeyPair (Some a) mem = (Ok (), wipe_cell a mem)"
  by (simp add: WipeKeyPair_def wipe_cell_def Let_def)

lemma cells_wipe_cell [simp]:
  "cells (wipe_cell a mem) b = (if b = a then (cells mem a)\<lparr>Private := 0\<rparr> else cells mem b)"
  by (simp add: wipe_cell_def)

lemma top_wipe_cell [simp]: "top (wipe_cell a mem) = top mem"
  by (simp add: wipe_cell_def)

lemma RotateKey_Ok:
  assumes "rotation_inv (krm, mem)"
  shows "RotateKey (Ok kp) now krm mem =
    (let (new, mem1) = alloc kp mem;
         krm1 = krm\<lparr>currentKeyPair := Some new, KeyCreationTime := now\<rparr>
     in case currentKeyPair krm of
          None \<Rightarrow> (Ok new, krm1, mem1)
        | Some cur \<Rightarrow>
            (let previous = Some cur # previousKeys krm in
             if int (length previous) > MaxPreviousKeys krm
             then (Ok new, krm1\<lparr>previousKeys := butlast previous\<rparr>, wipe_cell (the (last previous)) mem1)
             else (Ok new, krm1\<lparr>previousKeys := previous\<rparr>, mem1)))"
proof (cases "currentKeyPair krm")
  case None
  then show ?thesis by (simp add: RotateKey_def alloc_def Let_def)
next
  case (Some cur)
  have "None \<notin> set (Some cur # previousKeys krm)"
    using assms by (simp add: rotation_inv_def)
  then have "last (Some cur # previousKeys krm) \<noteq> None"
    by (metis last_in_set list.distinct(1))
  then obtain a where "last (Some cur # previousKeys krm) = Some a" by blast
  with Some show ?thesis by (simp add: RotateKey_def alloc_def Let_def)
qed

lemma inv_RotateKey:
  assumes inv: "rotation_inv (krm, mem)"
  shows "rotation_inv (snd (RotateKey gen now krm mem))"
proof (cases gen)
  case (Inl e)
  then show ?thesis using inv by (simp add: RotateKey_def)
next
  case (Inr kp)
  show ?thesis
  proof (cases "currentKeyPair krm")
    case None
    then show ?thesis unfolding Inr RotateKey_Ok [OF inv]
      using inv by (auto simp: alloc_def Let_def rotation_inv_def active_def less_Suc_eq)
  next
    case (Some cur)
    let ?prev = "Some cur # previousKeys krm"
    have act: "active krm = ?prev" by (simp add: active_def Some)
    have all: "distinct ?prev" "None \<notin> set ?prev" "\<And>a. Some a \<in> set ?prev \<Longrightarrow> a < top mem"
        "\<And>a. a < top mem \<Longrightarrow> Some a \<notin> set ?prev \<Longrightarrow> Private (cells mem a) = 0"
      using inv by (auto simp: rotation_inv_def act)
    obtain old where old: "last ?prev = Some old" "old < top mem"
      using all(2,3) last_in_set [of ?prev] by (metis list.distinct(1) option.exhaust)
    have split: "?prev = butlast ?prev @ [Some old]"
      using old(1) by (metis append_butlast_last_id list.distinct(1))
    then have old_out: "Some old \<notin> set (butlast ?prev)" and bl: "distinct (butlast ?prev)"
        and setp: "set ?prev = insert (Some old) (set (butlast ?prev))"
      using all(1) by (metis distinct_append distinct.simps(2) disjoint_insert(1) list.set(2),
        metis distinct_append, metis Un_insert_right append.right_neutral set_append list.set(1,2) sup_bot.right_neutral)
    show ?thesis
    proof (cases "int (length ?prev) > MaxPreviousKeys krm")
      case True
      let ?bl = "butlast ?prev"
      have sub: "set ?bl \<subseteq> set ?prev" unfolding setp by blast
      have less: "a < top mem" if "Some a \<in> set ?bl" for a using that sub all(3) by blast
      have "None \<notin> set ?bl" "Some (top mem) \<notin> set ?bl" using sub all(2) less by blast+
      with less True old bl show ?thesis unfolding Inr RotateKey_Ok [OF inv]
        using all(4) setp old_out
        by (auto simp: alloc_def Let_def Some rotation_inv_def active_def less_Suc_eq
            simp del: butlast.simps last.simps)
    next
      case False
      then show ?thesis unfolding Inr RotateKey_Ok [OF inv]
        using all by (auto simp: alloc_def Let_def Some rotation_inv_def active_def less_Suc_eq)
    qed
  qed
qed

lemma wipe_all_spec:
  assumes "None \<notin> set ks" and "wipe_all ks r mem = (r', mem')"
  shows "top mem' = top mem"
    and "cells mem' a = (if Some a \<in> set ks then (cells mem a)\<lparr>Private := 0\<rparr> else cells mem a)"
  using assms
proof (induction ks arbitrary: mem r)
  case Nil
  { case 1 then show ?case by simp next case 2 then show ?case by simp }
next
  case (Cons k ks)
  { case 1
    then obtain b where "k = Some b" by (cases k) auto
    with 1 Cons.IH(1) [of r "wipe_cell b mem"] show ?case by simp
  next
    case 2
    then obtain b where "k = Some b" by (cases k) auto
    with 2 Cons.IH(2) [of r "wipe_cell b mem"] show ?case by auto }
qed

lemma inv_Cleanup:
  assumes inv: "rotation_inv (krm, mem)"
  shows "rotation_inv (snd (Cleanup krm mem))"
proof -
  obtain r1 mem1 where w1: "(case currentKeyPair krm of None \<Rightarrow> (Ok (), mem)
      | Some a \<Rightarrow> WipeKeyPair (Some a) mem) = (r1 :: 'a rotation_error + unit, mem1)" by fastforce
  obtain r2 mem2 where w2: "wipe_all (previousKeys krm) r1 mem1 = (r2, mem2)" by fastforce
  have "None \<notin> set (previousKeys krm)" using inv by (simp add: rotation_inv_def)
  note spec = wipe_all_spec [OF this w2]
  have "Private (cells mem2 a) = 0" if "a < top mem" for a
    using inv that w1 spec(2) [of a]
    by (cases "currentKeyPair krm") (auto simp: rotation_inv_def active_def split: if_splits)
  moreover have "top mem2 = top mem" using w1 spec(1) by (auto split: option.splits)
  ultimately show ?thesis
    using w1 w2 by (simp add: Cleanup_def rotation_inv_def active_def)
qed

interpretation rotation_sys: op_system rotation_step rotation_inv
proof
  fix s :: "KeyRotationManager \<times> KeyPair memory" and p :: "'a rotation_op"
  assume inv: "rotation_inv s"
  obtain krm mem where s: "s = (krm, mem)" by fastforce
  show "rotation_inv (rotation_step p s)"
  proof (cases p)
    case (Rotate gen now)
    then show ?thesis using inv s by (simp add: inv_RotateKey)
  next
    case (SetPeriod d)
    then show ?thesis using inv s by (auto simp: SetRotationPeriod_def rotation_inv_def active_def)
  next
    case CleanupAll
    then show ?thesis using inv s inv_Cleanup [of krm mem] by simp
  qed
qed

section \<open>Properties\<close>

definition fresh_memory :: "KeyPair \<Rightarrow> KeyPair memory" where
  "fresh_memory kp = \<lparr>cells = (\<lambda>_. kp), top = 1\<rparr>"



lemma inv_start: "rotation_inv (NewKeyRotationManager (Some 0) now, fresh_memory kp)"
  by (simp add: rotation_inv_def active_def NewKeyRotationManager_def fresh_memory_def)



lemma deref_simps [simp]:
  "deref mem [] = []" "deref mem (None # ks) = deref mem ks"
  "deref mem (Some a # ks) = cells mem a # deref mem ks"
  "deref mem (ks @ ls) = deref mem ks @ deref mem ls"
  by (simp_all add: deref_def map_filter_simps map_filter_def)

lemma deref_map_Some: "deref mem (map Some as) = map (cells mem) as"
  by (induction as) auto

lemma FindKey_active:
  "FindKeyForPublicKey pk krm mem = List.find (\<lambda>k. Public k = pk) (deref mem (active krm))"
  by (auto simp: FindKeyForPublicKey_def active_def split: option.splits)

lemma find_skip: "\<forall>x \<in> set xs. \<not> P x \<Longrightarrow> P y \<Longrightarrow> List.find P (xs @ y # ys) = Some y"
  by (induction xs) auto

text \<open>
  One rotation in a state whose active keys are \<open>news\<close>, then \<open>c\<close>, then \<open>rest\<close>: as long as
  \<open>c\<close> is within the retention bound, the new key is in front and \<open>c\<close> is untouched.
\<close>

lemma rotation_keeps:
  assumes inv: "rotation_inv (krm, mem)" and act: "active krm = map Some news @ Some c # rest"
    and cur: "currentKeyPair krm \<noteq> None" and len: "int (length news) < MaxPreviousKeys krm"
    and step: "rotation_step (Rotate (Ok kp) t) (krm, mem) = (krm', mem')"
  shows "\<exists>rest'. active krm' = map Some (top mem # news) @ Some c # rest' \<and>
    currentKeyPair krm' \<noteq> None \<and> MaxPreviousKeys krm' = MaxPreviousKeys krm \<and>
    cells mem' c = cells mem c \<and> cells mem' (top mem) = kp \<and>
    (\<forall>a \<in> set news. cells mem' a = cells mem a)"
proof -
  obtain a where a: "currentKeyPair krm = Some a" using cur by blast
  let ?prev = "Some a # previousKeys krm"
  have actp: "active krm = ?prev" by (simp add: active_def a)
  then have prev: "?prev = map Some news @ Some c # rest" using act by simp
  have inv': "distinct (active krm)" "\<And>b. Some b \<in> set (active krm) \<Longrightarrow> b < top mem"
      "None \<notin> set (active krm)"
    using inv by (auto simp: rotation_inv_def active_def a)
  have below: "c < top mem" "\<forall>b \<in> set news. b < top mem" using inv'(2) by (auto simp: act)
  have dist: "distinct ?prev" and "None \<notin> set ?prev" using inv'(1,3) unfolding actp by blast+
  have new: "krm' = (if int (length ?prev) > MaxPreviousKeys krm
        then krm\<lparr>currentKeyPair := Some (top mem), KeyCreationTime := t, previousKeys := butlast ?prev\<rparr>
        else krm\<lparr>currentKeyPair := Some (top mem), KeyCreationTime := t, previousKeys := ?prev\<rparr>)"
      "mem' = (let mem1 = snd (alloc kp mem) in if int (length ?prev) > MaxPreviousKeys krm
        then wipe_cell (the (last ?prev)) mem1 else mem1)"
    using step unfolding rotation_step.simps RotateKey_Ok [OF inv]
    by (auto simp: a alloc_def Let_def split: if_splits)
  show ?thesis
  proof (cases "int (length ?prev) > MaxPreviousKeys krm")
    case True
    then have "rest \<noteq> []" using len prev by (auto simp: prev)
    then obtain rest' old where rest: "rest = rest' @ [Some old]"
      using \<open>None \<notin> set ?prev\<close> prev by (metis append_butlast_last_id last_in_set option.exhaust
          in_set_conv_decomp append_Cons append_assoc)
    then have "butlast ?prev = map Some news @ Some c # rest'" "last ?prev = Some old"
      unfolding prev by (simp_all add: butlast_append)
    moreover have "old \<noteq> c" "old \<notin> set news" "old \<noteq> top mem"
      using inv'(1) inv'(2) [of old] unfolding act rest by auto
    ultimately show ?thesis
      using True below unfolding new by (auto simp: active_def alloc_def Let_def)
  next
    case False
    then show ?thesis
      using prev below unfolding new by (auto simp: active_def alloc_def Let_def)
  qed
qed

lemma rotations_keep:
  assumes "rotation_inv (krm, mem)" and "active krm = map Some news @ Some c # rest"
    and "currentKeyPair krm \<noteq> None" and "int (length news + length gens) \<le> MaxPreviousKeys krm"
    and "\<forall>kp \<in> set (map (cells mem) news @ map fst gens). Public kp \<noteq> Public (cells mem c)"
    and "fold rotation_step (map (\<lambda>(kp, t). Rotate (Ok kp :: 'e + KeyPair) t) gens) (krm, mem) = (krm', mem')"
  shows "FindKeyForPublicKey (Public (cells mem c)) krm' mem' = Some (cells mem c)"
  using assms
proof (induction gens arbitrary: krm mem news rest)
  case Nil
  have "FindKeyForPublicKey (Public (cells mem c)) krm mem = Some (cells mem c)"
    using Nil.prems(5) unfolding FindKey_active Nil.prems(2)
    by (simp add: deref_map_Some find_skip)
  then show ?case using Nil.prems(6) by simp
next
  case (Cons g gens)
  obtain kp t where g: "g = (kp, t)" by fastforce
  obtain krm1 mem1 where s1: "rotation_step (Rotate (Ok kp) t :: 'e rotation_op) (krm, mem) = (krm1, mem1)"
    by fastforce
  have len: "int (length news) < MaxPreviousKeys krm" using Cons.prems(4) by simp
  obtain rest' where r: "active krm1 = map Some (top mem # news) @ Some c # rest'"
      "currentKeyPair krm1 \<noteq> None" "MaxPreviousKeys krm1 = MaxPreviousKeys krm"
      "cells mem1 c = cells mem c" "cells mem1 (top mem) = kp" "\<forall>a \<in> set news. cells mem1 a = cells mem a"
    using rotation_keeps [OF Cons.prems(1-3) len s1] by blast
  have "rotation_inv (krm1, mem1)"
    using rotation_sys.inv_step [OF Cons.prems(1), of "Rotate (Ok kp) t :: 'e rotation_op"] s1 by simp
  moreover have "fold rotation_step (map (\<lambda>(kp, t). Rotate (Ok kp :: 'e + KeyPair) t) gens) (krm1, mem1) = (krm', mem')"
    using Cons.prems(6) s1 g by simp
  ultimately have "FindKeyForPublicKey (Public (cells mem1 c)) krm' mem' = Some (cells mem1 c)"
    using Cons.prems(4,5) g r by (intro Cons.IH [of krm1 mem1 "top mem # news" rest']) auto
  then show ?case using r(4) by simp
qed

text \<open>
  Messages to an old identity key stay readable for the retention window: after at most
  \<^verbatim>\<open>MaxPreviousKeys\<close> further successful rotations, looking up the public key that was current
  returns that key pair with its private key intact (when the new keys differ from it).
\<close>

theorem previous_key_available:
  assumes "rotation_inv (krm, mem)" and "currentKeyPair krm = Some c"
    and "int (length gens) \<le> MaxPreviousKeys krm"
    and "\<forall>g \<in> set gens. Public (fst g) \<noteq> Public (cells mem c)"
    and "fold rotation_step (map (\<lambda>(kp, t). Rotate (Ok kp :: 'e + KeyPair) t) gens) (krm, mem) = (krm', mem')"
  shows "FindKeyForPublicKey (Public (cells mem c)) krm' mem' = Some (cells mem c)"
proof (rule rotations_keep [where news = "[]" and rest = "previousKeys krm"])
  show "active krm = map Some [] @ Some c # previousKeys krm" by (simp add: active_def assms(2))
qed (use assms in auto)

theorem previous_key_available_witness:
  "FindKeyForPublicKey 10
     (fst (fold rotation_step
       (map (\<lambda>(kp, t). Rotate (Ok kp :: nat + KeyPair) t)
         [(\<lparr>Public = 11, Private = 21\<rparr>, 1), (\<lparr>Public = 12, Private = 22\<rparr>, 2), (\<lparr>Public = 13, Private = 23\<rparr>, 3)])
       (NewKeyRotationManager (Some 0) 0, fresh_memory \<lparr>Public = 10, Private = 20\<rparr>)))
     (snd (fold rotation_step
       (map (\<lambda>(kp, t). Rotate (Ok kp :: nat + KeyPair) t)
         [(\<lparr>Public = 11, Private = 21\<rparr>, 1), (\<lparr>Public = 12, Private = 22\<rparr>, 2), (\<lparr>Public = 13, Private = 23\<rparr>, 3)])
       (NewKeyRotationManager (Some 0) 0, fresh_memory \<lparr>Public = 10, Private = 20\<rparr>)))
   = Some \<lparr>Public = 10, Private = 20\<rparr>"
  using previous_key_available [of "NewKeyRotationManager (Some 0) 0" "fresh_memory \<lparr>Public = 10, Private = 20\<rparr>" 0
      "[(\<lparr>Public = 11, Private = 21\<rparr>, 1), (\<lparr>Public = 12, Private = 22\<rparr>, 2), (\<lparr>Public = 13, Private = 23\<rparr>, 3)]",
      OF inv_start, where 'e = nat]
  by (simp add: NewKeyRotationManager_def fresh_memory_def)

end
