(* ===== verification/Ratchet_Store.thy ===== *)
theory Ratchet_Store
  imports Tox_Prelude
begin

text \<open>
  The Double Ratchet's message header (\<^verbatim>\<open>ratchet/header.go\<close>) and its bounded store of
  skipped message keys (\<^verbatim>\<open>ratchet/skipped.go\<close>). The store is a Go map together with the
  insertion order, from which the oldest entry is evicted.
\<close>

section \<open>Headers\<close>

abbreviation (input) HeaderSize :: nat where "HeaderSize \<equiv> 32 + 4 + 4"

record Header =
  DHPub :: key32
  PN :: u32
  N :: u32

datatype dr_error =
    HeaderTooShort
  | SkippedStoreFull
  | KeyGenerationFailed
  | DHFailed
  | KdfFailed
  | AuthenticationFailed
  | NonceGenerationFailed
  | EncryptedHeaderTooShort
  | HeaderAuthFailed
  | OpenHeaderFailed
  | SendingChainNotInitialized
  | HeaderEncryptionNotInitialized
  | GapExceedsLimit u32
  | NoReceivingChain
  | CiphertextTooShort

definition Header_Encode :: "Header \<Rightarrow> bytes" where
  "Header_Encode h = key_bytes (DHPub h) @ PutUint32 (PN h) @ PutUint32 (N h)"

definition DecodeHeader :: "bytes \<Rightarrow> dr_error + Header" where
  "DecodeHeader buf =
     (if length buf < HeaderSize then Err HeaderTooShort
      else Ok \<lparr>DHPub = bytes_key (slice 0 32 buf), PN = Uint32 (slice 32 36 buf),
               N = Uint32 (slice 36 40 buf)\<rparr>)"

lemma length_Header_Encode [simp]: "length (Header_Encode h) = 40"
  by (simp add: Header_Encode_def)

interpretation header: prefix_codec Header_Encode DecodeHeader "\<lambda>_. True"
  by unfold_locales (simp_all add: DecodeHeader_def Header_Encode_def wire_simps)

lemma DecodeHeader_Encode: "DecodeHeader buf = Ok h \<Longrightarrow> Header_Encode h = slice 0 40 buf"
  by (auto simp: DecodeHeader_def Header_Encode_def key_bytes_bytes_key PutUint32_Uint32
      length_slice slice_split split: if_splits)

section \<open>Skipped message keys\<close>

definition MaxSkippedKeys :: nat where "MaxSkippedKeys = 1000"

type_synonym skippedKey = "key32 \<times> u32"

record skippedKeyStore =
  keys :: "(skippedKey, key32) gomap"
  order :: "skippedKey list"

definition newSkippedKeyStore :: skippedKeyStore where
  "newSkippedKeyStore = \<lparr>keys = [], order = []\<rparr>"

text \<open>Values are immutable here, so the deep copy of \<^verbatim>\<open>clone\<close> is the value itself.\<close>

definition clone :: "skippedKeyStore \<Rightarrow> skippedKeyStore" where
  "clone s = \<lparr>keys = keys s, order = order s\<rparr>"

definition removeFromOrder :: "skippedKey \<Rightarrow> skippedKeyStore \<Rightarrow> skippedKeyStore" where
  "removeFromOrder k s = s\<lparr>order := remove1 k (order s)\<rparr>"

definition get :: "key32 \<Rightarrow> u32 \<Rightarrow> skippedKeyStore \<Rightarrow> key32 option \<times> skippedKeyStore" where
  "get dhPub n s =
     (let k = (dhPub, n) in
      case mget (keys s) k of
        None \<Rightarrow> (None, s)
      | Some mk \<Rightarrow> (Some mk, removeFromOrder k (s\<lparr>keys := mdel k (keys s)\<rparr>)))"

definition store ::
  "key32 \<Rightarrow> u32 \<Rightarrow> key32 \<Rightarrow> skippedKeyStore \<Rightarrow> (dr_error + unit) \<times> skippedKeyStore" where
  "store dhPub n mk s =
     (let insert = (\<lambda>s1. (Ok (), s1\<lparr>keys := mput (dhPub, n) mk (keys s1), order := order s1 @ [(dhPub, n)]\<rparr>))
      in if length (keys s) \<ge> MaxSkippedKeys
         then (case order s of
                 [] \<Rightarrow> (Err SkippedStoreFull, s)
               | oldest # rest \<Rightarrow> insert (s\<lparr>order := rest, keys := mdel oldest (keys s)\<rparr>))
         else insert s)"

text \<open>The lookup the store's clients see.\<close>

definition lookup :: "skippedKeyStore \<Rightarrow> skippedKey \<Rightarrow> key32 option" where
  "lookup s k = mget (keys s) k"

definition store_inv :: "skippedKeyStore \<Rightarrow> bool" where
  "store_inv s \<longleftrightarrow> wf_map (keys s) \<and> distinct (order s) \<and>
     set (order s) = fst ` set (keys s) \<and> length (keys s) \<le> MaxSkippedKeys"

text \<open>
  The contract the session relies on: a bounded cache of single-use keys. Storing a fresh key
  succeeds and makes it retrievable; below capacity nothing is evicted; a retrieved key is gone.
\<close>

locale key_cache =
  fixes put :: "skippedKey \<Rightarrow> key32 \<Rightarrow> 's \<Rightarrow> (dr_error + unit) \<times> 's"
    and take_key :: "skippedKey \<Rightarrow> 's \<Rightarrow> key32 option \<times> 's"
    and find_key :: "'s \<Rightarrow> skippedKey \<Rightarrow> key32 option"
    and used :: "'s \<Rightarrow> nat"
    and inv :: "'s \<Rightarrow> bool"
  assumes put_ok: "inv s \<Longrightarrow> find_key s k = None \<Longrightarrow> \<exists>s'. put k v s = (Ok (), s') \<and> inv s'"
    and put_find: "put k v s = (Ok (), s') \<Longrightarrow> find_key s' k = Some v"
    and put_other: "used s < MaxSkippedKeys \<Longrightarrow> put k v s = (Ok (), s') \<Longrightarrow> k' \<noteq> k \<Longrightarrow>
      find_key s' k' = find_key s k'"
    and put_shrinks: "put k v s = (Ok (), s') \<Longrightarrow> k' \<noteq> k \<Longrightarrow> find_key s k' = None \<Longrightarrow> find_key s' k' = None"
    and put_used: "inv s \<Longrightarrow> put k v s = (Ok (), s') \<Longrightarrow> used s' \<le> Suc (used s)"
    and inv_bound: "inv s \<Longrightarrow> used s \<le> MaxSkippedKeys"
    and take_spec: "inv s \<Longrightarrow> take_key k s = (r, s') \<Longrightarrow> inv s' \<and> r = find_key s k \<and> used s' \<le> used s \<and>
      (\<forall>k'. find_key s' k' = (if k' = k then None else find_key s k'))"
    and take_miss: "find_key s k = None \<Longrightarrow> take_key k s = (None, s)"
begin

lemma take_hit: "inv s \<Longrightarrow> find_key s k = Some v \<Longrightarrow> fst (take_key k s) = Some v"
  by (metis prod.collapse take_spec)

end

lemma store_room:
  "length (keys s) < MaxSkippedKeys \<Longrightarrow>
     store d n mk s = (Ok (), s\<lparr>keys := mput (d, n) mk (keys s), order := order s @ [(d, n)]\<rparr>)"
  by (simp add: store_def Let_def)

lemma lookup_None_iff: "lookup s k = None \<longleftrightarrow> k \<notin> fst ` set (keys s)"
  by (simp add: lookup_def mget_def map_of_eq_None_iff)

lemma set_mput: "fst ` set (mput k v m) = insert k (fst ` set m)"
  by (auto simp: mput_def mdel_def)

lemma set_mdel: "fst ` set (mdel k m) = fst ` set m - {k}"
  by (auto simp: mdel_def)

lemma store_fresh:
  assumes inv: "store_inv s" and fresh: "lookup s (d, n) = None"
  shows "\<exists>s'. store d n mk s = (Ok (), s') \<and> store_inv s'"
proof (cases "length (keys s) < MaxSkippedKeys")
  case True
  then show ?thesis
    using inv fresh
    by (simp add: store_room store_inv_def gm.wf_put gm.count_put_room set_mput lookup_None_iff)
next
  case False
  then have full: "length (keys s) = MaxSkippedKeys" using inv by (simp add: store_inv_def)
  then obtain oldest rest where ord: "order s = oldest # rest"
    using inv by (cases "order s") (auto simp: store_inv_def MaxSkippedKeys_def)
  then have present: "mget (keys s) oldest \<noteq> None"
    using inv lookup_None_iff [of s oldest] by (auto simp: store_inv_def lookup_def)
  then have "length (mput (d, n) mk (mdel oldest (keys s))) \<le> MaxSkippedKeys"
    using inv full gm.count_evict_put [of "keys s" oldest] by (simp add: store_inv_def)
  then show ?thesis
    using inv ord full fresh
    by (auto simp: store_def Let_def store_inv_def gm.wf_put gm.wf_del set_mput set_mdel lookup_None_iff)
qed

interpretation skc: key_cache
  "\<lambda>k v s. store (fst k) (snd k) v s" "\<lambda>k s. get (fst k) (snd k) s" lookup "\<lambda>s. length (keys s)" store_inv
proof (unfold_locales, goal_cases)
  case (1 s k v)
  then show ?case using store_fresh [of s "fst k" "snd k" v] by simp
next
  case (2 k v s s')
  then show ?case by (auto simp: store_def Let_def lookup_def dict_simps split: if_splits list.splits)
next
  case (3 s k v s' k')
  then show ?case by (auto simp: store_room lookup_def dict_simps)
next
  case (4 k v s s' k')
  then show ?case by (auto simp: store_def Let_def lookup_def dict_simps split: if_splits list.splits)
next
  case (5 s k v s')
  then have wf: "wf_map (keys s)" by (simp add: store_inv_def)
  have "length (mput k v (mdel old (keys s))) \<le> Suc (length (keys s))" for old
    using gm.count_put_le [OF gm.wf_del [OF wf], of k v old] gm.count_del_le [OF wf, of old] by simp
  moreover have "length (mput k v (keys s)) \<le> Suc (length (keys s))"
    using gm.count_put_le [OF wf] .
  ultimately show ?case using 5 by (auto simp: store_def Let_def split: if_splits list.splits)
next
  case (6 s)
  then show ?case by (simp add: store_inv_def)
next
  case (7 s k r s')
  then have wf: "wf_map (keys s)" "distinct (order s)" by (simp_all add: store_inv_def)
  show ?case
  proof (cases "mget (keys s) k")
    case None
    then show ?thesis using 7 by (auto simp: get_def lookup_def)
  next
    case (Some v)
    then have r: "r = Some v" and s': "s' = s\<lparr>keys := mdel k (keys s), order := remove1 k (order s)\<rparr>"
      using 7 by (auto simp: get_def removeFromOrder_def)
    have "store_inv s'"
      using 7 wf gm.count_del_le [OF wf(1), of k]
      by (simp add: s' store_inv_def gm.wf_del set_mdel)
    then show ?thesis
      using Some gm.count_del_le [OF wf(1), of k] wf by (simp add: r s' lookup_def dict_simps)
  qed
next
  case (8 s k)
  then show ?case by (simp add: get_def lookup_def)
qed

lemma store_inv_new [simp]: "store_inv newSkippedKeyStore"
  by (simp add: store_inv_def newSkippedKeyStore_def)

lemma lookup_new [simp]: "lookup newSkippedKeyStore k = None"
  by (simp add: lookup_def newSkippedKeyStore_def)

lemma clone_id [simp]: "clone s = s"
  by (simp add: clone_def)

end
