(* ===== verification/Ratchet_Session.thy ===== *)
theory Ratchet_Session
  imports Ratchet_Store
begin

text \<open>
  Double Ratchet sessions: the key derivations of \<^verbatim>\<open>ratchet/ratchet.go\<close> and the session operations
  of \<^verbatim>\<open>ratchet/session.go\<close>. The primitives of \<^verbatim>\<open>golang.org/x/crypto\<close> and the HMAC are the fields of
  a parameter record; what a theorem relies on is named as a hypothesis on that record.
  Randomness is an explicit argument, \<open>None\<close> when the generator fails.
\<close>

section \<open>Primitives\<close>

record dr_crypto =
  X25519 :: "key32 \<Rightarrow> key32 \<Rightarrow> key32 option"
  ScalarBaseMult :: "key32 \<Rightarrow> key32"
  hkdf_stream :: "bytes \<Rightarrow> bytes \<Rightarrow> string \<Rightarrow> nat \<Rightarrow> byte"
  hmac_sha256 :: "bytes \<Rightarrow> bytes \<Rightarrow> key32"
  Seal :: "key32 \<Rightarrow> bytes \<Rightarrow> bytes \<Rightarrow> bytes \<Rightarrow> bytes"
  Open :: "key32 \<Rightarrow> bytes \<Rightarrow> bytes \<Rightarrow> bytes \<Rightarrow> bytes option"

text \<open>
  Reading \<open>n\<close> bytes at offset \<open>off\<close> of an HKDF-SHA256 output stream, which ends after 255 blocks
  of 32 bytes.
\<close>

definition hkdf_read :: "dr_crypto \<Rightarrow> bytes \<Rightarrow> bytes \<Rightarrow> string \<Rightarrow> nat \<Rightarrow> nat \<Rightarrow> bytes option" where
  "hkdf_read C secret salt info off n =
     (if off + n \<le> 255 * 32 then Some (map (hkdf_stream C secret salt info) [off..<off + n]) else None)"

lemma hkdf_read_code [code]:
  "hkdf_read C secret salt info off n =
     (if int off + int n \<le> 8160 then Some (map (hkdf_stream C secret salt info) [off..<off + n]) else None)"
  by (auto simp: hkdf_read_def)

definition dh_commutes :: "dr_crypto \<Rightarrow> bool" where
  "dh_commutes C \<longleftrightarrow> (\<forall>a b. X25519 C a (ScalarBaseMult C b) = X25519 C b (ScalarBaseMult C a))"

definition aead_opens :: "dr_crypto \<Rightarrow> bool" where
  "aead_opens C \<longleftrightarrow> (\<forall>k n p ad. Open C k n (Seal C k n p ad) ad = Some p)"

abbreviation (input) rootKDFInfo :: string where "rootKDFInfo \<equiv> ''toxcore-dr-root''"
abbreviation (input) rootKDFHeaderInfo :: string where "rootKDFHeaderInfo \<equiv> ''toxcore-dr-root-header''"
abbreviation (input) msgKDFInfo :: string where "msgKDFInfo \<equiv> ''toxcore-dr-msg''"
abbreviation (input) headerKDFInfo :: string where "headerKDFInfo \<equiv> ''toxcore-header''"
abbreviation (input) chainKeyInput01 :: byte where "chainKeyInput01 \<equiv> 1"
abbreviation (input) chainKeyInput02 :: byte where "chainKeyInput02 \<equiv> 2"
definition NonceSizeX :: nat where "NonceSizeX = 24"
definition AEAD_Overhead :: nat where "AEAD_Overhead = 16"
abbreviation (input) encryptedHeaderSize :: nat where
  "encryptedHeaderSize \<equiv> NonceSizeX + HeaderSize + AEAD_Overhead"

section \<open>Key derivation\<close>

definition kdfRootChain :: "dr_crypto \<Rightarrow> key32 \<Rightarrow> key32 \<Rightarrow> dr_error + key32 \<times> key32" where
  "kdfRootChain C rootKey dhOut =
     (let r = hkdf_read C (key_bytes dhOut) (key_bytes rootKey) rootKDFInfo in
      case r 0 32 of None \<Rightarrow> Err KdfFailed | Some newRK \<Rightarrow>
      (case r 32 32 of None \<Rightarrow> Err KdfFailed | Some chainKey \<Rightarrow>
         Ok (bytes_key newRK, bytes_key chainKey)))"

definition kdfRootChainWithHeaders ::
  "dr_crypto \<Rightarrow> key32 \<Rightarrow> key32 \<Rightarrow> dr_error + key32 \<times> key32 \<times> key32 \<times> key32" where
  "kdfRootChainWithHeaders C rootKey dhOut =
     (let r = hkdf_read C (key_bytes dhOut) (key_bytes rootKey) rootKDFHeaderInfo in
      case r 0 32 of None \<Rightarrow> Err KdfFailed | Some newRK \<Rightarrow>
      (case r 32 32 of None \<Rightarrow> Err KdfFailed | Some chainKey \<Rightarrow>
      (case r 64 32 of None \<Rightarrow> Err KdfFailed | Some hk \<Rightarrow>
      (case r 96 32 of None \<Rightarrow> Err KdfFailed | Some nhk \<Rightarrow>
         Ok (bytes_key newRK, bytes_key chainKey, bytes_key hk, bytes_key nhk)))))"

definition kdfChain :: "dr_crypto \<Rightarrow> key32 \<Rightarrow> key32 \<times> key32" where
  "kdfChain C chainKey =
     (let msgKey = hmac_sha256 C (key_bytes chainKey) [chainKeyInput01];
          newChainKey = hmac_sha256 C (key_bytes chainKey) [chainKeyInput02]
      in (newChainKey, msgKey))"

definition expandMsgKey :: "dr_crypto \<Rightarrow> key32 \<Rightarrow> dr_error + key32 \<times> bytes" where
  "expandMsgKey C msgKey =
     (let r = hkdf_read C (key_bytes msgKey) [] msgKDFInfo in
      case r 0 32 of None \<Rightarrow> Err KdfFailed | Some encKey \<Rightarrow>
      (case r 32 NonceSizeX of None \<Rightarrow> Err KdfFailed | Some nonce \<Rightarrow> Ok (bytes_key encKey, nonce)))"

definition encryptWithMsgKey :: "dr_crypto \<Rightarrow> key32 \<Rightarrow> bytes \<Rightarrow> bytes \<Rightarrow> dr_error + bytes" where
  "encryptWithMsgKey C msgKey plaintext ad =
     (case expandMsgKey C msgKey of
        Inl e \<Rightarrow> Err e
      | Inr (encKey, nonce) \<Rightarrow> Ok (Seal C encKey nonce plaintext ad))"

definition decryptWithMsgKey :: "dr_crypto \<Rightarrow> key32 \<Rightarrow> bytes \<Rightarrow> bytes \<Rightarrow> dr_error + bytes" where
  "decryptWithMsgKey C msgKey ciphertext ad =
     (case expandMsgKey C msgKey of
        Inl e \<Rightarrow> Err e
      | Inr (encKey, nonce) \<Rightarrow>
          (case Open C encKey nonce ciphertext ad of
             None \<Rightarrow> Err AuthenticationFailed
           | Some plain \<Rightarrow> Ok plain))"

definition expandHeaderKey :: "dr_crypto \<Rightarrow> key32 \<Rightarrow> dr_error + key32" where
  "expandHeaderKey C hk =
     (case hkdf_read C (key_bytes hk) [] headerKDFInfo 0 32 of
        None \<Rightarrow> Err KdfFailed
      | Some encKey \<Rightarrow> Ok (bytes_key encKey))"

definition sealHeader :: "dr_crypto \<Rightarrow> bytes option \<Rightarrow> key32 \<Rightarrow> Header \<Rightarrow> dr_error + bytes" where
  "sealHeader C rnd hk h =
     (case expandHeaderKey C hk of
        Inl e \<Rightarrow> Err e
      | Inr encKey \<Rightarrow>
          (case rnd of
             None \<Rightarrow> Err NonceGenerationFailed
           | Some nonce \<Rightarrow> Ok (nonce @ Seal C encKey nonce (Header_Encode h) [])))"

definition openHeaderWithKey :: "dr_crypto \<Rightarrow> key32 \<Rightarrow> bytes \<Rightarrow> dr_error + Header" where
  "openHeaderWithKey C hk encHeader =
     (if length encHeader < NonceSizeX + HeaderSize + AEAD_Overhead then Err EncryptedHeaderTooShort
      else case expandHeaderKey C hk of
        Inl e \<Rightarrow> Err e
      | Inr encKey \<Rightarrow>
          (case Open C encKey (take NonceSizeX encHeader) (drop NonceSizeX encHeader) [] of
             None \<Rightarrow> Err HeaderAuthFailed
           | Some plaintext \<Rightarrow>
               (if length plaintext < HeaderSize then Err HeaderTooShort
                else case DecodeHeader plaintext of Inl e \<Rightarrow> Err e | Inr h \<Rightarrow> Ok h)))"

definition openHeader :: "dr_crypto \<Rightarrow> key32 \<Rightarrow> key32 \<Rightarrow> bytes \<Rightarrow> dr_error + Header \<times> bool" where
  "openHeader C hk nhk encHeader =
     (case openHeaderWithKey C hk encHeader of
        Inr h \<Rightarrow> Ok (h, False)
      | Inl _ \<Rightarrow>
          (case openHeaderWithKey C nhk encHeader of
             Inr h \<Rightarrow> Ok (h, True)
           | Inl _ \<Rightarrow> Err OpenHeaderFailed))"

section \<open>Sessions\<close>

record RatchetKeyPair =
  Public :: key32
  Private :: key32

definition GenerateRatchetKeyPair :: "dr_crypto \<Rightarrow> key32 option \<Rightarrow> dr_error + RatchetKeyPair" where
  "GenerateRatchetKeyPair C rnd =
     (case rnd of
        None \<Rightarrow> Err KeyGenerationFailed
      | Some priv \<Rightarrow> Ok \<lparr>Public = ScalarBaseMult C priv, Private = priv\<rparr>)"

definition dh :: "dr_crypto \<Rightarrow> key32 \<Rightarrow> key32 \<Rightarrow> dr_error + key32" where
  "dh C ourPrivate theirPublic =
     (case X25519 C ourPrivate theirPublic of None \<Rightarrow> Err DHFailed | Some out \<Rightarrow> Ok out)"

record Session =
  dhs :: RatchetKeyPair
  dhr :: key32
  rk :: key32
  cks :: key32
  ckr :: key32
  hks :: key32
  nhks :: key32
  hkr :: key32
  nhkr :: key32
  ns :: u32
  nr :: u32
  pn :: u32
  skipped :: skippedKeyStore
  encryptHeaders :: bool
  dhrSet :: bool
  cksSet :: bool

definition InitInitiator :: "dr_crypto \<Rightarrow> key32 option \<Rightarrow> key32 \<Rightarrow> key32 \<Rightarrow> dr_error + Session" where
  "InitInitiator C rnd sharedKey theirPub =
     (case GenerateRatchetKeyPair C rnd of Inl e \<Rightarrow> Err e | Inr kp \<Rightarrow>
      (case dh C (Private kp) theirPub of Inl e \<Rightarrow> Err e | Inr dhOut \<Rightarrow>
      (case kdfRootChain C sharedKey dhOut of Inl e \<Rightarrow> Err e | Inr (rk0, cks0) \<Rightarrow>
         Ok \<lparr>dhs = kp, dhr = theirPub, rk = rk0, cks = cks0, ckr = 0, hks = 0, nhks = 0, hkr = 0,
             nhkr = 0, ns = 0, nr = 0, pn = 0, skipped = newSkippedKeyStore, encryptHeaders = False,
             dhrSet = True, cksSet = True\<rparr>)))"

definition InitRecipient :: "key32 \<Rightarrow> RatchetKeyPair \<Rightarrow> Session" where
  "InitRecipient sharedKey myKeyPair =
     \<lparr>dhs = myKeyPair, dhr = 0, rk = sharedKey, cks = 0, ckr = 0, hks = 0, nhks = 0, hkr = 0,
      nhkr = 0, ns = 0, nr = 0, pn = 0, skipped = newSkippedKeyStore, encryptHeaders = False,
      dhrSet = False, cksSet = False\<rparr>"

definition EnableHeaderEncryption :: "Session \<Rightarrow> Session" where
  "EnableHeaderEncryption s = s\<lparr>encryptHeaders := True\<rparr>"

definition buildAD :: "bytes \<Rightarrow> Header \<Rightarrow> bytes" where
  "buildAD ad h = ad @ Header_Encode h"

definition buildEncryptedHeaderAD :: "bytes \<Rightarrow> bytes \<Rightarrow> bytes" where
  "buildEncryptedHeaderAD ad encHeader = PutUint32 (of_nat (length ad)) @ ad @ encHeader"

definition zeroHeader :: Header where "zeroHeader = \<lparr>DHPub = 0, PN = 0, N = 0\<rparr>"

definition RatchetEncrypt ::
  "dr_crypto \<Rightarrow> bytes option \<Rightarrow> bytes \<Rightarrow> bytes \<Rightarrow> Session \<Rightarrow> (dr_error + Header \<times> bytes) \<times> Session" where
  "RatchetEncrypt C rnd plaintext ad s =
     (if \<not> cksSet s then (Err SendingChainNotInitialized, s)
      else
        let (newCKs, mk) = kdfChain C (cks s);
            h = \<lparr>DHPub = Public (dhs s), PN = pn s, N = ns s\<rparr>;
            s1 = s\<lparr>cks := newCKs, ns := ns s + 1\<rparr>
        in if encryptHeaders s1 then
             (if hks s1 = 0 then (Err HeaderEncryptionNotInitialized, s1)
              else case sealHeader C rnd (hks s1) h of
                Inl e \<Rightarrow> (Err e, s1)
              | Inr encHeader \<Rightarrow>
                  (case encryptWithMsgKey C mk plaintext (buildEncryptedHeaderAD ad encHeader) of
                     Inl e \<Rightarrow> (Err e, s1)
                   | Inr ct \<Rightarrow> (Ok (zeroHeader, encHeader @ ct), s1)))
           else
             (case encryptWithMsgKey C mk plaintext (buildAD ad h) of
                Inl e \<Rightarrow> (Err e, s1)
              | Inr ct \<Rightarrow> (Ok (h, ct), s1)))"

function skip_loop :: "dr_crypto \<Rightarrow> u32 \<Rightarrow> Session \<Rightarrow> (dr_error + unit) \<times> Session" where
  "skip_loop C msgNum s =
     (if nr s < msgNum then
        (if \<not> dhrSet s then (Err NoReceivingChain, s)
         else
           let (newCKr, mk) = kdfChain C (ckr s);
               s1 = s\<lparr>ckr := newCKr\<rparr>
           in case store (dhr s1) (nr s1) mk (skipped s1) of
                (Inl e, sk) \<Rightarrow> (Err e, s1\<lparr>skipped := sk\<rparr>)
              | (Inr _, sk) \<Rightarrow> skip_loop C msgNum (s1\<lparr>skipped := sk, nr := nr s1 + 1\<rparr>))
      else (Ok (), s))"
  by pat_completeness auto

lemma nr_step_decreases: "n < (m::u32) \<Longrightarrow> unat m - unat (n + 1) < unat m - unat n"
  by unat_arith

termination skip_loop
  by (relation "measure (\<lambda>(C, m, s). unat m - unat (nr s))") (auto simp: nr_step_decreases)

declare skip_loop.simps [simp del]

definition skipMessageKeys :: "dr_crypto \<Rightarrow> u32 \<Rightarrow> Session \<Rightarrow> (dr_error + unit) \<times> Session" where
  "skipMessageKeys C msgNum s =
     (if msgNum > nr s \<and> msgNum - nr s > of_nat MaxSkippedKeys
      then (Err (GapExceedsLimit (msgNum - nr s)), s)
      else skip_loop C msgNum s)"

definition dhRatchetStep :: "dr_crypto \<Rightarrow> key32 option \<Rightarrow> key32 \<Rightarrow> Session \<Rightarrow> (dr_error + unit) \<times> Session" where
  "dhRatchetStep C rnd newDHr s =
     (if encryptHeaders s then
        (case dh C (Private (dhs s)) newDHr of Inl e \<Rightarrow> (Err e, s) | Inr dhOut \<Rightarrow>
        (case kdfRootChainWithHeaders C (rk s) dhOut of Inl e \<Rightarrow> (Err e, s) | Inr (rk1, ckr1, hkr1, nhkr1) \<Rightarrow>
        (case GenerateRatchetKeyPair C rnd of Inl e \<Rightarrow> (Err e, s) | Inr newKP \<Rightarrow>
        (case dh C (Private newKP) newDHr of Inl e \<Rightarrow> (Err e, s) | Inr dhOut2 \<Rightarrow>
        (case kdfRootChainWithHeaders C rk1 dhOut2 of Inl e \<Rightarrow> (Err e, s) | Inr (rk2, cks2, hks2, nhks2) \<Rightarrow>
           (Ok (), s\<lparr>pn := ns s, ns := 0, nr := 0, dhr := newDHr, dhrSet := True, rk := rk2,
                     ckr := ckr1, hks := hks2, nhks := nhks2, hkr := hkr1, nhkr := nhkr1,
                     dhs := newKP, cks := cks2, cksSet := True\<rparr>))))))
      else
        (case dh C (Private (dhs s)) newDHr of Inl e \<Rightarrow> (Err e, s) | Inr dhOut \<Rightarrow>
        (case kdfRootChain C (rk s) dhOut of Inl e \<Rightarrow> (Err e, s) | Inr (rk1, ckr1) \<Rightarrow>
        (case GenerateRatchetKeyPair C rnd of Inl e \<Rightarrow> (Err e, s) | Inr newKP \<Rightarrow>
        (case dh C (Private newKP) newDHr of Inl e \<Rightarrow> (Err e, s) | Inr dhOut2 \<Rightarrow>
        (case kdfRootChain C rk1 dhOut2 of Inl e \<Rightarrow> (Err e, s) | Inr (rk2, cks2) \<Rightarrow>
           (Ok (), s\<lparr>pn := ns s, ns := 0, nr := 0, dhr := newDHr, dhrSet := True, rk := rk2,
                     ckr := ckr1, dhs := newKP, cks := cks2, cksSet := True\<rparr>)))))))"

text \<open>
  The part of a decryption that moves the receiving side to message \<open>N\<close> of the header's epoch,
  common to both decryption functions.
\<close>

definition advance :: "dr_crypto \<Rightarrow> key32 option \<Rightarrow> bool \<Rightarrow> Header \<Rightarrow> Session \<Rightarrow> (dr_error + unit) \<times> Session" where
  "advance C rnd ratchet h s =
     (if ratchet
      then andThen (skipMessageKeys C (PN h))
             (\<lambda>_. andThen (dhRatchetStep C rnd (DHPub h)) (\<lambda>_. skipMessageKeys C (N h))) s
      else skipMessageKeys C (N h) s)"

definition RatchetDecrypt ::
  "dr_crypto \<Rightarrow> key32 option \<Rightarrow> Header \<Rightarrow> bytes \<Rightarrow> bytes \<Rightarrow> Session \<Rightarrow> (dr_error + bytes) \<times> Session" where
  "RatchetDecrypt C rnd h ciphertext ad s =
     (case get (DHPub h) (N h) (skipped s) of
        (Some mk, sk) \<Rightarrow> (decryptWithMsgKey C mk ciphertext (buildAD ad h), s\<lparr>skipped := sk\<rparr>)
      | (None, sk) \<Rightarrow>
          (case advance C rnd (\<not> dhrSet s \<or> DHPub h \<noteq> dhr s) h s of
             (Inl e, s1) \<Rightarrow> (Err e, s1)
           | (Inr _, s1) \<Rightarrow>
               let (newCKr, mk) = kdfChain C (ckr s1);
                   s2 = s1\<lparr>ckr := newCKr, nr := nr s1 + 1\<rparr>
               in case decryptWithMsgKey C mk ciphertext (buildAD ad h) of
                    Inl e \<Rightarrow>
                      (Err e, s2\<lparr>dhs := dhs s, dhr := dhr s, rk := rk s, cks := cks s, ckr := ckr s,
                                ns := ns s, nr := nr s, pn := pn s, dhrSet := dhrSet s,
                                cksSet := cksSet s, skipped := clone (skipped s)\<rparr>)
                  | Inr plaintext \<Rightarrow> (Ok plaintext, s2)))"

definition RatchetDecryptWithEncryptedHeader ::
  "dr_crypto \<Rightarrow> key32 option \<Rightarrow> bytes \<Rightarrow> bytes \<Rightarrow> Session \<Rightarrow> (dr_error + bytes) \<times> Session" where
  "RatchetDecryptWithEncryptedHeader C rnd ciphertextWithHeader ad s =
     (if length ciphertextWithHeader < encryptedHeaderSize then (Err CiphertextTooShort, s)
      else
        let encHeader = take encryptedHeaderSize ciphertextWithHeader;
            ciphertext = drop encryptedHeaderSize ciphertextWithHeader;
            encryptedHeaderAD = buildEncryptedHeaderAD ad encHeader
        in case openHeader C (hkr s) (nhkr s) encHeader of
          Inl e \<Rightarrow> (Err e, s)
        | Inr (h, wasRatchetStep) \<Rightarrow>
            (case get (DHPub h) (N h) (skipped s) of
               (Some mk, sk) \<Rightarrow> (decryptWithMsgKey C mk ciphertext encryptedHeaderAD, s\<lparr>skipped := sk\<rparr>)
             | (None, sk) \<Rightarrow>
                 (case advance C rnd (wasRatchetStep \<or> \<not> dhrSet s \<or> DHPub h \<noteq> dhr s) h s of
                    (Inl e, s1) \<Rightarrow> (Err e, s1)
                  | (Inr _, s1) \<Rightarrow>
                      let (newCKr, mk) = kdfChain C (ckr s1);
                          s2 = s1\<lparr>ckr := newCKr, nr := nr s1 + 1\<rparr>
                      in case decryptWithMsgKey C mk ciphertext encryptedHeaderAD of
                           Inl e \<Rightarrow>
                             (Err e, s2\<lparr>dhs := dhs s, dhr := dhr s, rk := rk s, cks := cks s,
                                       ckr := ckr s, ns := ns s, nr := nr s, pn := pn s,
                                       dhrSet := dhrSet s, cksSet := cksSet s,
                                       skipped := clone (skipped s), hks := hks s, nhks := nhks s,
                                       hkr := hkr s, nhkr := nhkr s\<rparr>)
                         | Inr plaintext \<Rightarrow> (Ok plaintext, s2))))"

end
