(* ===== verification/Ratchet_Turns.thy ===== *)
theory Ratchet_Turns
  imports Ratchet_Delivery "HOL-Library.Multiset"
begin

text \<open>
  Two honest sessions taking turns: the receiver's view of one epoch, the agreement of the two sides
  at the start of a turn, and delivery of every message of a conversation.
\<close>

section \<open>One epoch\<close>

text \<open>
  The receiver's state inside an epoch whose sending chain starts at \<open>ck\<close>, with at most \<open>lim\<close>
  messages of which those in \<open>D\<close> have been decrypted.
\<close>

definition epoch_inv :: "dr_crypto \<Rightarrow> key32 \<Rightarrow> key32 \<Rightarrow> nat \<Rightarrow> nat set \<Rightarrow> Session \<Rightarrow> bool" where
  "epoch_inv C pub ck lim D s \<longleftrightarrow>
     dhrSet s \<and> dhr s = pub \<and> store_inv (skipped s) \<and> unat (nr s) \<le> lim \<and>
     length (keys (skipped s)) + (lim - unat (nr s)) \<le> MaxSkippedKeys \<and>
     ckr s = chain_key C ck (unat (nr s)) \<and> (\<forall>i\<in>D. i < unat (nr s)) \<and>
     (\<forall>p i. lookup (skipped s) (p, i) =
        (if p = pub \<and> i < nr s \<and> unat i \<notin> D then Some (msg_key C ck (unat i)) else None))"

text \<open>Receiving in an epoch touches only the receiving chain and the store.\<close>

definition receiving_only :: "Session \<Rightarrow> Session \<Rightarrow> bool" where
  "receiving_only s s' \<longleftrightarrow> s' = s\<lparr>ckr := ckr s', nr := nr s', skipped := skipped s'\<rparr>"

lemma skipMessageKeys_at: "m \<le> nr s \<Longrightarrow> skipMessageKeys C m s = (Ok (), s)"
  by (auto simp: skipMessageKeys_def skip_loop.simps)

lemma skipMessageKeys_loop:
  "nr s \<le> m \<Longrightarrow> unat m - unat (nr s) \<le> MaxSkippedKeys \<Longrightarrow> skipMessageKeys C m s = skip_loop C m s"
  unfolding skipMessageKeys_def MaxSkippedKeys_def by simp unat_arith

lemma RatchetDecrypt_hit:
  assumes "store_inv (skipped s)" "lookup (skipped s) (DHPub h, N h) = Some mk"
    "decryptWithMsgKey C mk ct (buildAD ad h) = Ok p"
  obtains sk where "RatchetDecrypt C rnd h ct ad s = (Ok p, s\<lparr>skipped := sk\<rparr>)" "store_inv sk"
    "length (keys sk) \<le> length (keys (skipped s))"
    "\<And>k. lookup sk k = (if k = (DHPub h, N h) then None else lookup (skipped s) k)"
proof -
  obtain r sk where g: "get (DHPub h) (N h) (skipped s) = (r, sk)" by fastforce
  note t = skc.take_spec [of "skipped s" "(DHPub h, N h)" r sk]
  show thesis
    by (rule that [of sk]) (use t g assms in \<open>auto simp: RatchetDecrypt_def split: if_splits\<close>)
qed

lemma RatchetDecrypt_miss:
  assumes "lookup (skipped s) (DHPub h, N h) = None" "dhrSet s" "DHPub h = dhr s"
    and "skipMessageKeys C (N h) s = (Ok (), s1)"
    and "decryptWithMsgKey C (snd (kdfChain C (ckr s1))) ct (buildAD ad h) = Ok p"
  shows "RatchetDecrypt C rnd h ct ad s = (Ok p, s1\<lparr>ckr := fst (kdfChain C (ckr s1)), nr := nr s1 + 1\<rparr>)"
  using assms skc.take_miss [of "skipped s" "(DHPub h, N h)"]
  by (cases "kdfChain C (ckr s1)") (simp add: RatchetDecrypt_def advance_def)

lemma decrypt_in_epoch:
  assumes C: "aead_opens C" and inv: "epoch_inv C pub ck lim D s"
    and j: "j < lim" "lim \<le> MaxSkippedKeys" "j \<notin> D"
    and enc: "encryptWithMsgKey C (msg_key C ck j) p (buildAD ad h) = Ok ct"
    and h: "DHPub h = pub" "N h = of_nat j"
  shows "\<exists>s'. RatchetDecrypt C rnd h ct ad s = (Ok p, s') \<and> epoch_inv C pub ck lim (insert j D) s' \<and>
           receiving_only s s'"
proof -
  note dec = decrypt_encrypt [OF C enc]
  have uj: "unat (of_nat j :: u32) = j" using j by (simp add: unat_of_nat_u32 MaxSkippedKeys_def)
  show ?thesis
  proof (cases "(of_nat j :: u32) < nr s")
    case True
    then have hit: "lookup (skipped s) (DHPub h, N h) = Some (msg_key C ck j)" and sinv: "store_inv (skipped s)"
      using inv j uj h by (auto simp: epoch_inv_def)
    obtain sk where r: "RatchetDecrypt C rnd h ct ad s = (Ok p, s\<lparr>skipped := sk\<rparr>)" "store_inv sk"
      "length (keys sk) \<le> length (keys (skipped s))"
      "\<And>k. lookup sk k = (if k = (DHPub h, N h) then None else lookup (skipped s) k)"
      using RatchetDecrypt_hit [OF sinv hit dec] by blast
    have "j < unat (nr s)" using True uj by (simp add: word_less_nat_alt)
    moreover have "unat i = j \<longleftrightarrow> i = of_nat j" for i :: u32 using uj by (simp add: word_unat_eq_iff)
    ultimately have "epoch_inv C pub ck lim (insert j D) (s\<lparr>skipped := sk\<rparr>)"
      using inv r h unfolding epoch_inv_def by auto
    then show ?thesis using r(1) by (simp add: receiving_only_def)
  next
    case False
    let ?j = "of_nat j :: u32"
    have le: "nr s \<le> ?j" using False by simp
    have nle: "unat (nr s) \<le> j" using le uj by (simp add: word_le_nat_alt)
    have miss: "lookup (skipped s) (DHPub h, N h) = None" using inv False h by (auto simp: epoch_inv_def)
    have cap: "length (keys (skipped s)) + (unat ?j - unat (nr s)) \<le> MaxSkippedKeys"
      using inv j uj by (auto simp: epoch_inv_def)
    have st: "dhrSet s" "store_inv (skipped s)"
      and fr: "\<forall>i. nr s \<le> i \<and> i < ?j \<longrightarrow> lookup (skipped s) (dhr s, i) = None"
      using inv by (auto simp: epoch_inv_def)
    obtain sk where sk: "skip_loop C ?j s =
           (Ok (), s\<lparr>ckr := chain_key C (ckr s) (unat ?j - unat (nr s)), nr := ?j, skipped := sk\<rparr>)"
         "store_inv sk" "length (keys sk) \<le> length (keys (skipped s)) + (unat ?j - unat (nr s))"
         "\<And>p i. lookup sk (p, i) =
            (if p = dhr s \<and> nr s \<le> i \<and> i < ?j then Some (msg_key C (ckr s) (unat i - unat (nr s)))
             else lookup (skipped s) (p, i))"
      using skip_loop_spec [OF st le cap fr, of C] by blast
    let ?s1 = "s\<lparr>ckr := chain_key C (ckr s) (unat ?j - unat (nr s)), nr := ?j, skipped := sk\<rparr>"
    have "skipMessageKeys C (N h) s = (Ok (), ?s1)"
      using skipMessageKeys_loop [OF le, of C] sk(1) j uj h by simp
    moreover have ck1: "ckr ?s1 = chain_key C ck j"
      using inv uj nle by (simp add: epoch_inv_def chain_key_add)
    then have "decryptWithMsgKey C (snd (kdfChain C (ckr ?s1))) ct (buildAD ad h) = Ok p"
      using dec by (simp add: msg_key_def)
    ultimately have r: "RatchetDecrypt C rnd h ct ad s =
        (Ok p, ?s1\<lparr>ckr := fst (kdfChain C (ckr ?s1)), nr := nr ?s1 + 1\<rparr>)"
      using RatchetDecrypt_miss [OF miss, of C ?s1 ct ad p rnd] inv h by (simp add: epoch_inv_def)
    have uj1: "unat (?j + 1) = Suc j" using j uj by (simp add: MaxSkippedKeys_def unat_word_ariths(1))
    have lk: "lookup sk (q, i) = (if q = pub \<and> i < ?j + 1 \<and> unat i \<notin> insert j D
        then Some (msg_key C ck (unat i)) else None)" for q i
    proof -
      have "i < ?j + 1 \<longleftrightarrow> i < ?j \<or> i = ?j" "unat i = j \<longleftrightarrow> i = ?j"
        using uj uj1 by (simp_all add: word_less_nat_alt word_unat_eq_iff less_Suc_eq)
      moreover have "i < nr s \<Longrightarrow> i < ?j" "nr s \<le> i \<Longrightarrow> unat i \<notin> D"
        using le inv by (simp, force simp: epoch_inv_def word_le_nat_alt)
      moreover have "nr s \<le> i \<Longrightarrow> msg_key C (ckr s) (unat i - unat (nr s)) = msg_key C ck (unat i)"
        using inv by (simp add: epoch_inv_def msg_key_add word_le_nat_alt)
      ultimately show ?thesis using inv sk(4) [of q i] by (auto simp: epoch_inv_def not_less)
    qed
    have "epoch_inv C pub ck lim (insert j D) (?s1\<lparr>ckr := fst (kdfChain C (ckr ?s1)), nr := nr ?s1 + 1\<rparr>)"
      using inv sk(2,3) lk uj1 uj j nle ck1 by (auto simp: epoch_inv_def)
    then show ?thesis using r by (auto simp: receiving_only_def)
  qed
qed

section \<open>Sending and receiving a batch\<close>

fun send_all :: "dr_crypto \<Rightarrow> (bytes \<times> bytes) list \<Rightarrow> Session \<Rightarrow> (dr_error + (Header \<times> bytes \<times> bytes) list) \<times> Session" where
  "send_all C [] a = (Ok [], a)"
| "send_all C ((p, ad) # ms) a =
     (case RatchetEncrypt C None p ad a of
        (Inl e, a1) \<Rightarrow> (Err e, a1)
      | (Inr (h, ct), a1) \<Rightarrow>
          (case send_all C ms a1 of
             (Inl e, a2) \<Rightarrow> (Err e, a2)
           | (Inr l, a2) \<Rightarrow> (Ok ((h, ct, ad) # l), a2)))"

fun receive_all :: "dr_crypto \<Rightarrow> key32 option \<Rightarrow> (Header \<times> bytes \<times> bytes) list \<Rightarrow> Session \<Rightarrow> (dr_error + bytes) list \<times> Session" where
  "receive_all C rnd [] b = ([], b)"
| "receive_all C rnd ((h, ct, ad) # l) b =
     (case RatchetDecrypt C rnd h ct ad b of
        (r, b1) \<Rightarrow> (case receive_all C rnd l b1 of (rs, b2) \<Rightarrow> (r # rs, b2)))"

text \<open>The \<open>j\<close>-th message of a sending chain that starts at \<open>ck\<close>.\<close>

definition chain_msg :: "dr_crypto \<Rightarrow> key32 \<Rightarrow> key32 \<Rightarrow> u32 \<Rightarrow> nat \<Rightarrow> bytes \<times> bytes \<Rightarrow> Header \<times> bytes \<times> bytes \<Rightarrow> bool" where
  "chain_msg C pub ck n j m w \<longleftrightarrow>
     DHPub (fst w) = pub \<and> N (fst w) = n + of_nat j \<and> snd (snd w) = snd m \<and>
     encryptWithMsgKey C (msg_key C ck j) (fst m) (buildAD (snd m) (fst w)) = Ok (fst (snd w))"

lemma RatchetEncrypt_plain:
  assumes "cksSet a" "\<not> encryptHeaders a"
  obtains ct where "encryptWithMsgKey C (msg_key C (cks a) 0) p
      (buildAD ad \<lparr>DHPub = Public (dhs a), PN = pn a, N = ns a\<rparr>) = Ok ct"
    "RatchetEncrypt C rnd p ad a = (Ok (\<lparr>DHPub = Public (dhs a), PN = pn a, N = ns a\<rparr>, ct),
       a\<lparr>cks := fst (kdfChain C (cks a)), ns := ns a + 1\<rparr>)"
proof -
  let ?h = "\<lparr>DHPub = Public (dhs a), PN = pn a, N = ns a\<rparr>"
  obtain ct where ct: "encryptWithMsgKey C (snd (kdfChain C (cks a))) p (buildAD ad ?h) = Ok ct"
    using encryptWithMsgKey_total by blast
  show thesis
    by (rule that [of ct], use ct in \<open>simp add: msg_key_def\<close>,
        use ct assms in \<open>cases "kdfChain C (cks a)"; simp add: RatchetEncrypt_def Let_def\<close>)
qed

lemma send_all_spec:
  assumes "cksSet a" "\<not> encryptHeaders a"
  shows "\<exists>l. send_all C ms a = (Ok l, a\<lparr>cks := chain_key C (cks a) (length ms), ns := ns a + of_nat (length ms)\<rparr>) \<and>
    length l = length ms \<and> (\<forall>w\<in>set l. PN (fst w) = pn a) \<and>
    (\<forall>j<length ms. chain_msg C (Public (dhs a)) (cks a) (ns a) j (ms ! j) (l ! j))"
  using assms
proof (induction ms arbitrary: a)
  case Nil
  then show ?case by simp
next
  case (Cons m ms)
  obtain p ad where m: "m = (p, ad)" by fastforce
  let ?h = "\<lparr>DHPub = Public (dhs a), PN = pn a, N = ns a\<rparr>"
  let ?a1 = "a\<lparr>cks := fst (kdfChain C (cks a)), ns := ns a + 1\<rparr>"
  obtain ct where ct: "encryptWithMsgKey C (msg_key C (cks a) 0) p (buildAD ad ?h) = Ok ct"
    and enc: "RatchetEncrypt C None p ad a = (Ok (?h, ct), ?a1)"
    using RatchetEncrypt_plain [OF Cons.prems, of C p ad None] by blast
  obtain l where l: "send_all C ms ?a1 =
        (Ok l, ?a1\<lparr>cks := chain_key C (cks ?a1) (length ms), ns := ns ?a1 + of_nat (length ms)\<rparr>)"
    "length l = length ms" "\<forall>w\<in>set l. PN (fst w) = pn a"
    "\<forall>j<length ms. chain_msg C (Public (dhs a)) (cks ?a1) (ns ?a1) j (ms ! j) (l ! j)"
    using Cons.IH [of ?a1] Cons.prems by auto
  have "chain_msg C (Public (dhs a)) (cks a) (ns a) j ((m # ms) ! j) (((?h, ct, ad) # l) ! j)"
    if "j < length (m # ms)" for j
    using that l(4) ct by (cases j) (auto simp: chain_msg_def msg_key_shift m add.assoc)
  then show ?case
    using l(1-3) enc
    by (intro exI [of _ "(?h, ct, ad) # l"]) (auto simp: m chain_key_shift add.assoc simp del: chain_key.simps)
qed

lemma receiving_only_trans: "receiving_only a b \<Longrightarrow> receiving_only b c \<Longrightarrow> receiving_only a c"
  by (cases a; cases b; cases c) (simp add: receiving_only_def)

lemma receiving_onlyD:
  assumes "receiving_only s s'"
  shows "dhs s' = dhs s" "rk s' = rk s" "cks s' = cks s" "ns s' = ns s" "pn s' = pn s"
    "cksSet s' = cksSet s" "encryptHeaders s' = encryptHeaders s"
  using assms by (cases s; cases s'; simp add: receiving_only_def)+

lemma receive_epoch:
  assumes "aead_opens C" "epoch_inv C pub ck lim D b" "lim \<le> MaxSkippedKeys"
    and "\<forall>j<lim. chain_msg C pub ck 0 j (ms ! j) (l ! j)"
    and "distinct js" "set js \<subseteq> {..<lim}" "set js \<inter> D = {}"
  shows "\<exists>b'. receive_all C rnd (map ((!) l) js) b = (map (\<lambda>j. Ok (fst (ms ! j))) js, b') \<and>
    epoch_inv C pub ck lim (D \<union> set js) b' \<and> receiving_only b b'"
  using assms
proof (induction js arbitrary: b D)
  case Nil
  then show ?case by (simp add: receiving_only_def)
next
  case (Cons j js)
  obtain h ct ad where w: "l ! j = (h, ct, ad)" by (cases "l ! j")
  then have cm: "DHPub h = pub" "N h = of_nat j" "ad = snd (ms ! j)"
      "encryptWithMsgKey C (msg_key C ck j) (fst (ms ! j)) (buildAD ad h) = Ok ct"
    using Cons.prems(4,6) by (auto simp: chain_msg_def)
  obtain b1 where b1: "RatchetDecrypt C rnd h ct ad b = (Ok (fst (ms ! j)), b1)"
      "epoch_inv C pub ck lim (insert j D) b1" "receiving_only b b1"
    using decrypt_in_epoch [OF Cons.prems(1,2) _ Cons.prems(3) _ cm(4) cm(1,2), of rnd] Cons.prems(6,7) by auto
  obtain b2 where "receive_all C rnd (map ((!) l) js) b1 = (map (\<lambda>j. Ok (fst (ms ! j))) js, b2)"
      "epoch_inv C pub ck lim (insert j D \<union> set js) b2" "receiving_only b1 b2"
    using Cons.IH [OF Cons.prems(1) b1(2) Cons.prems(3,4)] Cons.prems(5-7) by auto
  then show ?case using b1 w receiving_only_trans by fastforce
qed

section \<open>Turns\<close>

text \<open>
  A generator's key pair, and Diffie-Hellman between two generated keys, which X25519 never rejects:
  clamped scalars and the base point give no low-order point.
\<close>

definition generated :: "dr_crypto \<Rightarrow> RatchetKeyPair \<Rightarrow> bool" where
  "generated C kp \<longleftrightarrow> Public kp = ScalarBaseMult C (Private kp)"

definition dh_total :: "dr_crypto \<Rightarrow> bool" where
  "dh_total C \<longleftrightarrow> (\<forall>a b. X25519 C a (ScalarBaseMult C b) \<noteq> None)"

text \<open>
  The two sides at the start of a turn in which \<open>a\<close> sends: \<open>a\<close> has a fresh sending chain that
  \<open>b\<close> derives by a Diffie-Hellman step from its own root key, and nothing is outstanding.
\<close>

definition turn_start :: "dr_crypto \<Rightarrow> Session \<Rightarrow> Session \<Rightarrow> bool" where
  "turn_start C a b \<longleftrightarrow>
     cksSet a \<and> \<not> encryptHeaders a \<and> \<not> encryptHeaders b \<and> generated C (dhs a) \<and> generated C (dhs b) \<and>
     ns a = 0 \<and> pn a = nr b \<and> ns b = nr a \<and>
     dhrSet a \<and> dhr a = Public (dhs b) \<and> (dhrSet b \<longrightarrow> dhr b \<noteq> Public (dhs a)) \<and>
     store_inv (skipped a) \<and> store_inv (skipped b) \<and> keys (skipped a) = [] \<and> keys (skipped b) = [] \<and>
     (\<exists>d. X25519 C (Private (dhs b)) (Public (dhs a)) = Some d \<and> kdfRootChain C (rk b) d = Ok (rk a, cks a))"

lemma lookup_empty: "keys s = [] \<Longrightarrow> lookup s k = None"
  by (simp add: lookup_def)

lemma keys_empty: "(\<And>p i. lookup s (p, i) = None) \<Longrightarrow> keys s = []"
  using lookup_None_iff [of s "fst (hd (keys s))"] by (cases "keys s") (auto simp: image_iff)

text \<open>The ratchet step that the first message of a turn triggers.\<close>

lemma turn_step:
  assumes C: "dh_commutes C" "dh_total C" and ts: "turn_start C a b" and n: "n \<le> MaxSkippedKeys"
  obtains b1 where "dhRatchetStep C (Some r) (Public (dhs a)) b = (Ok (), b1)"
    "epoch_inv C (Public (dhs a)) (cks a) n {} b1"
    "dhs b1 = \<lparr>Public = ScalarBaseMult C r, Private = r\<rparr>" "ns b1 = 0" "pn b1 = nr a" "cksSet b1"
    "\<not> encryptHeaders b1" "nr b1 = 0"
    "\<exists>d. X25519 C (Private (dhs a)) (Public (dhs b1)) = Some d \<and> kdfRootChain C (rk a) d = Ok (rk b1, cks b1)"
proof -
  obtain d where d: "X25519 C (Private (dhs b)) (Public (dhs a)) = Some d"
    "kdfRootChain C (rk b) d = Ok (rk a, cks a)" using ts by (auto simp: turn_start_def)
  have pa: "Public (dhs a) = ScalarBaseMult C (Private (dhs a))" using ts by (simp add: turn_start_def generated_def)
  obtain d2 where d2: "X25519 C r (Public (dhs a)) = Some d2"
    using C(2) by (auto simp: dh_total_def pa)
  then have d2': "X25519 C (Private (dhs a)) (ScalarBaseMult C r) = Some d2"
    using C(1) by (simp add: dh_commutes_def pa)
  let ?b1 = "b\<lparr>pn := ns b, ns := 0, nr := 0, dhr := Public (dhs a), dhrSet := True,
      rk := root_block C (rk a) d2 0, ckr := cks a, dhs := \<lparr>Public = ScalarBaseMult C r, Private = r\<rparr>,
      cks := root_block C (rk a) d2 1, cksSet := True\<rparr>"
  have "dhRatchetStep C (Some r) (Public (dhs a)) b = (Ok (), ?b1)"
    using ts d d2
    by (simp add: dhRatchetStep_def turn_start_def dh_def GenerateRatchetKeyPair_def
        kdfRootChain_total [of C "rk a"])
  moreover have "epoch_inv C (Public (dhs a)) (cks a) n {} ?b1"
    using ts n by (auto simp: turn_start_def epoch_inv_def lookup_empty)
  ultimately show thesis
    using that [of ?b1] ts d2' by (simp add: turn_start_def kdfRootChain_total [of C "rk a"])
qed

lemma RatchetDecrypt_enter:
  assumes "lookup (skipped b) (DHPub h, N h) = None" "\<not> dhrSet b \<or> DHPub h \<noteq> dhr b" "PN h = nr b"
    and step: "dhRatchetStep C rnd (DHPub h) b = (Ok (), b1)"
    and b1: "dhrSet b1" "dhr b1 = DHPub h" "lookup (skipped b1) (DHPub h, N h) = None"
    and ok: "RatchetDecrypt C rnd h ct ad b1 = (Ok p, b')"
  shows "RatchetDecrypt C rnd h ct ad b = (Ok p, b')"
proof -
  have "advance C rnd True h b = skipMessageKeys C (N h) b1"
    using assms(3) step by (simp add: advance_def andThen_def skipMessageKeys_at)
  moreover have "advance C rnd False h b1 = skipMessageKeys C (N h) b1" by (simp add: advance_def)
  ultimately show ?thesis
    using ok assms(1,2) b1 skc.take_miss [of "skipped b" "(DHPub h, N h)"]
      skc.take_miss [of "skipped b1" "(DHPub h, N h)"]
    by (auto simp: RatchetDecrypt_def Let_def split: prod.splits sum.splits)
qed

text \<open>One turn: every message arrives exactly once, in any order.\<close>

lemma turn_delivers:
  assumes C: "aead_opens C" "dh_commutes C" "dh_total C" and ts: "turn_start C a b"
    and n: "ms \<noteq> []" "length ms \<le> MaxSkippedKeys" and js: "distinct js" "set js = {..<length ms}"
    and fresh: "ScalarBaseMult C r \<noteq> Public (dhs b)"
  obtains l a' b' where "send_all C ms a = (Ok l, a')"
    "receive_all C (Some r) (map ((!) l) js) b = (map (\<lambda>j. Ok (fst (ms ! j))) js, b')"
    "turn_start C b' a'" "Private (dhs a') = Private (dhs a)" "Private (dhs b') = r"
proof -
  let ?n = "length ms" and ?pub = "Public (dhs a)" and ?rnd = "Some r"
  have a: "cksSet a" "\<not> encryptHeaders a" "ns a = 0" using ts by (simp_all add: turn_start_def)
  obtain l where l: "send_all C ms a = (Ok l, a\<lparr>cks := chain_key C (cks a) ?n, ns := of_nat ?n\<rparr>)"
    "length l = ?n" "\<forall>w\<in>set l. PN (fst w) = pn a" "\<forall>j<?n. chain_msg C ?pub (cks a) 0 j (ms ! j) (l ! j)"
    using send_all_spec [OF a(1,2), of C ms] a(3) by auto
  obtain b1 where b1: "dhRatchetStep C ?rnd ?pub b = (Ok (), b1)" "epoch_inv C ?pub (cks a) ?n {} b1"
    "dhs b1 = \<lparr>Public = ScalarBaseMult C r, Private = r\<rparr>" "ns b1 = 0" "pn b1 = nr a" "cksSet b1"
    "\<not> encryptHeaders b1" "nr b1 = 0"
    "\<exists>d. X25519 C (Private (dhs a)) (Public (dhs b1)) = Some d \<and> kdfRootChain C (rk a) d = Ok (rk b1, cks b1)"
    using turn_step [OF C(2,3) ts n(2), of r] by metis
  obtain b' where b': "receive_all C ?rnd (map ((!) l) js) b1 = (map (\<lambda>j. Ok (fst (ms ! j))) js, b')"
    "epoch_inv C ?pub (cks a) ?n (set js) b'" "receiving_only b1 b'"
    using receive_epoch [OF C(1) b1(2) n(2) l(4) js(1)] js(2) by auto
  obtain j js' where j: "js = j # js'" using n(1) js(2) by (cases js) auto
  obtain h ct ad where w: "l ! j = (h, ct, ad)" by (cases "l ! j")
  have jn: "j < ?n" using j js(2) by auto
  then have h: "DHPub h = ?pub" "PN h = nr b" "N h = of_nat j"
    using l(2-4) w nth_mem [of j l] ts by (auto simp: chain_msg_def turn_start_def)
  have "receive_all C ?rnd (map ((!) l) js) b = receive_all C ?rnd (map ((!) l) js) b1"
  proof -
    obtain b2 where "RatchetDecrypt C ?rnd h ct ad b1 = (Ok (fst (ms ! j)), b2)"
      using b'(1) w by (auto simp: j split: prod.splits)
    moreover from this have "RatchetDecrypt C ?rnd h ct ad b = (Ok (fst (ms ! j)), b2)"
      using RatchetDecrypt_enter [of b h C ?rnd b1 ct ad] h b1(1,2,8) ts
      by (auto simp: turn_start_def epoch_inv_def lookup_empty)
    ultimately show ?thesis by (simp add: j w)
  qed
  moreover have nrb: "nr b' = of_nat ?n"
  proof -
    have "?n - 1 \<in> set js" using n(1) js(2) by simp
    then have "?n - 1 < unat (nr b')" "unat (nr b') \<le> ?n" using b'(2) by (auto simp: epoch_inv_def)
    then have "unat (nr b') = ?n" by simp
    then show ?thesis using n(2) by (simp add: word_unat_eq_iff unat_of_nat_u32 MaxSkippedKeys_def)
  qed
  moreover have "turn_start C b' (a\<lparr>cks := chain_key C (cks a) ?n, ns := of_nat ?n\<rparr>)"
  proof -
    have "lookup (skipped b') (p, i) = None" for p i
    proof -
      have "unat (of_nat ?n :: u32) = ?n" using n(2) by (simp add: unat_of_nat_u32 MaxSkippedKeys_def)
      then have "i < nr b' \<longrightarrow> unat i \<in> set js" using nrb js(2) by (simp add: word_less_nat_alt)
      then show ?thesis using b'(2) by (auto simp: epoch_inv_def)
    qed
    then have "keys (skipped b') = []" using b'(2) keys_empty by (auto simp: epoch_inv_def)
    then show ?thesis
      using ts b'(2) b1(3-9) fresh nrb a
      by (auto simp: turn_start_def generated_def epoch_inv_def receiving_onlyD [OF b'(3)])
  qed
  ultimately show thesis
    using that [OF l(1), of b'] b'(1) b1(3) by (simp add: receiving_onlyD [OF b'(3)])
qed

section \<open>Conversations\<close>

text \<open>
  A conversation is a list of turns, each with its messages, their order of arrival and the key the
  receiver's generator gives for the ratchet step. The results are what the receivers of the turns
  obtain.
\<close>

type_synonym turn = "(bytes \<times> bytes) list \<times> nat list \<times> key32"

fun conversation :: "dr_crypto \<Rightarrow> turn list \<Rightarrow> Session \<Rightarrow> Session \<Rightarrow> (dr_error + bytes) list list" where
  "conversation C [] a b = []"
| "conversation C ((ms, js, r) # ts) a b =
     (case send_all C ms a of
        (Inl e, a1) \<Rightarrow> [[Err e]]
      | (Inr l, a1) \<Rightarrow>
          (case receive_all C (Some r) (map ((!) l) js) b of
             (rs, b1) \<Rightarrow> rs # conversation C ts b1 a1))"

definition turn_ok :: "turn \<Rightarrow> bool" where
  "turn_ok t \<longleftrightarrow> (case t of (ms, js, r) \<Rightarrow>
     ms \<noteq> [] \<and> length ms \<le> MaxSkippedKeys \<and> distinct js \<and> set js = {..<length ms})"

definition plaintexts :: "turn \<Rightarrow> bytes list" where
  "plaintexts t = (case t of (ms, js, r) \<Rightarrow> map (\<lambda>j. fst (ms ! j)) js)"

definition turn_key :: "turn \<Rightarrow> key32" where
  "turn_key t = snd (snd t)"

lemma conversation_from_turn_start:
  assumes C: "aead_opens C" "dh_commutes C" "dh_total C" and ts: "turn_start C a b"
    and ok: "list_all turn_ok turns"
    and fresh: "distinct (map (ScalarBaseMult C) (Private (dhs a) # Private (dhs b) # map turn_key turns))"
  shows "conversation C turns a b = map (map Ok \<circ> plaintexts) turns"
  using ts ok fresh
proof (induction turns arbitrary: a b)
  case Nil
  then show ?case by simp
next
  case (Cons t turns)
  obtain ms js r where t: "t = (ms, js, r)" by (cases t)
  have pb: "Public (dhs b) = ScalarBaseMult C (Private (dhs b))"
    using Cons.prems(1) by (simp add: turn_start_def generated_def)
  obtain l a' b' where r: "send_all C ms a = (Ok l, a')"
    "receive_all C (Some r) (map ((!) l) js) b = (map (\<lambda>j. Ok (fst (ms ! j))) js, b')"
    "turn_start C b' a'" "Private (dhs a') = Private (dhs a)" "Private (dhs b') = r"
    by (rule turn_delivers [OF C Cons.prems(1), of ms js r])
      (use Cons.prems(2,3) pb in \<open>auto simp: t turn_ok_def turn_key_def\<close>)
  have "conversation C turns b' a' = map (map Ok \<circ> plaintexts) turns"
    using Cons.IH [OF r(3)] Cons.prems(2,3) r(4,5) by (auto simp: t turn_key_def)
  then show ?case using r(1,2) by (simp add: t plaintexts_def)
qed

lemma initial_turn:
  assumes C: "dh_commutes C" and a: "InitInitiator C (Some ra) sk (ScalarBaseMult C rb) = Ok a"
  shows "turn_start C a (InitRecipient sk \<lparr>Public = ScalarBaseMult C rb, Private = rb\<rparr>) \<and> Private (dhs a) = ra"
  using a C
  by (auto simp: InitInitiator_def InitRecipient_def GenerateRatchetKeyPair_def dh_def turn_start_def
      generated_def dh_commutes_def newSkippedKeyStore_def store_inv_def split: option.splits sum.splits)

lemma InitInitiator_total:
  "dh_total C \<Longrightarrow> \<exists>a. InitInitiator C (Some ra) sk (ScalarBaseMult C rb) = Ok a"
  by (auto simp: InitInitiator_def GenerateRatchetKeyPair_def dh_def dh_total_def kdfRootChain_total
      split: option.splits)

end
