(* ===== verification/Ratchet_Properties.thy ===== *)
theory Ratchet_Properties
  imports Ratchet_Turns
begin

text \<open>
  The properties of Double Ratchet sessions: delivery of whole conversations, what a rejected message
  leaves behind, single use of message keys, the bound on the skipped-key store, and the cases in which
  the implementation departs from its documentation.
\<close>

unbundle bit_operations_syntax

section \<open>Helper lemmas\<close>

text \<open>
  One induction rule for the loop, over what a run returns: it ends, the receiving chain is missing,
  the store refuses the key, or one key is stored and the loop goes on.
\<close>

lemma skip_loop_run [consumes 1, case_names finished unset full step]:
  assumes "skip_loop C m s = (r, s')"
    and "\<And>s. \<not> nr s < m \<Longrightarrow> P s (Ok ()) s"
    and "\<And>s. nr s < m \<Longrightarrow> \<not> dhrSet s \<Longrightarrow> P s (Err NoReceivingChain) s"
    and "\<And>s e sk. nr s < m \<Longrightarrow> dhrSet s \<Longrightarrow>
      store (dhr s) (nr s) (snd (kdfChain C (ckr s))) (skipped s) = (Err e, sk) \<Longrightarrow>
      P s (Err e) (s\<lparr>ckr := fst (kdfChain C (ckr s)), skipped := sk\<rparr>)"
    and "\<And>s sk r s'. nr s < m \<Longrightarrow> dhrSet s \<Longrightarrow>
      store (dhr s) (nr s) (snd (kdfChain C (ckr s))) (skipped s) = (Ok (), sk) \<Longrightarrow>
      P (s\<lparr>ckr := fst (kdfChain C (ckr s)), skipped := sk, nr := nr s + 1\<rparr>) r s' \<Longrightarrow> P s r s'"
  shows "P s r s'"
  using assms(1)
proof (induction "unat m - unat (nr s)" arbitrary: s rule: less_induct)
  case less
  show ?case
  proof (cases "nr s < m \<and> dhrSet s")
    case False
    then show ?thesis using less.prems assms(2,3) by (auto simp: skip_loop.simps split: if_splits)
  next
    case True
    obtain ck mk where kdf: "kdfChain C (ckr s) = (ck, mk)" by fastforce
    obtain q sk where st: "store (dhr s) (nr s) mk (skipped s) = (q, sk)" by fastforce
    show ?thesis
    proof (cases q)
      case (Inl e)
      then have "r = Err e" "s' = s\<lparr>ckr := ck, skipped := sk\<rparr>"
        using less.prems True kdf st by (auto simp: skip_loop.simps)
      then show ?thesis using assms(4) [of s e sk] True kdf st Inl by simp
    next
      case (Inr u)
      let ?s1 = "s\<lparr>ckr := ck, skipped := sk, nr := nr s + 1\<rparr>"
      have "skip_loop C m ?s1 = (r, s')"
        using less.prems True kdf st Inr by (subst (asm) skip_loop.simps) simp
      then have "P ?s1 r s'" using less.hyps [of ?s1] True nr_step_decreases by simp
      then show ?thesis using assms(5) [of s sk r s'] True kdf st Inr by simp
    qed
  qed
qed

lemma skip_loop_frame:
  "skip_loop C m s = (r, s') \<Longrightarrow> s' = s\<lparr>ckr := ckr s', nr := nr s', skipped := skipped s'\<rparr>"
proof (induction rule: skip_loop_run)
  case (step s sk r s')
  then show ?case by (cases s; cases s') simp
qed simp_all

lemma skipMessageKeys_frame:
  "skipMessageKeys C m s = (r, s') \<Longrightarrow> s' = s\<lparr>ckr := ckr s', nr := nr s', skipped := skipped s'\<rparr>"
  by (cases s) (auto simp: skipMessageKeys_def split: if_splits dest: skip_loop_frame)

lemma dhRatchetStep_Ok:
  assumes "dhRatchetStep C rnd p s = (Ok (), s')"
  shows "dhr s' = p" "dhrSet s'" "nr s' = 0" "skipped s' = skipped s" "encryptHeaders s' = encryptHeaders s"
    "\<not> encryptHeaders s \<Longrightarrow> hks s' = hks s \<and> nhks s' = nhks s \<and> hkr s' = hkr s \<and> nhkr s' = nhkr s"
  using assms by (auto simp: dhRatchetStep_def split: if_splits sum.splits prod.splits)

lemma skip_fields:
  assumes "skipMessageKeys C m s = (r, s')"
  shows "dhr s' = dhr s" "dhrSet s' = dhrSet s" "encryptHeaders s' = encryptHeaders s" "dhs s' = dhs s"
    "hks s' = hks s" "nhks s' = nhks s" "hkr s' = hkr s" "nhkr s' = nhkr s" "rk s' = rk s"
  using skipMessageKeys_frame [OF assms] by (cases s; cases s'; simp)+

lemma advance_frame:
  assumes "advance C rnd q h s = (Ok (), s')"
  shows "encryptHeaders s' = encryptHeaders s"
    "\<not> encryptHeaders s \<Longrightarrow> hks s' = hks s \<and> nhks s' = nhks s \<and> hkr s' = hkr s \<and> nhkr s' = nhkr s"
  using assms
  by (auto simp: advance_def skip_fields dhRatchetStep_Ok split: if_splits elim!: andThen_OkE)

lemma skip_loop_None:
  "skip_loop C m s = (r, s') \<Longrightarrow> r = Ok () \<Longrightarrow> lookup (skipped s) (p, i) = None \<Longrightarrow>
     \<not> (dhrSet s \<and> p = dhr s \<and> i < m) \<Longrightarrow> lookup (skipped s') (p, i) = None"
proof (induction rule: skip_loop_run)
  case (step s sk r s')
  then have "(p, i) \<noteq> (dhr s, nr s)" by auto
  then show ?case
    using step skc.put_shrinks [of "(dhr s, nr s)" "snd (kdfChain C (ckr s))" "skipped s" sk "(p, i)"] by simp
qed simp_all

lemma skipMessageKeys_None:
  "skipMessageKeys C m s = (Ok (), s') \<Longrightarrow> lookup (skipped s) (p, i) = None \<Longrightarrow>
     \<not> (dhrSet s \<and> p = dhr s \<and> i < m) \<Longrightarrow> lookup (skipped s') (p, i) = None"
  by (auto simp: skipMessageKeys_def split: if_splits dest: skip_loop_None)

lemma advance_None:
  assumes "advance C rnd (\<not> dhrSet s \<or> DHPub h \<noteq> dhr s) h s = (Ok (), s')"
    and "lookup (skipped s) (DHPub h, N h) = None"
  shows "lookup (skipped s') (DHPub h, N h) = None"
proof (cases "\<not> dhrSet s \<or> DHPub h \<noteq> dhr s")
  case False
  then show ?thesis using assms skipMessageKeys_None by (auto simp: advance_def)
next
  case True
  then obtain s1 s2 where a: "skipMessageKeys C (PN h) s = (Ok (), s1)" "dhRatchetStep C rnd (DHPub h) s1 = (Ok (), s2)"
      "skipMessageKeys C (N h) s2 = (Ok (), s')"
    using assms(1) by (auto simp: advance_def elim!: andThen_OkE)
  have "lookup (skipped s2) (DHPub h, N h) = None"
    using skipMessageKeys_None [OF a(1) assms(2)] True dhRatchetStep_Ok(4) [OF a(2)] by auto
  then show ?thesis using skipMessageKeys_None [OF a(3)] by simp
qed

lemma store_error: "store p i k s = (Err e, s') \<Longrightarrow> e = SkippedStoreFull"
  by (auto simp: store_def Let_def split: if_splits list.splits)

lemma skip_loop_error: "skip_loop C m s = (r, s') \<Longrightarrow> r = Err e \<Longrightarrow> e = NoReceivingChain \<or> e = SkippedStoreFull"
  by (induction rule: skip_loop_run) (auto dest: store_error)

lemma kdfWithHeaders_not_Err: "kdfRootChainWithHeaders C k d \<noteq> Inl e"
  using kdfRootChainWithHeaders_total [of C k d] by auto

lemma dhRatchetStep_error:
  "dhRatchetStep C rnd p s = (Err e, s') \<Longrightarrow> s' = s \<and> (e = DHFailed \<or> e = KeyGenerationFailed)"
  by (auto simp: dhRatchetStep_def dh_def GenerateRatchetKeyPair_def kdfRootChain_total kdfWithHeaders_not_Err
      split: if_splits sum.splits prod.splits option.splits)

lemma skipMessageKeys_error: "skipMessageKeys C m s = (Err e, s') \<Longrightarrow> e \<noteq> AuthenticationFailed"
  by (auto simp: skipMessageKeys_def split: if_splits dest: skip_loop_error)

lemma advance_error: "advance C rnd q h s = (Err e, s') \<Longrightarrow> e \<noteq> AuthenticationFailed"
  by (auto simp: advance_def andThen_def split: if_splits prod.splits sum.splits
      dest: skipMessageKeys_error dhRatchetStep_error)

section \<open>A concrete instance of the primitives\<close>

text \<open>
  A simple instance that satisfies every law assumed below; the witnesses evaluate on it.
\<close>

fun strip :: "'a list \<Rightarrow> 'a list \<Rightarrow> 'a list option" where
  "strip [] c = Some c"
| "strip (x # xs) [] = None"
| "strip (x # xs) (y # ys) = (if x = y then strip xs ys else None)"

lemma strip_append [simp]: "strip xs (xs @ ys) = Some ys"
  by (induction xs) auto

definition toy_crypto :: dr_crypto where
  "toy_crypto =
     \<lparr>X25519 = (\<lambda>a b. Some (a XOR b)), ScalarBaseMult = (\<lambda>a. a),
      hkdf_stream = (\<lambda>s salt info i. if i \<notin> {31, 63, 95, 127} then 0
         else last s + (if salt = [] then 0 else last salt) + of_nat (length info)),
      hmac_sha256 = (\<lambda>k m. bytes_key k + (case m of [] \<Rightarrow> 0 | x # _ \<Rightarrow> ucast x)),
      Seal = (\<lambda>k n p ad. drop 16 (key_bytes (k + ucast (sum_list ad))) @ p),
      Open = (\<lambda>k n c ad. strip (drop 16 (key_bytes (k + ucast (sum_list ad)))) c)\<rparr>"

lemma toy_laws: "aead_opens toy_crypto" "dh_commutes toy_crypto" "dh_total toy_crypto"
  by (simp_all add: toy_crypto_def aead_opens_def dh_commutes_def dh_total_def xor.commute)

definition bob :: Session where
  "bob = InitRecipient 9 \<lparr>Public = 2, Private = 2\<rparr>"

definition alice :: Session where
  "alice = (case InitInitiator toy_crypto (Some 1) 9 2 of Inr a \<Rightarrow> a | Inl _ \<Rightarrow> bob)"

definition first_message :: "Header \<times> bytes" where
  "first_message = (case fst (RatchetEncrypt toy_crypto None [7, 8] [3] alice) of Inr m \<Rightarrow> m | Inl _ \<Rightarrow> (zeroHeader, []))"

lemma first_message_value:
  "first_message = (\<lparr>DHPub = 1, PN = 0, N = 0\<rparr>, replicate 15 0 @ [46, 7, 8])"
  by code_simp

lemma first_message_received:
  "fst (RatchetDecrypt toy_crypto (Some 5) (fst first_message) (snd first_message) [3] bob) = Ok [7, 8]"
  unfolding first_message_value by code_simp

section \<open>Properties\<close>

text \<open>
  C1. Two sessions started from the same shared key, taking turns of up to 1000 messages each: every
  message of every turn decrypts to the plaintext sent, whatever the order in which the messages of a
  turn arrive, provided the generated ratchet keys are distinct.
\<close>

theorem conversation_delivered:
  assumes "aead_opens C" "dh_commutes C" "dh_total C"
    and "InitInitiator C (Some ra) sk (ScalarBaseMult C rb) = Ok a"
    and "list_all turn_ok turns"
    and "distinct (map (ScalarBaseMult C) (ra # rb # map turn_key turns))"
  shows "conversation C turns a (InitRecipient sk \<lparr>Public = ScalarBaseMult C rb, Private = rb\<rparr>) =
    map (map Ok \<circ> plaintexts) turns"
  using conversation_from_turn_start [OF assms(1-3) _ assms(5)] initial_turn [OF assms(2,4)] assms(6)
  by (simp add: InitRecipient_def)

definition sample_turns :: "turn list" where
  "sample_turns = [([([1], [9]), ([2], [])], [1, 0], 5), ([([3, 4], [])], [0], 7)]"

theorem conversation_delivered_witness:
  "\<exists>a. InitInitiator toy_crypto (Some 1) 9 (ScalarBaseMult toy_crypto 2) = Ok a \<and>
     conversation toy_crypto sample_turns a (InitRecipient 9 \<lparr>Public = ScalarBaseMult toy_crypto 2, Private = 2\<rparr>) =
       [[Ok [2], Ok [1]], [Ok [3, 4]]]"
proof -
  obtain a where a: "InitInitiator toy_crypto (Some 1) 9 (ScalarBaseMult toy_crypto 2) = Ok a"
    using InitInitiator_total [OF toy_laws(3)] by blast
  have "list_all turn_ok sample_turns"
    by (auto simp: sample_turns_def turn_ok_def MaxSkippedKeys_def)
  moreover have "distinct (map (ScalarBaseMult toy_crypto) (1 # 2 # map turn_key sample_turns))"
    by (simp add: sample_turns_def turn_key_def toy_crypto_def)
  ultimately have "conversation toy_crypto sample_turns a
      (InitRecipient 9 \<lparr>Public = ScalarBaseMult toy_crypto 2, Private = 2\<rparr>) = map (map Ok \<circ> plaintexts) sample_turns"
    by (rule conversation_delivered [OF toy_laws a])
  then show ?thesis using a by (auto simp: sample_turns_def plaintexts_def)
qed

text \<open>
  C3. A message whose authentication fails in plaintext-header mode, and for which no skipped key was
  stored, leaves the session exactly as it was.
\<close>

theorem auth_failure_restores:
  assumes "RatchetDecrypt C rnd h ct ad s = (Err AuthenticationFailed, s')"
    and "lookup (skipped s) (DHPub h, N h) = None" and "\<not> encryptHeaders s"
  shows "s' = s"
proof -
  obtain s1 where adv: "advance C rnd (\<not> dhrSet s \<or> DHPub h \<noteq> dhr s) h s = (Ok (), s1)"
    using assms(1,2) advance_error [of C rnd "\<not> dhrSet s \<or> DHPub h \<noteq> dhr s" h s]
      skc.take_miss [of "skipped s" "(DHPub h, N h)"]
    by (auto simp: RatchetDecrypt_def split: prod.splits sum.splits)
  show ?thesis
    using assms adv advance_frame [OF adv] skc.take_miss [of "skipped s" "(DHPub h, N h)"]
    by (cases s; cases s1) (auto simp: RatchetDecrypt_def Let_def split: prod.splits sum.splits)
qed

theorem auth_failure_restores_witness:
  "RatchetDecrypt toy_crypto (Some 5) \<lparr>DHPub = 1, PN = 0, N = 0\<rparr> [] [] bob = (Err AuthenticationFailed, bob)"
proof -
  let ?r = "RatchetDecrypt toy_crypto (Some 5) \<lparr>DHPub = 1, PN = 0, N = 0\<rparr> [] [] bob"
  have e: "fst ?r = Err AuthenticationFailed" by code_simp
  have "snd ?r = bob"
    by (rule auth_failure_restores [where C = toy_crypto and rnd = "Some 5" and h = "\<lparr>DHPub = 1, PN = 0, N = 0\<rparr>"
          and ct = "[]" and ad = "[]"])
      (use e in \<open>simp add: prod_eq_iff\<close>, simp_all add: bob_def InitRecipient_def)
  then show ?thesis using e by (simp add: prod_eq_iff)
qed

text \<open>
  C8. With encrypted headers a message that fails authentication, and whose header names no stored
  skipped key, leaves the session exactly as it was, header keys included.
\<close>

theorem encrypted_auth_failure_restores:
  assumes "RatchetDecryptWithEncryptedHeader C rnd m ad s = (Err AuthenticationFailed, s')"
    and "\<And>h q. openHeader C (hkr s) (nhkr s) (take encryptedHeaderSize m) = Ok (h, q) \<Longrightarrow>
           lookup (skipped s) (DHPub h, N h) = None"
  shows "s' = s"
proof (cases "length m < encryptedHeaderSize")
  case True
  then show ?thesis using assms(1) by (simp add: RatchetDecryptWithEncryptedHeader_def)
next
  case False
  show ?thesis
  proof (cases "openHeader C (hkr s) (nhkr s) (take encryptedHeaderSize m)")
    case (Inl e)
    then show ?thesis using assms(1) False by (simp add: RatchetDecryptWithEncryptedHeader_def Let_def)
  next
    case (Inr hq)
    obtain h q where hq: "hq = (h, q)" by fastforce
    let ?q = "q \<or> \<not> dhrSet s \<or> DHPub h \<noteq> dhr s"
    have miss: "get (DHPub h) (N h) (skipped s) = (None, skipped s)"
      using assms(2) Inr hq skc.take_miss [of "skipped s" "(DHPub h, N h)"] by simp
    obtain s1 where adv: "advance C rnd ?q h s = (Ok (), s1)"
      using assms(1) False Inr hq miss advance_error [of C rnd ?q h s]
      by (auto simp: RatchetDecryptWithEncryptedHeader_def Let_def split: prod.splits sum.splits)
    show ?thesis
      using assms(1) False Inr hq miss adv advance_frame(1) [OF adv]
      by (cases s; cases s1)
        (auto simp: RatchetDecryptWithEncryptedHeader_def Let_def split: prod.splits sum.splits)
  qed
qed

definition bob_headers :: Session where
  "bob_headers = bob\<lparr>encryptHeaders := True, hkr := 77, nhkr := 78\<rparr>"

definition sealed_sample :: bytes where
  "sealed_sample = (case sealHeader toy_crypto (Some (replicate 24 0)) 78 \<lparr>DHPub = 1, PN = 0, N = 0\<rparr> of
     Inr b \<Rightarrow> b | Inl _ \<Rightarrow> []) @ [5]"

theorem encrypted_auth_failure_restores_witness:
  "openHeader toy_crypto (hkr bob_headers) (nhkr bob_headers) (take encryptedHeaderSize sealed_sample) =
     Ok (\<lparr>DHPub = 1, PN = 0, N = 0\<rparr>, True) \<and>
   RatchetDecryptWithEncryptedHeader toy_crypto (Some 5) sealed_sample [] bob_headers =
     (Err AuthenticationFailed, bob_headers)"
proof -
  let ?r = "RatchetDecryptWithEncryptedHeader toy_crypto (Some 5) sealed_sample [] bob_headers"
  have o: "openHeader toy_crypto (hkr bob_headers) (nhkr bob_headers) (take encryptedHeaderSize sealed_sample) =
     Ok (\<lparr>DHPub = 1, PN = 0, N = 0\<rparr>, True)" by code_simp
  have e: "fst ?r = Err AuthenticationFailed" by code_simp
  have "snd ?r = bob_headers"
    by (rule encrypted_auth_failure_restores [where C = toy_crypto and rnd = "Some 5" and m = sealed_sample
          and ad = "[]"])
      (use e in \<open>simp add: prod_eq_iff\<close>, simp add: bob_headers_def bob_def InitRecipient_def)
  then show ?thesis using e o by (simp add: prod_eq_iff)
qed

text \<open>
  C11. A message key is used once: after a message was decrypted, the session holds no stored key for
  its ratchet key and number any more.
\<close>

theorem message_key_single_use:
  assumes "RatchetDecrypt C rnd h ct ad s = (Ok p, s')"
  shows "lookup (skipped s') (DHPub h, N h) = None"
proof (cases "lookup (skipped s) (DHPub h, N h)")
  case (Some mk)
  then show ?thesis
    using assms by (auto simp: RatchetDecrypt_def get_def lookup_def removeFromOrder_def Let_def dict_simps)
next
  case None
  note miss = skc.take_miss [of "skipped s" "(DHPub h, N h)", OF None]
  obtain s1 where adv: "advance C rnd (\<not> dhrSet s \<or> DHPub h \<noteq> dhr s) h s = (Ok (), s1)"
    using assms miss by (auto simp: RatchetDecrypt_def split: prod.splits sum.splits)
  then have "skipped s' = skipped s1"
    using assms miss by (auto simp: RatchetDecrypt_def Let_def split: prod.splits sum.splits)
  then show ?thesis using advance_None [OF adv None] by simp
qed

theorem message_key_single_use_witness:
  "\<exists>s'. RatchetDecrypt toy_crypto (Some 5) (fst first_message) (snd first_message) [3] bob = (Ok [7, 8], s') \<and>
     lookup (skipped s') (DHPub (fst first_message), N (fst first_message)) = None"
proof -
  let ?r = "RatchetDecrypt toy_crypto (Some 5) (fst first_message) (snd first_message) [3] bob"
  have "fst ?r = Ok [7, 8]" by (rule first_message_received)
  then have e: "?r = (Ok [7, 8], snd ?r)" by (simp add: prod_eq_iff)
  show ?thesis using message_key_single_use [OF e] e by blast
qed

definition skip_inv :: "Session \<Rightarrow> bool" where
  "skip_inv s \<longleftrightarrow> store_inv (skipped s) \<and> (\<forall>i. nr s \<le> i \<longrightarrow> lookup (skipped s) (dhr s, i) = None)"

text \<open>
  Skipping message keys keeps the store within its 1000 entries and its order list in step with its
  map, as long as the store holds no key of the current receiving chain from the next expected number
  on; a gap of more than 1000 messages is refused.
\<close>

theorem skipped_keys_bounded:
  assumes "skipMessageKeys C m s = (r, s')" and "skip_inv s"
  shows "skip_inv s' \<and> length (keys (skipped s')) \<le> MaxSkippedKeys \<and> length (order (skipped s')) \<le> MaxSkippedKeys"
proof -
  have "skip_inv s'"
  proof (cases "skip_loop C m s = (r, s')")
    case True
    from True assms(2) show ?thesis
    proof (induction rule: skip_loop_run)
      case (full s e sk)
      then show ?case using store_fresh [of "skipped s" "dhr s" "nr s" "snd (kdfChain C (ckr s))"] by (auto simp: skip_inv_def)
    next
      case (step s sk r s')
      let ?mk = "snd (kdfChain C (ckr s))"
      have "store_inv sk"
        using step skc.put_ok [of "skipped s" "(dhr s, nr s)" ?mk] by (auto simp: skip_inv_def)
      moreover have "lookup sk (dhr s, i) = None" if "nr s + 1 \<le> i" for i
      proof -
        have "nr s \<le> i" "i \<noteq> nr s" using that step(1) by unat_arith+
        then show ?thesis
          using step skc.put_shrinks [of "(dhr s, nr s)" ?mk "skipped s" sk "(dhr s, i)"] by (auto simp: skip_inv_def)
      qed
      ultimately show ?case using step by (simp add: skip_inv_def)
    qed simp_all
  next
    case False
    then show ?thesis using assms by (auto simp: skipMessageKeys_def split: if_splits)
  qed
  then have "store_inv (skipped s')" by (simp add: skip_inv_def)
  then have "length (keys (skipped s')) \<le> MaxSkippedKeys" "length (order (skipped s')) = length (keys (skipped s'))"
    using distinct_card [of "order (skipped s')"] distinct_card [of "map fst (keys (skipped s'))"]
    by (simp_all add: store_inv_def wf_map_def)
  then show ?thesis using \<open>skip_inv s'\<close> by simp
qed

theorem skipped_keys_bounded_witness:
  "\<exists>r s'. skipMessageKeys toy_crypto 2 (bob\<lparr>dhrSet := True\<rparr>) = (r, s') \<and> skip_inv s' \<and>
     length (keys (skipped s')) \<le> MaxSkippedKeys"
proof -
  obtain r s' where e: "skipMessageKeys toy_crypto 2 (bob\<lparr>dhrSet := True\<rparr>) = (r, s')" by fastforce
  have "skip_inv (bob\<lparr>dhrSet := True\<rparr>)" by (simp add: skip_inv_def bob_def InitRecipient_def)
  then show ?thesis using skipped_keys_bounded [OF e] e by blast
qed

text \<open>
  A message for which a skipped key was stored consumes that key even when its authentication
  fails: the genuine message with the same header can then not be decrypted from the store any more.
\<close>

theorem forgery_burns_skipped_key:
  assumes "lookup (skipped s) (DHPub h, N h) = Some mk"
    and "decryptWithMsgKey C mk ct (buildAD ad h) = Err AuthenticationFailed"
  shows "\<exists>s'. RatchetDecrypt C rnd h ct ad s = (Err AuthenticationFailed, s') \<and>
    lookup (skipped s') (DHPub h, N h) = None \<and> s' \<noteq> s"
proof -
  have "\<exists>s'. RatchetDecrypt C rnd h ct ad s = (Err AuthenticationFailed, s') \<and>
    lookup (skipped s') (DHPub h, N h) = None"
    using assms by (simp add: RatchetDecrypt_def get_def lookup_def removeFromOrder_def Let_def dict_simps)
  then show ?thesis using assms(1) by auto
qed

definition bob_skipped :: Session where
  "bob_skipped = bob\<lparr>skipped := \<lparr>keys = [((1, 0), 40)], order = [(1, 0)]\<rparr>\<rparr>"

theorem forgery_burns_skipped_key_witness:
  "\<exists>s'. RatchetDecrypt toy_crypto None \<lparr>DHPub = 1, PN = 0, N = 0\<rparr> [] [] bob_skipped = (Err AuthenticationFailed, s') \<and>
    lookup (skipped s') (1, 0) = None \<and> s' \<noteq> bob_skipped"
proof -
  have "lookup (skipped bob_skipped) (DHPub \<lparr>DHPub = 1, PN = 0, N = 0\<rparr>, N \<lparr>DHPub = 1, PN = 0, N = 0\<rparr>) = Some 40"
    by (simp add: bob_skipped_def lookup_def mget_def)
  moreover have "decryptWithMsgKey toy_crypto 40 [] (buildAD [] \<lparr>DHPub = 1, PN = 0, N = 0\<rparr>) = Err AuthenticationFailed"
    by code_simp
  ultimately show ?thesis using forgery_burns_skipped_key by fastforce
qed

text \<open>
  C13. A header with a new ratchet key and a message number above 1000 makes decryption fail, whatever
  the ciphertext, but only after the ratchet step was committed: the session is left with the forged
  key as its peer's, a new key pair and new chains.
\<close>

theorem forged_header_commits_ratchet:
  assumes "lookup (skipped s) (DHPub h, N h) = None" "dhrSet s" "DHPub h \<noteq> dhr s" "\<not> encryptHeaders s"
    and "PN h \<le> nr s" "N h > of_nat MaxSkippedKeys"
    and "X25519 C (Private (dhs s)) (DHPub h) = Some d" "X25519 C r (DHPub h) = Some d2"
  shows "\<exists>s'. RatchetDecrypt C (Some r) h ct ad s = (Err (GapExceedsLimit (N h)), s') \<and>
    dhr s' = DHPub h \<and> Private (dhs s') = r \<and> nr s' = 0 \<and>
    ckr s' = root_block C (rk s) d 1 \<and> rk s' = root_block C (root_block C (rk s) d 0) d2 0"
proof -
  let ?s1 = "s\<lparr>pn := ns s, ns := 0, nr := 0, dhr := DHPub h, dhrSet := True,
      rk := root_block C (root_block C (rk s) d 0) d2 0, ckr := root_block C (rk s) d 1,
      dhs := \<lparr>Public = ScalarBaseMult C r, Private = r\<rparr>,
      cks := root_block C (root_block C (rk s) d 0) d2 1, cksSet := True\<rparr>"
  have step: "dhRatchetStep C (Some r) (DHPub h) s = (Ok (), ?s1)"
    using assms(4,7,8) by (simp add: dhRatchetStep_def dh_def GenerateRatchetKeyPair_def kdfRootChain_total)
  have "N h > 0" using assms(6) by (metis word_gt_0 word_not_simps(1))
  then have "skipMessageKeys C (N h) ?s1 = (Err (GapExceedsLimit (N h)), ?s1)"
    using assms(6) by (simp add: skipMessageKeys_def)
  then have "advance C (Some r) True h s = (Err (GapExceedsLimit (N h)), ?s1)"
    using skipMessageKeys_at [OF assms(5)] step by (simp add: advance_def andThen_def)
  then show ?thesis
    using assms(2,3) skc.take_miss [OF assms(1)] by (simp add: RatchetDecrypt_def)
qed

theorem forged_header_commits_ratchet_witness:
  "\<exists>s'. RatchetDecrypt toy_crypto (Some 5) \<lparr>DHPub = 66, PN = 0, N = 1001\<rparr> [] [] alice =
      (Err (GapExceedsLimit 1001), s') \<and> dhr s' = 66 \<and> Private (dhs s') = 5 \<and> s' \<noteq> alice"
proof -
  let ?h = "\<lparr>DHPub = 66, PN = 0, N = 1001\<rparr>"
  have a: "dhrSet alice" "dhr alice = 2" "\<not> encryptHeaders alice" "nr alice = 0" "skipped alice = newSkippedKeyStore"
      "X25519 toy_crypto k p = Some (k XOR p)" for k p
    by (simp_all add: alice_def InitInitiator_def GenerateRatchetKeyPair_def dh_def toy_crypto_def kdfRootChain_total)
  have "(1001 :: u32) > of_nat MaxSkippedKeys" by (simp add: MaxSkippedKeys_def)
  then obtain s' where s': "RatchetDecrypt toy_crypto (Some 5) ?h [] [] alice = (Err (GapExceedsLimit 1001), s')"
      "dhr s' = 66" "Private (dhs s') = 5"
    using forged_header_commits_ratchet [of alice ?h toy_crypto "Private (dhs alice) XOR 66" 5 "5 XOR 66" "[]" "[]"] a
    by auto
  then have "s' \<noteq> alice" using a(2) by auto
  then show ?thesis using s' by blast
qed

text \<open>
  C12. A fresh initiator session has an all-zero receiving chain key for the peer's initial ratchet key.
  Anyone who knows that public key can seal a message with the key derived from the zero chain key, and
  the session accepts it as authentic.
\<close>

theorem initiator_accepts_forgery:
  assumes "aead_opens C" and "InitInitiator C rnd sk theirPub = Ok a"
    and "h = \<lparr>DHPub = theirPub, PN = x, N = 0\<rparr>"
    and "expandMsgKey C (hmac_sha256 C (key_bytes 0) [chainKeyInput01]) = Ok (k, n)"
  shows "\<exists>a'. RatchetDecrypt C rnd2 h (Seal C k n p (buildAD ad h)) ad a = (Ok p, a')"
proof -
  have a: "dhrSet a" "dhr a = theirPub" "nr a = 0" "ckr a = 0" "skipped a = newSkippedKeyStore"
    using assms(2) by (auto simp: InitInitiator_def split: sum.splits prod.splits)
  have "decryptWithMsgKey C (snd (kdfChain C 0)) (Seal C k n p (buildAD ad h)) (buildAD ad h) = Ok p"
    using assms(1,4) by (simp add: decryptWithMsgKey_def kdfChain_def aead_opens_def)
  moreover have "skipMessageKeys C (N h) a = (Ok (), a)" by (rule skipMessageKeys_at) (simp add: assms(3))
  ultimately show ?thesis
    using RatchetDecrypt_miss [of a h C a] a by (auto simp: assms(3))
qed

theorem initiator_accepts_forgery_witness:
  "\<exists>k n a'. expandMsgKey toy_crypto (hmac_sha256 toy_crypto (key_bytes 0) [chainKeyInput01]) = Ok (k, n) \<and>
     RatchetDecrypt toy_crypto None \<lparr>DHPub = 2, PN = 0, N = 0\<rparr>
       (Seal toy_crypto k n [6, 6, 6] (buildAD [] \<lparr>DHPub = 2, PN = 0, N = 0\<rparr>)) [] alice = (Ok [6, 6, 6], a')"
proof -
  obtain k n where kn: "expandMsgKey toy_crypto (hmac_sha256 toy_crypto (key_bytes 0) [chainKeyInput01]) = Ok (k, n)"
    using expandMsgKey_total by blast
  have "\<exists>a. InitInitiator toy_crypto (Some 1) 9 (ScalarBaseMult toy_crypto 2) = Ok a"
    by (rule InitInitiator_total [OF toy_laws(3)])
  then have "InitInitiator toy_crypto (Some 1) 9 2 = Ok alice"
    by (auto simp: alice_def toy_crypto_def)
  then show ?thesis using initiator_accepts_forgery [OF toy_laws(1) _ refl kn] kn by blast
qed

text \<open>
  Header encryption does not survive its bootstrap: when the receiver of a turn has enabled it, the
  plaintext-header message that starts the turn is opened with a key derived under the header-mode HKDF
  label, while the sender sealed it with a key derived from the same root key and shared secret under
  the plain label.
\<close>

theorem header_mode_uses_other_chain:
  assumes "turn_start C a b" and "RatchetEncrypt C rnd p ad a = (Ok (h, ct), a')"
    and "X25519 C (Private (dhs b)) (Public (dhs a)) = Some d"
    and "kdfRootChainWithHeaders C (rk b) d = Ok (rk1, ck1, hk1, nhk1)"
    and "X25519 C r (Public (dhs a)) = Some d2"
  shows "encryptWithMsgKey C (msg_key C (root_block C (rk b) d 1) 0) p (buildAD ad h) = Ok ct \<and>
    fst (RatchetDecrypt C (Some r) h ct ad (EnableHeaderEncryption b)) =
      decryptWithMsgKey C (msg_key C ck1 0) ct (buildAD ad h)"
proof -
  have ts: "cksSet a" "\<not> encryptHeaders a" "ns a = 0" "pn a = nr b" "keys (skipped b) = []"
      "dhrSet b \<longrightarrow> dhr b \<noteq> Public (dhs a)" "cks a = root_block C (rk b) d 1"
    using assms(1,3) by (auto simp: turn_start_def kdfRootChain_total)
  have enc: "encryptWithMsgKey C (msg_key C (cks a) 0) p (buildAD ad h) = Ok ct"
    and h: "h = \<lparr>DHPub = Public (dhs a), PN = pn a, N = 0\<rparr>"
    using RatchetEncrypt_plain [OF ts(1,2), of C p ad rnd] assms(2) ts(3) by auto
  let ?b = "EnableHeaderEncryption b"
  obtain rk2 cks2 hk2 nhk2 where k2: "kdfRootChainWithHeaders C rk1 d2 = Ok (rk2, cks2, hk2, nhk2)"
    using kdfRootChainWithHeaders_total by blast
  obtain b1 where b1: "dhRatchetStep C (Some r) (DHPub h) ?b = (Ok (), b1)" "ckr b1 = ck1" "nr b1 = 0"
    using assms(3-5) k2
    by (simp add: h EnableHeaderEncryption_def dhRatchetStep_def dh_def GenerateRatchetKeyPair_def)
  have "skipMessageKeys C (PN h) ?b = (Ok (), ?b)" "skipMessageKeys C (N h) b1 = (Ok (), b1)"
    using ts(4) b1(3) by (auto intro!: skipMessageKeys_at simp: h EnableHeaderEncryption_def)
  then have "advance C (Some r) True h ?b = (Ok (), b1)"
    using b1(1) by (simp add: advance_def andThen_def)
  moreover have "get (DHPub h) (N h) (skipped ?b) = (None, skipped ?b)"
    using ts(5) by (simp add: EnableHeaderEncryption_def get_def mget_def)
  moreover have "\<not> dhrSet ?b \<or> DHPub h \<noteq> dhr ?b" using ts(6) by (auto simp: EnableHeaderEncryption_def h)
  ultimately have "fst (RatchetDecrypt C (Some r) h ct ad ?b) = decryptWithMsgKey C (msg_key C ck1 0) ct (buildAD ad h)"
    using b1(2) by (simp add: RatchetDecrypt_def Let_def msg_key_def split: prod.split sum.split)
  then show ?thesis using enc ts(7) by simp
qed

definition header_chain_key :: key32 where
  "header_chain_key = (case kdfRootChainWithHeaders toy_crypto 9 3 of Inr (_, ck, _, _) \<Rightarrow> ck | Inl _ \<Rightarrow> 0)"

theorem header_mode_uses_other_chain_witness:
  "fst (RatchetDecrypt toy_crypto (Some 5) (fst first_message) (snd first_message) [3] bob) = Ok [7, 8] \<and>
   fst (RatchetDecrypt toy_crypto (Some 5) (fst first_message) (snd first_message) [3] (EnableHeaderEncryption bob)) =
     Err AuthenticationFailed"
proof -
  have ia: "InitInitiator toy_crypto (Some 1) 9 (ScalarBaseMult toy_crypto 2) = Ok alice"
    using InitInitiator_total [OF toy_laws(3), of 1 9 2] by (auto simp: alice_def toy_crypto_def)
  have ts: "turn_start toy_crypto alice bob" and priv: "Private (dhs alice) = 1"
    using initial_turn [OF toy_laws(2) ia] by (simp_all add: bob_def toy_crypto_def)
  have pub: "Public (dhs alice) = 1"
    using ts priv by (simp add: turn_start_def generated_def toy_crypto_def)
  have st: "cksSet alice" "\<not> encryptHeaders alice" using ts by (simp_all add: turn_start_def)
  obtain m a' where m: "RatchetEncrypt toy_crypto None [7, 8] [3] alice = (Ok m, a')"
    by (rule RatchetEncrypt_plain [OF st, of toy_crypto "[7, 8]" "[3]" None]) blast
  then have "first_message = m" by (simp add: first_message_def)
  then have enc: "RatchetEncrypt toy_crypto None [7, 8] [3] alice = (Ok (fst first_message, snd first_message), a')"
    using m by simp
  have x: "X25519 toy_crypto (Private (dhs bob)) (Public (dhs alice)) = Some 3" "X25519 toy_crypto 5 (Public (dhs alice)) = Some 4"
    by (simp_all add: pub bob_def InitRecipient_def toy_crypto_def)
  obtain rk1 hk1 nhk1 where kh: "kdfRootChainWithHeaders toy_crypto (rk bob) 3 = Ok (rk1, header_chain_key, hk1, nhk1)"
    using kdfRootChainWithHeaders_total [of toy_crypto 9 3] by (auto simp: header_chain_key_def bob_def InitRecipient_def)
  have "decryptWithMsgKey toy_crypto (msg_key toy_crypto header_chain_key 0) (snd first_message)
      (buildAD [3] (fst first_message)) = Err AuthenticationFailed"
    unfolding first_message_value by code_simp
  then have "fst (RatchetDecrypt toy_crypto (Some 5) (fst first_message) (snd first_message) [3] (EnableHeaderEncryption bob)) =
     Err AuthenticationFailed"
    using header_mode_uses_other_chain [OF ts enc x(1) kh x(2)] by simp
  then show ?thesis using first_message_received by simp
qed

lemma sealHeader_total: "\<exists>b. sealHeader C (Some n) hk h = Ok b"
  by (simp add: sealHeader_def expandHeaderKey_def hkdf_read_def)

text \<open>
  The sealed form of a header is 16 bytes longer than the header, as the AEAD's documentation states.
\<close>

definition aead_overhead :: "dr_crypto \<Rightarrow> bool" where
  "aead_overhead C \<longleftrightarrow> (\<forall>k n p ad. length (Seal C k n p ad) = length p + AEAD_Overhead)"

text \<open>
  A header sealed with the sender's header key has exactly the 80 bytes that the receiver cuts off,
  and opens to the same header without announcing a ratchet step.
\<close>

theorem sealed_header_opens:
  assumes "aead_opens C" "aead_overhead C" "length nonce = NonceSizeX"
    and "sealHeader C (Some nonce) hk h = Ok b"
  shows "length b = encryptedHeaderSize \<and> openHeader C hk nhk b = Ok (h, False)"
proof -
  obtain k where k: "expandHeaderKey C hk = Ok k" and b: "b = nonce @ Seal C k nonce (Header_Encode h) []"
    using assms(4) by (auto simp: sealHeader_def split: sum.splits)
  have "length b = encryptedHeaderSize"
    using assms(2,3) by (simp add: b aead_overhead_def)
  moreover have "DecodeHeader (Header_Encode h) = Ok h"
    using header.dec_enc_append [of h "[]"] by simp
  ultimately show ?thesis
    using assms(1,3) k
    by (simp add: openHeader_def openHeaderWithKey_def b aead_opens_def)
qed

theorem sealed_header_opens_witness:
  "\<exists>b. sealHeader toy_crypto (Some (replicate 24 0)) 78 \<lparr>DHPub = 1, PN = 2, N = 3\<rparr> = Ok b \<and>
     length b = encryptedHeaderSize \<and> openHeader toy_crypto 78 0 b = Ok (\<lparr>DHPub = 1, PN = 2, N = 3\<rparr>, False)"
proof -
  have o: "aead_overhead toy_crypto" by (simp add: aead_overhead_def toy_crypto_def AEAD_Overhead_def)
  have n: "length (replicate 24 (0 :: byte)) = NonceSizeX" by (simp only: length_replicate NonceSizeX_def)
  obtain b where b: "sealHeader toy_crypto (Some (replicate 24 0)) 78 \<lparr>DHPub = 1, PN = 2, N = 3\<rparr> = Ok b"
    using sealHeader_total by blast
  then show ?thesis using sealed_header_opens [OF toy_laws(1) o n b] by blast
qed

text \<open>
  Storing a key that is already in the store, below capacity, adds a second entry for it to the
  insertion order while the map does not grow: the order list is not bounded by the capacity.
\<close>

theorem duplicate_store_grows_order:
  assumes "wf_map (keys s)" "lookup s (d, n) \<noteq> None" "length (keys s) < MaxSkippedKeys"
  shows "\<exists>s'. store d n mk s = (Ok (), s') \<and> length (keys s') = length (keys s) \<and>
    length (order s') = Suc (length (order s))"
  using assms gm.count_put [OF assms(1), of "(d, n)" mk] by (simp add: store_room lookup_def)

theorem duplicate_store_grows_order_witness:
  "\<exists>s'. store 1 0 41 (skipped bob_skipped) = (Ok (), s') \<and> length (keys s') = 1 \<and> length (order s') = 2"
  using duplicate_store_grows_order [of "skipped bob_skipped" 1 0 41]
  by (simp add: bob_skipped_def wf_map_def lookup_def mget_def MaxSkippedKeys_def numeral_2_eq_2)

end
