(* ===== verification/Filepath.thy ===== *)
theory Filepath
  imports Tox_Prelude
begin

text \<open>
  The lexical path functions of Go's \<^verbatim>\<open>path/filepath\<close> (on Unix) and \<^verbatim>\<open>strings\<close> that the file
  transfers use, and the path check \<^verbatim>\<open>ValidatePath\<close> of \<^verbatim>\<open>file/transfer.go\<close>. A Go string is its bytes.
\<close>

type_synonym gostring = bytes

definition slash :: byte where "slash = 47"
definition dot :: byte where "dot = 46"

abbreviation dotdot :: gostring where "dotdot \<equiv> [dot, dot]"

lemma slash_dot [simp]: "slash \<noteq> dot" "dot \<noteq> slash"
  by (simp_all add: slash_def dot_def)

text \<open>\<^verbatim>\<open>strings.Split(s, "/")\<close> and \<^verbatim>\<open>strings.Join(es, "/")\<close>.\<close>

fun Split :: "gostring \<Rightarrow> gostring list" where
  "Split [] = [[]]"
| "Split (c # cs) =
     (if c = slash then [] # Split cs
      else (case Split cs of [] \<Rightarrow> [[c]] | w # ws \<Rightarrow> (c # w) # ws))"

fun Join :: "gostring list \<Rightarrow> gostring" where
  "Join [] = []"
| "Join [e] = e"
| "Join (e # es) = e @ slash # Join es"

definition IsAbs :: "gostring \<Rightarrow> bool" where
  "IsAbs p \<longleftrightarrow> (case p of [] \<Rightarrow> False | c # _ \<Rightarrow> c = slash)"

text \<open>
  \<^verbatim>\<open>filepath.Clean\<close>: empty and \<^verbatim>\<open>.\<close> elements are dropped, \<^verbatim>\<open>..\<close> removes the element before it,
  is dropped at the root, and is kept at the start of a relative path.
\<close>

definition clean_step :: "bool \<Rightarrow> gostring list \<Rightarrow> gostring \<Rightarrow> gostring list" where
  "clean_step rooted out e =
     (if e = [] \<or> e = [dot] then out
      else if e = dotdot then
        (if out \<noteq> [] \<and> last out \<noteq> dotdot then butlast out
         else if rooted then out else out @ [dotdot])
      else out @ [e])"

definition Clean :: "gostring \<Rightarrow> gostring" where
  "Clean p =
     (if p = [] then [dot]
      else let rooted = IsAbs p;
               out = foldl (clean_step rooted) [] (Split p);
               s = (if rooted then [slash] else []) @ Join out
           in if s = [] then [dot] else s)"

text \<open>\<^verbatim>\<open>filepath.Base\<close>: the last element, after trailing slashes are removed.\<close>

definition Base :: "gostring \<Rightarrow> gostring" where
  "Base p =
     (if p = [] then [dot]
      else let q = dropWhile ((=) slash) (rev p);
               b = rev (takeWhile ((\<noteq>) slash) q)
           in if b = [] then [slash] else b)"

lemma Base_no_slash: "Base p = [slash] \<or> slash \<notin> set (Base p)"
  by (auto simp: Base_def Let_def dest: set_takeWhileD)

lemma Base_nonempty: "Base p \<noteq> []"
  by (simp add: Base_def Let_def)

lemma Base_idem: "Base (Base p) = Base p"
proof (cases "Base p = [slash]")
  case True
  then show ?thesis by (simp add: Base_def)
next
  case False
  then have ns: "slash \<notin> set (Base p)" using Base_no_slash by blast
  have d: "slash \<notin> set q \<Longrightarrow> dropWhile ((=) slash) q = q" and t: "slash \<notin> set q \<Longrightarrow> takeWhile ((\<noteq>) slash) q = q" for q
    by (cases q, auto)
  have r: "slash \<notin> set (rev (Base p))" using ns by simp
  show ?thesis using Base_nonempty [of p] by (simp add: Base_def [of "Base p"] d [OF r] t [OF r] Let_def)
qed

lemma Split_no_slash: "slash \<notin> set p \<Longrightarrow> Split p = [p]"
  by (induction p) auto

text \<open>The elements of a path hold no separator, and cleaning keeps it so.\<close>

lemma Split_elements: "e \<in> set (Split p) \<Longrightarrow> slash \<notin> set e"
  by (induction p arbitrary: e rule: Split.induct) (auto split: if_splits list.splits)

lemma Split_nonempty [simp]: "Split p \<noteq> []"
  by (cases p) (auto split: list.splits)

lemma Clean_element:
  assumes "slash \<notin> set p" "p \<noteq> []" "p \<noteq> [dot]" "p \<noteq> dotdot"
  shows "Clean p = p"
  using assms by (cases p) (auto simp: Clean_def IsAbs_def Split_no_slash clean_step_def)

section \<open>ValidatePath\<close>

datatype path_error = ErrDirectoryTraversal

definition ValidatePath :: "gostring \<Rightarrow> path_error + gostring" where
  "ValidatePath path =
     (let cleanedPath = Clean path in
      if IsAbs cleanedPath then Err ErrDirectoryTraversal
      else if dotdot \<in> set (Split cleanedPath) then Err ErrDirectoryTraversal
      else Ok cleanedPath)"

lemma ValidatePath_Ok:
  "ValidatePath p = Ok q \<Longrightarrow> q = Clean p \<and> \<not> IsAbs q \<and> dotdot \<notin> set (Split q)"
  by (auto simp: ValidatePath_def Let_def split: if_splits)

text \<open>
  A name that is its own base and passes the check is a single path element other than the parent
  directory, and is not changed by it.
\<close>

lemma validated_base_name:
  assumes "p = Base p" "ValidatePath p = Ok q"
  shows "q = p \<and> slash \<notin> set q \<and> q \<noteq> [] \<and> q \<noteq> dotdot"
proof -
  have ne: "p \<noteq> []" using assms(1) Base_nonempty by metis
  have "p \<noteq> [slash]"
    using ValidatePath_Ok [OF assms(2)] by (auto simp: Clean_def IsAbs_def clean_step_def)
  then have ns: "slash \<notin> set p" using assms(1) Base_no_slash by metis
  have "p \<noteq> dotdot"
    using ValidatePath_Ok [OF assms(2)] by (auto simp: Clean_def IsAbs_def clean_step_def)
  moreover have "Clean [dot] = [dot]" by (simp add: Clean_def IsAbs_def clean_step_def)
  ultimately have "Clean p = p" using Clean_element [OF ns ne] by (cases "p = [dot]") auto
  then show ?thesis using ValidatePath_Ok [OF assms(2)] ns ne \<open>p \<noteq> dotdot\<close> by simp
qed

end
