(* ===== verification/File_Transfer.thy ===== *)
theory File_Transfer
  imports Filepath
begin

text \<open>
  A single file transfer, \<^verbatim>\<open>file/transfer.go\<close>. The file system is explicit: files by name with their
  bytes, the names that are symbolic links, and handles that are a name and an offset. What the operating
  system answers (success, or an error after some bytes) and the clock are arguments. User callbacks are
  recorded in the order they are called. Transfer speed is floating point and left out.
\<close>

section \<open>Operating system files\<close>

record filesystem =
  files :: "(gostring, bytes) gomap"
  symlinks :: "gostring list"

record file_handle =
  h_name :: gostring
  h_pos :: nat

datatype file_error =
    TraversalError path_error
  | ErrChunkTooLarge
  | ErrFileNameTooLong
  | ErrTransferStalled
  | ErrFileCloseFailure nat
  | ErrTransferAlreadyFinished
  | ErrFileSizeTooLarge
  | CannotStartInState
  | SymlinkRefused
  | TransferNotRunning
  | TransferNotPaused
  | CannotWriteToOutgoing
  | CannotReadFromIncoming
  | ExceedsRemaining nat u64
  | FileHandleNil
  | EndOfFile
  | RollbackSeekFailed
  | TransferCancelledError
  | NotExist
  | OsError nat

datatype io_outcome = IoOk | IoFail nat

datatype write_outcome = WriteOk | WriteFail nat nat

definition os_Open :: "io_outcome \<Rightarrow> gostring \<Rightarrow> filesystem \<Rightarrow> file_error + file_handle" where
  "os_Open io name fs =
     (case io of
        IoFail e \<Rightarrow> Err (OsError e)
      | IoOk \<Rightarrow> (case mget (files fs) name of
          None \<Rightarrow> Err NotExist
        | Some _ \<Rightarrow> Ok \<lparr>h_name = name, h_pos = 0\<rparr>))"

text \<open>Opening with \<^verbatim>\<open>O_WRONLY|O_CREATE|O_TRUNC\<close>.\<close>

definition os_Create :: "io_outcome \<Rightarrow> gostring \<Rightarrow> filesystem \<Rightarrow> (file_error + file_handle) \<times> filesystem" where
  "os_Create io name fs =
     (case io of
        IoFail e \<Rightarrow> (Err (OsError e), fs)
      | IoOk \<Rightarrow> (Ok \<lparr>h_name = name, h_pos = 0\<rparr>, fs\<lparr>files := mput name [] (files fs)\<rparr>))"

definition content :: "filesystem \<Rightarrow> gostring \<Rightarrow> bytes" where
  "content fs name = (case mget (files fs) name of None \<Rightarrow> [] | Some c \<Rightarrow> c)"

definition overwrite :: "nat \<Rightarrow> bytes \<Rightarrow> bytes \<Rightarrow> bytes" where
  "overwrite pos data c = take pos (c @ replicate (pos - length c) 0) @ data @ drop (pos + length data) c"

definition os_Write ::
  "write_outcome \<Rightarrow> bytes \<Rightarrow> file_handle \<Rightarrow> filesystem \<Rightarrow> (file_error + file_handle) \<times> filesystem" where
  "os_Write w data h fs =
     (let put = (\<lambda>d. fs\<lparr>files := mput (h_name h) (overwrite (h_pos h) d (content fs (h_name h))) (files fs)\<rparr>)
      in case w of
           WriteOk \<Rightarrow> (Ok (h\<lparr>h_pos := h_pos h + length data\<rparr>), put data)
         | WriteFail n e \<Rightarrow> (Err (OsError e), put (take n data)))"

text \<open>A read of a regular file: as many bytes as asked for and left, end of file when none is left.\<close>

definition os_Read :: "io_outcome \<Rightarrow> nat \<Rightarrow> file_handle \<Rightarrow> filesystem \<Rightarrow> bytes \<times> file_error option \<times> file_handle" where
  "os_Read io sz h fs =
     (case io of
        IoFail e \<Rightarrow> ([], Some (OsError e), h)
      | IoOk \<Rightarrow>
          (let d = take sz (drop (h_pos h) (content fs (h_name h)))
           in if sz > 0 \<and> d = [] then ([], Some EndOfFile, h)
              else (d, None, h\<lparr>h_pos := h_pos h + length d\<rparr>)))"

definition os_SeekBack :: "io_outcome \<Rightarrow> nat \<Rightarrow> file_handle \<Rightarrow> file_error + file_handle" where
  "os_SeekBack io n h =
     (case io of
        IoFail e \<Rightarrow> Err (OsError e)
      | IoOk \<Rightarrow> if n > h_pos h then Err (OsError 22) else Ok (h\<lparr>h_pos := h_pos h - n\<rparr>))"

section \<open>The transfer\<close>

datatype TransferDirection = TransferDirectionIncoming | TransferDirectionOutgoing

datatype TransferState =
    TransferStatePending
  | TransferStateRunning
  | TransferStatePaused
  | TransferStateCompleted
  | TransferStateCancelled
  | TransferStateError

datatype callback =
    ProgressCall u64
  | CompleteCall "file_error option"
  | AckCall u64

definition ChunkSize :: nat where "ChunkSize = 1024"
definition MaxChunkSize :: nat where "MaxChunkSize = 65536"
abbreviation (input) MaxFileNameLength :: nat where "MaxFileNameLength \<equiv> 255"
abbreviation (input) MaxFileSize :: u64 where "MaxFileSize \<equiv> 10 * 1024 * 1024 * 1024"
abbreviation (input) DefaultStallTimeout :: int where "DefaultStallTimeout \<equiv> 30 * 10 ^ 9"

record Transfer =
  FriendID :: u32
  FileID :: u32
  Direction :: TransferDirection
  FileName :: gostring
  FileSize :: u64
  State :: TransferState
  StartTime :: int
  Transferred :: u64
  FileHandle :: "file_handle option"
  Error :: "file_error option"
  progressCallback :: bool
  completeCallback :: bool
  ackCallback :: bool
  lastChunkTime :: int
  stallTimeout :: int
  acknowledged :: u64
  calls :: "callback list"

definition NewTransfer :: "int \<Rightarrow> u32 \<Rightarrow> u32 \<Rightarrow> gostring \<Rightarrow> u64 \<Rightarrow> TransferDirection \<Rightarrow> Transfer" where
  "NewTransfer now friendID fileID fileName fileSize direction =
     \<lparr>FriendID = friendID, FileID = fileID, Direction = direction, FileName = fileName,
      FileSize = fileSize, State = TransferStatePending, StartTime = 0, Transferred = 0,
      FileHandle = None, Error = None, progressCallback = False, completeCallback = False,
      ackCallback = False, lastChunkTime = now, stallTimeout = DefaultStallTimeout, acknowledged = 0,
      calls = []\<rparr>"

definition SetTimeProvider :: "int \<Rightarrow> Transfer \<Rightarrow> Transfer" where
  "SetTimeProvider now t = t\<lparr>lastChunkTime := now\<rparr>"

definition GetState :: "Transfer \<Rightarrow> TransferState" where "GetState t = State t"

definition OnProgress :: "Transfer \<Rightarrow> Transfer" where "OnProgress t = t\<lparr>progressCallback := True\<rparr>"
definition OnComplete :: "Transfer \<Rightarrow> Transfer" where "OnComplete t = t\<lparr>completeCallback := True\<rparr>"
definition OnAcknowledge :: "Transfer \<Rightarrow> Transfer" where "OnAcknowledge t = t\<lparr>ackCallback := True\<rparr>"

definition call :: "bool \<Rightarrow> callback \<Rightarrow> Transfer \<Rightarrow> Transfer" where
  "call registered c t = (if registered then t\<lparr>calls := calls t @ [c]\<rparr> else t)"

definition failTransferLocked :: "file_error \<Rightarrow> Transfer \<Rightarrow> Transfer" where
  "failTransferLocked e t =
     (let t1 = t\<lparr>Error := Some e, State := TransferStateError\<rparr>
      in call (completeCallback t1) (CompleteCall (Some e)) t1)"

definition completeLocked :: "file_error option \<Rightarrow> Transfer \<Rightarrow> Transfer" where
  "completeLocked e t =
     (let t1 = t\<lparr>FileHandle := None\<rparr>;
          t2 = (case e of
                  Some x \<Rightarrow> t1\<lparr>State := TransferStateError, Error := Some x\<rparr>
                | None \<Rightarrow> t1\<lparr>State := TransferStateCompleted\<rparr>)
      in call (completeCallback t2) (CompleteCall e) t2)"

definition complete :: "file_error option \<Rightarrow> Transfer \<Rightarrow> Transfer" where
  "complete e t = completeLocked e t"

section \<open>Starting, pausing, cancelling\<close>

definition validateTransferState :: "Transfer \<Rightarrow> file_error + unit" where
  "validateTransferState t =
     (if State t \<noteq> TransferStatePending \<and> State t \<noteq> TransferStatePaused then Err CannotStartInState else Ok ())"

definition validateAndSanitizePath :: "Transfer \<Rightarrow> (file_error + unit) \<times> Transfer" where
  "validateAndSanitizePath t =
     (if Direction t = TransferDirectionOutgoing then (Ok (), t)
      else if FileName t \<noteq> Base (FileName t)
        then (Err (TraversalError ErrDirectoryTraversal),
              t\<lparr>Error := Some (TraversalError ErrDirectoryTraversal), State := TransferStateError\<rparr>)
      else (case ValidatePath (FileName t) of
              Inl e \<Rightarrow> (Err (TraversalError e), t\<lparr>Error := Some (TraversalError e), State := TransferStateError\<rparr>)
            | Inr safePath \<Rightarrow> (Ok (), t\<lparr>FileName := safePath\<rparr>)))"

definition openTransferFile :: "io_outcome \<Rightarrow> Transfer \<times> filesystem \<Rightarrow> (file_error + unit) \<times> Transfer \<times> filesystem" where
  "openTransferFile io = (\<lambda>(t, fs).
     let fail = (\<lambda>e fs'. (Err e, t\<lparr>FileHandle := None, Error := Some e, State := TransferStateError\<rparr>, fs'))
     in if Direction t = TransferDirectionOutgoing then
          (case os_Open io (FileName t) fs of
             Inl e \<Rightarrow> fail e fs
           | Inr h \<Rightarrow> (Ok (), t\<lparr>FileHandle := Some h\<rparr>, fs))
        else if FileName t \<in> set (symlinks fs) then (Err SymlinkRefused, t, fs)
        else (case os_Create io (FileName t) fs of
             (Inl e, fs1) \<Rightarrow> fail e fs1
           | (Inr h, fs1) \<Rightarrow> (Ok (), t\<lparr>FileHandle := Some h\<rparr>, fs1)))"

definition finalizeTransferStart :: "int \<Rightarrow> Transfer \<Rightarrow> Transfer" where
  "finalizeTransferStart now t = t\<lparr>State := TransferStateRunning, StartTime := now\<rparr>"

definition Start :: "int \<Rightarrow> io_outcome \<Rightarrow> Transfer \<times> filesystem \<Rightarrow> (file_error + unit) \<times> Transfer \<times> filesystem" where
  "Start now io = (\<lambda>(t, fs).
     case validateTransferState t of
       Inl e \<Rightarrow> (Err e, t, fs)
     | Inr _ \<Rightarrow>
         (case validateAndSanitizePath t of
            (Inl e, t1) \<Rightarrow> (Err e, t1, fs)
          | (Inr _, t1) \<Rightarrow>
              (case openTransferFile io (t1, fs) of
                 (Inl e, t2, fs2) \<Rightarrow> (Err e, t2, fs2)
               | (Inr _, t2, fs2) \<Rightarrow> (Ok (), finalizeTransferStart now t2, fs2))))"

definition Pause :: "Transfer \<Rightarrow> (file_error + unit) \<times> Transfer" where
  "Pause t =
     (if State t \<noteq> TransferStateRunning then (Err TransferNotRunning, t)
      else (Ok (), t\<lparr>State := TransferStatePaused\<rparr>))"

definition Resume :: "Transfer \<Rightarrow> (file_error + unit) \<times> Transfer" where
  "Resume t =
     (if State t \<noteq> TransferStatePaused then (Err TransferNotPaused, t)
      else (Ok (), t\<lparr>State := TransferStateRunning\<rparr>))"

definition Cancel :: "io_outcome \<Rightarrow> Transfer \<Rightarrow> (file_error + unit) \<times> Transfer" where
  "Cancel io t =
     (if State t = TransferStateCompleted \<or> State t = TransferStateCancelled
      then (Err ErrTransferAlreadyFinished, t)
      else
        let closeErr = (if FileHandle t = None then None else case io of IoOk \<Rightarrow> None | IoFail e \<Rightarrow> Some e);
            t1 = t\<lparr>FileHandle := None, State := TransferStateCancelled\<rparr>;
            t2 = call (completeCallback t1) (CompleteCall (Some TransferCancelledError)) t1
        in case closeErr of
             Some e \<Rightarrow> (Err (ErrFileCloseFailure e), t2)
           | None \<Rightarrow> (Ok (), t2))"

section \<open>Chunks\<close>

definition updateTransferSpeed :: "int \<Rightarrow> Transfer \<Rightarrow> Transfer" where
  "updateTransferSpeed now t = t\<lparr>lastChunkTime := now\<rparr>"

definition recordTransferredBytes :: "int \<Rightarrow> u64 \<Rightarrow> Transfer \<Rightarrow> Transfer" where
  "recordTransferredBytes now bytesTransferred t =
     (let t1 = updateTransferSpeed now (t\<lparr>Transferred := Transferred t + bytesTransferred\<rparr>)
      in call (progressCallback t1) (ProgressCall (Transferred t1)) t1)"

definition updateWriteProgress :: "int \<Rightarrow> bytes \<Rightarrow> Transfer \<Rightarrow> Transfer" where
  "updateWriteProgress now data t = recordTransferredBytes now (of_nat (length data)) t"

definition checkTransferCompletion :: "Transfer \<Rightarrow> Transfer" where
  "checkTransferCompletion t =
     (if State t = TransferStateRunning \<and> Transferred t \<ge> FileSize t then completeLocked None t else t)"

definition validateWriteRequest :: "Transfer \<Rightarrow> file_error + unit" where
  "validateWriteRequest t =
     (if Direction t \<noteq> TransferDirectionIncoming then Err CannotWriteToOutgoing
      else if State t \<noteq> TransferStateRunning then Err TransferNotRunning
      else Ok ())"

definition writeDataToFile ::
  "write_outcome \<Rightarrow> bytes \<Rightarrow> Transfer \<times> filesystem \<Rightarrow> (file_error + unit) \<times> Transfer \<times> filesystem" where
  "writeDataToFile w data = (\<lambda>(t, fs).
     case FileHandle t of
       None \<Rightarrow> (Err FileHandleNil, failTransferLocked FileHandleNil t, fs)
     | Some h \<Rightarrow>
         (case os_Write w data h fs of
            (Inl e, fs1) \<Rightarrow> (Err e, failTransferLocked e (t\<lparr>FileHandle := None\<rparr>), fs1)
          | (Inr h1, fs1) \<Rightarrow> (Ok (), t\<lparr>FileHandle := Some h1\<rparr>, fs1)))"

definition WriteChunk ::
  "int \<Rightarrow> write_outcome \<Rightarrow> bytes \<Rightarrow> Transfer \<times> filesystem \<Rightarrow> (file_error + unit) \<times> Transfer \<times> filesystem" where
  "WriteChunk now w data = (\<lambda>(t, fs).
     if length data > MaxChunkSize then (Err ErrChunkTooLarge, t, fs)
     else case validateWriteRequest t of
       Inl e \<Rightarrow> (Err e, t, fs)
     | Inr _ \<Rightarrow>
         (let remaining = FileSize t - Transferred t
          in if of_nat (length data) > remaining then (Err (ExceedsRemaining (length data) remaining), t, fs)
             else case writeDataToFile w data (t, fs) of
               (Inl e, t1, fs1) \<Rightarrow> (Err e, t1, fs1)
             | (Inr _, t1, fs1) \<Rightarrow> (Ok (), checkTransferCompletion (updateWriteProgress now data t1), fs1)))"

definition validateReadRequest :: "Transfer \<Rightarrow> file_error + unit" where
  "validateReadRequest t =
     (if Direction t \<noteq> TransferDirectionOutgoing then Err CannotReadFromIncoming
      else if State t \<noteq> TransferStateRunning then Err TransferNotRunning
      else Ok ())"

definition readFileChunk ::
  "io_outcome \<Rightarrow> u16 \<Rightarrow> Transfer \<times> filesystem \<Rightarrow> bytes \<times> file_error option \<times> Transfer" where
  "readFileChunk io sz = (\<lambda>(t, fs).
     case FileHandle t of
       None \<Rightarrow> ([], Some FileHandleNil, t)
     | Some h \<Rightarrow>
         (case os_Read io (unat sz) h fs of
            (d, e, h1) \<Rightarrow> (d, e, t\<lparr>FileHandle := Some h1\<rparr>)))"

definition handleEOF :: "bytes \<Rightarrow> Transfer \<Rightarrow> (file_error + bytes) \<times> Transfer" where
  "handleEOF chunk t =
     (let t1 = (if Transferred t + of_nat (length chunk) \<ge> FileSize t then completeLocked None t else t)
      in if chunk = [] then (Err EndOfFile, t1) else (Ok chunk, t1))"

definition handleReadError :: "file_error \<Rightarrow> bytes \<Rightarrow> Transfer \<Rightarrow> (file_error + bytes) \<times> Transfer" where
  "handleReadError e chunk t =
     (if e = EndOfFile then handleEOF chunk t else (Err e, failTransferLocked e t))"

definition ReadChunk ::
  "int \<Rightarrow> io_outcome \<Rightarrow> u16 \<Rightarrow> Transfer \<times> filesystem \<Rightarrow> (file_error + bytes) \<times> Transfer" where
  "ReadChunk now io sz = (\<lambda>(t, fs).
     if unat sz > MaxChunkSize then (Err ErrChunkTooLarge, t)
     else case validateReadRequest t of
       Inl e \<Rightarrow> (Err e, t)
     | Inr _ \<Rightarrow>
         (case readFileChunk io sz (t, fs) of
            (chunk, Some e, t1) \<Rightarrow> handleReadError e chunk t1
          | (chunk, None, t1) \<Rightarrow> (Ok chunk, recordTransferredBytes now (of_nat (length chunk)) t1)))"

definition RollbackChunk :: "io_outcome \<Rightarrow> int \<Rightarrow> Transfer \<Rightarrow> (file_error + unit) \<times> Transfer" where
  "RollbackChunk io n t =
     (if n \<le> 0 then (Ok (), t)
      else case FileHandle t of
        None \<Rightarrow> (Ok (), t)
      | Some h \<Rightarrow>
          (case os_SeekBack io (nat n) h of
             Inl _ \<Rightarrow> (Err RollbackSeekFailed, t)
           | Inr h1 \<Rightarrow>
               (let t1 = t\<lparr>FileHandle := Some h1\<rparr>
                in (Ok (), if of_int n > Transferred t1 then t1\<lparr>Transferred := 0\<rparr>
                           else t1\<lparr>Transferred := Transferred t1 - of_int n\<rparr>))))"

section \<open>Timeouts and acknowledgements\<close>

definition SetStallTimeout :: "int \<Rightarrow> Transfer \<Rightarrow> Transfer" where
  "SetStallTimeout timeout t = t\<lparr>stallTimeout := timeout\<rparr>"

definition GetStallTimeout :: "Transfer \<Rightarrow> int" where "GetStallTimeout t = stallTimeout t"

definition detectStallLocked :: "int \<Rightarrow> Transfer \<Rightarrow> int \<times> bool" where
  "detectStallLocked now t =
     (if stallTimeout t = 0 \<or> State t \<noteq> TransferStateRunning then (0, False)
      else (now - lastChunkTime t, now - lastChunkTime t \<ge> stallTimeout t))"

definition IsStalled :: "int \<Rightarrow> Transfer \<Rightarrow> bool" where "IsStalled now t = snd (detectStallLocked now t)"

definition CheckTimeout :: "int \<Rightarrow> Transfer \<Rightarrow> (file_error + unit) \<times> Transfer" where
  "CheckTimeout now t =
     (if \<not> snd (detectStallLocked now t) then (Ok (), t)
      else (Err ErrTransferStalled, failTransferLocked ErrTransferStalled t))"

definition GetTimeSinceLastChunk :: "int \<Rightarrow> Transfer \<Rightarrow> int" where
  "GetTimeSinceLastChunk now t = now - lastChunkTime t"

definition SetAcknowledgedBytes :: "u64 \<Rightarrow> Transfer \<Rightarrow> Transfer" where
  "SetAcknowledgedBytes b t =
     (let maxACK = (if FileSize t < Transferred t then FileSize t else Transferred t)
      in if b > maxACK then t
         else if b < acknowledged t then t
         else (let t1 = t\<lparr>acknowledged := b\<rparr> in call (ackCallback t1) (AckCall b) t1))"

definition GetAcknowledgedBytes :: "Transfer \<Rightarrow> u64" where "GetAcknowledgedBytes t = acknowledged t"

definition GetPendingBytes :: "Transfer \<Rightarrow> u64" where
  "GetPendingBytes t = (if Transferred t > acknowledged t then Transferred t - acknowledged t else 0)"

definition GetTransferred :: "Transfer \<Rightarrow> u64" where "GetTransferred t = Transferred t"

definition SetTransferred :: "u64 \<Rightarrow> Transfer \<Rightarrow> Transfer" where
  "SetTransferred n t = t\<lparr>Transferred := (if n > FileSize t then FileSize t else n)\<rparr>"

end
