(* ===== verification/File_Manager.thy ===== *)
theory File_Manager
  imports File_Transfer
begin

text \<open>
  The file transfer manager, \<^verbatim>\<open>file/manager.go\<close>: the packet formats, the table of transfers and the
  packet handlers. Transfers live in the table; the address resolver and the friend lookup are the
  functions an application installs. The transport's answer to a send is an argument, and what the
  manager sends or reports upwards is returned as a list of outputs.
\<close>

type_synonym net_addr = gostring
type_synonym transferKey = "u32 \<times> u32"

datatype file_packet_type = PacketFileRequest | PacketFileControl | PacketFileData | PacketFileDataAck

datatype mgr_output =
    SentPacket file_packet_type bytes net_addr
  | FileRecvCall u32 u32 u32 u64 gostring
  | FileRecvChunkCall u32 u32 u64 bytes
  | FileChunkRequestCall u32 u32 u64 nat

datatype manager_error =
    TransferError file_error
  | LookupNotConfigured
  | AddressNotResolved u32
  | FileNameTooLong
  | TransferExists u32 u32
  | SendFailed
  | TransferNotFound u32 u32
  | ReadChunkFailed file_error
  | RequestTooShort
  | RequestSizeTooLarge
  | RequestTruncated
  | ControlTooShort
  | UnknownControl byte
  | DataTooShort
  | PositionMismatch u64 u64
  | AckTooShort

section \<open>Packet formats\<close>

definition serializeFileRequest :: "u32 \<Rightarrow> gostring \<Rightarrow> u64 \<Rightarrow> bytes" where
  "serializeFileRequest fileID fileName fileSize =
     PutUint32 fileID @ PutUint64 fileSize @ PutUint16 (of_nat (length fileName)) @ fileName"

definition deserializeFileRequest :: "bytes \<Rightarrow> manager_error + u32 \<times> gostring \<times> u64" where
  "deserializeFileRequest data =
     (if length data < 14 then Err RequestTooShort
      else
        let fileID = Uint32 (slice 0 4 data);
            fileSize = Uint64 (slice 4 12 data);
            nameLen = unat (Uint16 (slice 12 14 data))
        in if fileSize > MaxFileSize then Err RequestSizeTooLarge
           else if nameLen > MaxFileNameLength then Err FileNameTooLong
           else if length data < 14 + nameLen then Err RequestTruncated
           else
             let rawName = slice 14 (14 + nameLen) data;
                 fileName = (if rawName \<noteq> [] then Base rawName else [])
             in Ok (fileID, fileName, fileSize))"

definition serializeFileData :: "u32 \<Rightarrow> u64 \<Rightarrow> bytes \<Rightarrow> bytes" where
  "serializeFileData fileID position chunk = PutUint32 fileID @ PutUint64 position @ chunk"

definition deserializeFileData :: "bytes \<Rightarrow> manager_error + u32 \<times> u64 \<times> bytes" where
  "deserializeFileData data =
     (if length data < 12 then Err DataTooShort
      else Ok (Uint32 (slice 0 4 data), Uint64 (slice 4 12 data), drop 12 data))"

definition serializeFileDataAck :: "u32 \<Rightarrow> u64 \<Rightarrow> bytes" where
  "serializeFileDataAck fileID bytesReceived = PutUint32 fileID @ PutUint64 bytesReceived"

section \<open>The manager\<close>

record Manager =
  transport :: bool
  transfers :: "(transferKey, Transfer) gomap"
  addressResolver :: "(net_addr \<Rightarrow> u32 option) option"
  friendAddressLookup :: "(u32 \<Rightarrow> net_addr option) option"
  fileRecvCallback :: bool
  fileRecvChunkCallback :: bool
  fileChunkRequestCallback :: bool

type_synonym mstate = "Manager \<times> filesystem"

definition NewManager :: "bool \<Rightarrow> Manager" where
  "NewManager t =
     \<lparr>transport = t, transfers = [], addressResolver = None, friendAddressLookup = None,
      fileRecvCallback = False, fileRecvChunkCallback = False, fileChunkRequestCallback = False\<rparr>"

definition SetAddressResolver :: "(net_addr \<Rightarrow> u32 option) \<Rightarrow> Manager \<Rightarrow> Manager" where
  "SetAddressResolver resolver m = m\<lparr>addressResolver := Some resolver\<rparr>"

definition SetFriendAddressLookup :: "(u32 \<Rightarrow> net_addr option) \<Rightarrow> Manager \<Rightarrow> Manager" where
  "SetFriendAddressLookup f m = m\<lparr>friendAddressLookup := Some f\<rparr>"

definition SetFileRecvCallback :: "Manager \<Rightarrow> Manager" where
  "SetFileRecvCallback m = m\<lparr>fileRecvCallback := True\<rparr>"

definition SetFileRecvChunkCallback :: "Manager \<Rightarrow> Manager" where
  "SetFileRecvChunkCallback m = m\<lparr>fileRecvChunkCallback := True\<rparr>"

definition SetFileChunkRequestCallback :: "Manager \<Rightarrow> Manager" where
  "SetFileChunkRequestCallback m = m\<lparr>fileChunkRequestCallback := True\<rparr>"

definition resolveFriendIDFromAddr :: "Manager \<Rightarrow> net_addr \<Rightarrow> u32 \<Rightarrow> u32" where
  "resolveFriendIDFromAddr m addr fallback =
     (case addressResolver m of
        None \<Rightarrow> fallback
      | Some resolver \<Rightarrow> (case resolver addr of None \<Rightarrow> fallback | Some friendID \<Rightarrow> friendID))"

definition SendFile ::
  "int \<Rightarrow> bool \<Rightarrow> u32 \<Rightarrow> u32 \<Rightarrow> gostring \<Rightarrow> u64 \<Rightarrow> net_addr \<Rightarrow> Manager \<Rightarrow>
   (manager_error + Transfer) \<times> Manager \<times> mgr_output list" where
  "SendFile now sendOk friendID fileID fileName fileSize addr m =
     (if length fileName > MaxFileNameLength then (Err FileNameTooLong, m, [])
      else
        let key = (friendID, fileID) in
        case mget (transfers m) key of
          Some _ \<Rightarrow> (Err (TransferExists friendID fileID), m, [])
        | None \<Rightarrow>
            let transfer = NewTransfer now friendID fileID fileName fileSize TransferDirectionOutgoing;
                m1 = m\<lparr>transfers := mput key transfer (transfers m)\<rparr>
            in if transport m1 then
                 (if sendOk
                  then (Ok transfer, m1, [SentPacket PacketFileRequest (serializeFileRequest fileID fileName fileSize) addr])
                  else (Err SendFailed, m1\<lparr>transfers := mdel key (transfers m1)\<rparr>, []))
               else (Ok transfer, m1, []))"

definition SendFileToFriend ::
  "int \<Rightarrow> bool \<Rightarrow> u32 \<Rightarrow> u32 \<Rightarrow> gostring \<Rightarrow> u64 \<Rightarrow> Manager \<Rightarrow>
   (manager_error + Transfer) \<times> Manager \<times> mgr_output list" where
  "SendFileToFriend now sendOk friendID fileID fileName fileSize m =
     (case friendAddressLookup m of
        None \<Rightarrow> (Err LookupNotConfigured, m, [])
      | Some f \<Rightarrow>
          (case f friendID of
             None \<Rightarrow> (Err (AddressNotResolved friendID), m, [])
           | Some addr \<Rightarrow> SendFile now sendOk friendID fileID fileName fileSize addr m))"

definition GetTransfer :: "u32 \<Rightarrow> u32 \<Rightarrow> Manager \<Rightarrow> manager_error + Transfer" where
  "GetTransfer friendID fileID m =
     (case mget (transfers m) (friendID, fileID) of
        None \<Rightarrow> Err (TransferNotFound friendID fileID)
      | Some t \<Rightarrow> Ok t)"

text \<open>The transfer the table points to has changed.\<close>

definition putTransfer :: "u32 \<Rightarrow> u32 \<Rightarrow> Transfer \<Rightarrow> Manager \<Rightarrow> Manager" where
  "putTransfer friendID fileID t m = m\<lparr>transfers := mput (friendID, fileID) t (transfers m)\<rparr>"

text \<open>The count of removed transfers, and the removed transfers as their holders see them afterwards.\<close>

definition CancelTransfersForFriend :: "io_outcome \<Rightarrow> u32 \<Rightarrow> Manager \<Rightarrow> nat \<times> Transfer list \<times> Manager" where
  "CancelTransfersForFriend io friendID m =
     (let mine = filter (\<lambda>(k, t). fst k = friendID) (transfers m);
          cancelled = map (\<lambda>(k, t). snd (Cancel io t)) mine
      in (length mine, cancelled, m\<lparr>transfers := fold (\<lambda>(k, t). mdel k) mine (transfers m)\<rparr>))"

definition SendChunk ::
  "int \<Rightarrow> io_outcome \<Rightarrow> bool \<Rightarrow> io_outcome \<Rightarrow> u32 \<Rightarrow> u32 \<Rightarrow> net_addr \<Rightarrow> mstate \<Rightarrow>
   (manager_error + unit) \<times> mstate \<times> mgr_output list" where
  "SendChunk now io sendOk seekIo friendID fileID addr = (\<lambda>(m, fs).
     case GetTransfer friendID fileID m of
       Inl e \<Rightarrow> (Err e, (m, fs), [])
     | Inr t \<Rightarrow>
         (let position = GetTransferred t in
          case ReadChunk now io (of_nat ChunkSize) (t, fs) of
            (Inl e, t1) \<Rightarrow> (Err (ReadChunkFailed e), (putTransfer friendID fileID t1 m, fs), [])
          | (Inr chunk, t1) \<Rightarrow>
              (if transport m then
                 (if sendOk
                  then (Ok (), (putTransfer friendID fileID t1 m, fs),
                        [SentPacket PacketFileData (serializeFileData fileID position chunk) addr])
                  else (Err SendFailed,
                        (putTransfer friendID fileID (snd (RollbackChunk seekIo (int (length chunk)) t1)) m, fs), []))
               else (Ok (), (putTransfer friendID fileID t1 m, fs), []))))"

section \<open>Packet handlers\<close>

text \<open>The new manager, and the transfer it replaced as its holders see it afterwards.\<close>

definition storeIncomingTransfer ::
  "io_outcome \<Rightarrow> u32 \<Rightarrow> u32 \<Rightarrow> Transfer \<Rightarrow> Manager \<Rightarrow> Transfer option \<times> Manager" where
  "storeIncomingTransfer io friendID fileID t m =
     (let oldTransfer = mget (transfers m) (friendID, fileID)
      in (map_option (\<lambda>old. snd (Cancel io old)) oldTransfer, putTransfer friendID fileID t m))"

definition notifyIncomingFileRequest :: "u32 \<Rightarrow> u32 \<Rightarrow> u64 \<Rightarrow> gostring \<Rightarrow> Manager \<Rightarrow> mgr_output list" where
  "notifyIncomingFileRequest friendID fileID fileSize fileName m =
     (if fileRecvCallback m then [FileRecvCall friendID fileID 0 fileSize fileName] else [])"

definition handleFileRequest ::
  "int \<Rightarrow> io_outcome \<Rightarrow> bytes \<Rightarrow> net_addr \<Rightarrow> Manager \<Rightarrow>
   (manager_error + unit) \<times> Manager \<times> Transfer option \<times> mgr_output list" where
  "handleFileRequest now io data addr m =
     (case deserializeFileRequest data of
        Inl e \<Rightarrow> (Err e, m, None, [])
      | Inr (fileID, fileName, fileSize) \<Rightarrow>
          let friendID = resolveFriendIDFromAddr m addr fileID;
              t = NewTransfer now friendID fileID fileName fileSize TransferDirectionIncoming;
              (old, m1) = storeIncomingTransfer io friendID fileID t m
          in (Ok (), m1, old, notifyIncomingFileRequest friendID fileID fileSize fileName m1))"

definition liftT :: "(file_error + 'a) \<Rightarrow> manager_error + 'a" where
  "liftT r = (case r of Inl e \<Rightarrow> Err (TransferError e) | Inr a \<Rightarrow> Ok a)"

definition handleFileControl ::
  "io_outcome \<Rightarrow> bytes \<Rightarrow> net_addr \<Rightarrow> Manager \<Rightarrow> (manager_error + unit) \<times> Manager" where
  "handleFileControl io data addr m =
     (if length data < 5 then (Err ControlTooShort, m)
      else
        let fileID = Uint32 (slice 0 4 data);
            controlType = data ! 4;
            friendID = resolveFriendIDFromAddr m addr fileID
        in case GetTransfer friendID fileID m of
          Inl e \<Rightarrow> (Err e, m)
        | Inr t \<Rightarrow>
            let finish = (\<lambda>(r, t1). (liftT r, putTransfer friendID fileID t1 m))
            in if controlType = 1 then finish (Pause t)
               else if controlType = 2 then finish (Resume t)
               else if controlType = 3 then finish (Cancel io t)
               else (Err (UnknownControl controlType), m))"

definition validateChunkPosition :: "Transfer \<Rightarrow> u64 \<Rightarrow> manager_error + unit" where
  "validateChunkPosition t position =
     (let expected = GetTransferred t
      in if position \<noteq> expected then Err (PositionMismatch position expected) else Ok ())"

definition writeChunkToTransfer ::
  "int \<Rightarrow> write_outcome \<Rightarrow> bytes \<Rightarrow> Transfer \<times> filesystem \<Rightarrow> (manager_error + unit) \<times> Transfer \<times> filesystem" where
  "writeChunkToTransfer now w chunk s = (case WriteChunk now w chunk s of (r, s1) \<Rightarrow> (liftT r, s1))"

definition invokeRecvChunkCallback :: "u32 \<Rightarrow> u32 \<Rightarrow> u64 \<Rightarrow> bytes \<Rightarrow> Manager \<Rightarrow> mgr_output list" where
  "invokeRecvChunkCallback friendID fileID position chunk m =
     (if fileRecvChunkCallback m then [FileRecvChunkCall friendID fileID position chunk] else [])"

definition sendDataAck :: "bool \<Rightarrow> net_addr \<Rightarrow> u32 \<Rightarrow> u64 \<Rightarrow> Manager \<Rightarrow> (manager_error + unit) \<times> mgr_output list" where
  "sendDataAck sendOk addr fileID transferred m =
     (if \<not> transport m then (Ok (), [])
      else if sendOk then (Ok (), [SentPacket PacketFileDataAck (serializeFileDataAck fileID transferred) addr])
      else (Err SendFailed, []))"

definition handleFileData ::
  "int \<Rightarrow> write_outcome \<Rightarrow> bool \<Rightarrow> bytes \<Rightarrow> net_addr \<Rightarrow> mstate \<Rightarrow>
   (manager_error + unit) \<times> mstate \<times> mgr_output list" where
  "handleFileData now w sendOk data addr = (\<lambda>(m, fs).
     case deserializeFileData data of
       Inl e \<Rightarrow> (Err e, (m, fs), [])
     | Inr (fileID, position, chunk) \<Rightarrow>
         (let friendID = resolveFriendIDFromAddr m addr fileID in
          case GetTransfer friendID fileID m of
            Inl e \<Rightarrow> (Err e, (m, fs), [])
          | Inr t \<Rightarrow>
              (case validateChunkPosition t position of
                 Inl e \<Rightarrow> (Err e, (m, fs), [])
               | Inr _ \<Rightarrow>
                   (case writeChunkToTransfer now w chunk (t, fs) of
                      (Inl e, t1, fs1) \<Rightarrow> (Err e, (putTransfer friendID fileID t1 m, fs1), [])
                    | (Inr _, t1, fs1) \<Rightarrow>
                        (let m1 = putTransfer friendID fileID t1 m;
                             (r, outs) = sendDataAck sendOk addr fileID (GetTransferred t1) m1
                         in (r, (m1, fs1), invokeRecvChunkCallback friendID fileID position chunk m1 @ outs))))))"

definition handleFileDataAck :: "bytes \<Rightarrow> net_addr \<Rightarrow> Manager \<Rightarrow> (manager_error + unit) \<times> Manager \<times> mgr_output list" where
  "handleFileDataAck data addr m =
     (if length data < 12 then (Err AckTooShort, m, [])
      else
        let fileID = Uint32 (slice 0 4 data);
            bytesReceived = Uint64 (slice 4 12 data);
            friendID = resolveFriendIDFromAddr m addr fileID
        in case GetTransfer friendID fileID m of
          Inl e \<Rightarrow> (Err e, m, [])
        | Inr t \<Rightarrow>
            let t1 = SetAcknowledgedBytes bytesReceived t
            in (Ok (), putTransfer friendID fileID t1 m,
                if bytesReceived < FileSize t1 \<and> fileChunkRequestCallback m
                then [FileChunkRequestCall friendID fileID bytesReceived ChunkSize] else []))"

end
