(* ===== verification/File_Properties.thy ===== *)
theory File_Properties
  imports File_Manager
begin

text \<open>
  The properties of file transfers: path safety of incoming files, integrity of a received file over
  every run of operations, finality of finished transfers, acknowledgement bounds, packet round trips and
  the delivery of a whole file from a sending to a receiving manager.
\<close>

section \<open>Starting\<close>

text \<open>What a successful start of an incoming transfer did, and when it succeeds.\<close>

lemma Start_incoming_Ok:
  assumes "Start now io (t, fs) = (Ok (), t', fs')" and "Direction t = TransferDirectionIncoming"
  shows "FileName t = Base (FileName t)" "ValidatePath (FileName t) = Ok (FileName t)"
    "State t = TransferStatePending \<or> State t = TransferStatePaused" "FileName t \<notin> set (symlinks fs)"
    "t' = t\<lparr>FileHandle := Some \<lparr>h_name = FileName t, h_pos = 0\<rparr>, State := TransferStateRunning, StartTime := now\<rparr>"
    "fs' = fs\<lparr>files := mput (FileName t) [] (files fs)\<rparr>"
proof -
  obtain q where v: "FileName t = Base (FileName t)" "ValidatePath (FileName t) = Ok q"
    using assms by (auto simp: Start_def validateAndSanitizePath_def split: if_splits sum.splits prod.splits)
  then have "q = FileName t" using validated_base_name by blast
  then have p: "validateAndSanitizePath t = (Ok (), t)"
    using v assms(2) by (simp add: validateAndSanitizePath_def)
  show "FileName t = Base (FileName t)" "ValidatePath (FileName t) = Ok (FileName t)"
    using v \<open>q = FileName t\<close> by simp_all
  show "State t = TransferStatePending \<or> State t = TransferStatePaused" "FileName t \<notin> set (symlinks fs)"
    "t' = t\<lparr>FileHandle := Some \<lparr>h_name = FileName t, h_pos = 0\<rparr>, State := TransferStateRunning, StartTime := now\<rparr>"
    "fs' = fs\<lparr>files := mput (FileName t) [] (files fs)\<rparr>"
    using assms p
    by (auto simp: Start_def validateTransferState_def openTransferFile_def os_Create_def Let_def
        finalizeTransferStart_def split: if_splits io_outcome.splits)
qed

lemma Start_incoming:
  assumes "Direction t = TransferDirectionIncoming" "FileName t = Base (FileName t)"
    "ValidatePath (FileName t) = Ok (FileName t)" "FileName t \<notin> set (symlinks fs)"
    "State t = TransferStatePending \<or> State t = TransferStatePaused"
  shows "Start now IoOk (t, fs) =
    (Ok (), t\<lparr>FileHandle := Some \<lparr>h_name = FileName t, h_pos = 0\<rparr>, State := TransferStateRunning, StartTime := now\<rparr>,
     fs\<lparr>files := mput (FileName t) [] (files fs)\<rparr>)"
proof -
  have "validateAndSanitizePath t = (Ok (), t)"
    using assms(1-3) by (simp add: validateAndSanitizePath_def)
  moreover have "validateTransferState t = Ok ()" using assms(5) by (auto simp: validateTransferState_def)
  ultimately show ?thesis
    using assms(1,4) by (simp add: Start_def openTransferFile_def os_Create_def finalizeTransferStart_def)
qed

text \<open>
  C17. A started incoming transfer writes to a single path element that is neither empty nor the parent
  directory, and starting it creates that file empty and touches no other file.
\<close>

theorem incoming_path_safe:
  assumes "Start now io (t, fs) = (Ok (), t', fs')" and "Direction t = TransferDirectionIncoming"
  shows "slash \<notin> set (FileName t') \<and> FileName t' \<noteq> [] \<and> FileName t' \<noteq> dotdot \<and> FileName t' = FileName t \<and>
    FileName t' \<notin> set (symlinks fs) \<and> content fs' (FileName t') = [] \<and>
    (\<forall>p. p \<noteq> FileName t' \<longrightarrow> mget (files fs') p = mget (files fs) p)"
proof -
  note st = Start_incoming_Ok [OF assms]
  have "slash \<notin> set (FileName t) \<and> FileName t \<noteq> [] \<and> FileName t \<noteq> dotdot"
    using validated_base_name [OF st(1,2)] by simp
  then show ?thesis using st(4) by (simp add: st(5,6) content_def dict_simps)
qed

definition sample_name :: gostring where "sample_name = [97, 46, 98]"

definition sample_transfer :: Transfer where
  "sample_transfer = NewTransfer 0 1 2 sample_name 3 TransferDirectionIncoming"

definition empty_fs :: filesystem where "empty_fs = \<lparr>files = [], symlinks = []\<rparr>"

lemma sample_start:
  "Start 5 IoOk (sample_transfer, empty_fs) =
     (Ok (), sample_transfer\<lparr>FileHandle := Some \<lparr>h_name = sample_name, h_pos = 0\<rparr>, State := TransferStateRunning, StartTime := 5\<rparr>,
      \<lparr>files = [(sample_name, [])], symlinks = []\<rparr>)"
proof -
  have "sample_name = Base sample_name" "ValidatePath sample_name = Ok sample_name" by code_simp+
  then show ?thesis
    using Start_incoming [of sample_transfer empty_fs 5]
    by (simp add: sample_transfer_def NewTransfer_def empty_fs_def mput_def mdel_def)
qed

theorem incoming_path_safe_witness:
  "\<exists>t' fs'. Start 5 IoOk (sample_transfer, empty_fs) = (Ok (), t', fs') \<and> slash \<notin> set (FileName t') \<and>
     content fs' (FileName t') = []"
  using incoming_path_safe [OF sample_start] sample_start
  by (auto simp: sample_transfer_def NewTransfer_def)

section \<open>Receiving\<close>

text \<open>
  A running incoming transfer under every sequence of operations, together with the bytes of the chunks
  that were accepted.
\<close>

datatype recv_op =
    RecvWrite int write_outcome bytes
  | RecvPause
  | RecvResume
  | RecvCancel io_outcome
  | RecvCheckTimeout int
  | RecvAck u64

type_synonym recv_state = "Transfer \<times> filesystem \<times> bytes"

fun recv_step :: "recv_op \<Rightarrow> recv_state \<Rightarrow> recv_state" where
  "recv_step (RecvWrite now w d) (t, fs, got) =
     (case WriteChunk now w d (t, fs) of
        (Inl _, t1, fs1) \<Rightarrow> (t1, fs1, got)
      | (Inr _, t1, fs1) \<Rightarrow> (t1, fs1, got @ d))"
| "recv_step RecvPause (t, fs, got) = (snd (Pause t), fs, got)"
| "recv_step RecvResume (t, fs, got) = (snd (Resume t), fs, got)"
| "recv_step (RecvCancel io) (t, fs, got) = (snd (Cancel io t), fs, got)"
| "recv_step (RecvCheckTimeout now) (t, fs, got) = (snd (CheckTimeout now t), fs, got)"
| "recv_step (RecvAck b) (t, fs, got) = (SetAcknowledgedBytes b t, fs, got)"

definition recv_inv :: "recv_state \<Rightarrow> bool" where
  "recv_inv = (\<lambda>(t, fs, got).
     Direction t = TransferDirectionIncoming \<and> unat (Transferred t) = length got \<and>
     Transferred t \<le> FileSize t \<and> take (length got) (content fs (FileName t)) = got \<and>
     (\<forall>h. FileHandle t = Some h \<longrightarrow> h_name h = FileName t \<and> h_pos h = length got \<and> content fs (FileName t) = got) \<and>
     (State t = TransferStateRunning \<or> State t = TransferStatePaused \<longrightarrow> FileHandle t \<noteq> None) \<and>
     (State t = TransferStateCompleted \<longrightarrow> content fs (FileName t) = got \<and> Transferred t = FileSize t))"

lemma call_fields [simp]:
  "Direction (call b c t) = Direction t" "Transferred (call b c t) = Transferred t"
  "FileSize (call b c t) = FileSize t" "FileName (call b c t) = FileName t"
  "FileHandle (call b c t) = FileHandle t" "State (call b c t) = State t"
  "acknowledged (call b c t) = acknowledged t"
  by (simp_all add: call_def)

lemma overwrite_end: "overwrite (length c) d c = c @ d"
  by (simp add: overwrite_def)

lemma content_put [simp]: "content (fs\<lparr>files := mput n c (files fs)\<rparr>) m = (if m = n then c else content fs m)"
  by (simp add: content_def dict_simps)

text \<open>Within the declared size, counting in 64 bits is exact.\<close>

lemma chunk_fits:
  fixes sofar whole :: u64
  assumes "sofar \<le> whole" "\<not> of_nat n > whole - sofar" "n \<le> MaxChunkSize"
  shows "unat (sofar + of_nat n) = unat sofar + n \<and> sofar + of_nat n \<le> whole"
proof -
  have n: "unat (of_nat n :: u64) = n" using assms(3) by (simp add: unat_of_nat_u64 MaxChunkSize_def)
  have le: "unat (of_nat n :: u64) \<le> unat whole - unat sofar"
    using assms(1,2) by (simp add: not_less word_le_nat_alt unat_sub_if_size)
  have "unat whole < 2 ^ 64" by (rule order.strict_trans2 [OF unsigned_less]) simp
  then show ?thesis using assms(1) n le
    by (simp add: word_le_nat_alt unat_word_ariths(1))
qed

text \<open>One accepted or refused chunk.\<close>

lemma WriteChunk_keeps:
  assumes inv: "recv_inv (t, fs, got)"
  shows "recv_inv (recv_step (RecvWrite now w d) (t, fs, got))"
proof (cases "length d > MaxChunkSize \<or> State t \<noteq> TransferStateRunning \<or> of_nat (length d) > FileSize t - Transferred t")
  case True
  then show ?thesis
    using inv by (auto simp: WriteChunk_def validateWriteRequest_def recv_inv_def Let_def)
next
  case False
  then obtain h where h: "FileHandle t = Some h" "h_name h = FileName t" "h_pos h = length got" "content fs (FileName t) = got"
    and dir: "Direction t = TransferDirectionIncoming" and tr: "unat (Transferred t) = length got"
      "Transferred t \<le> FileSize t"
    using inv by (auto simp: recv_inv_def)
  have ok: "validateWriteRequest t = Ok ()" using False dir by (simp add: validateWriteRequest_def)
  have fit: "unat (Transferred t + of_nat (length d)) = length got + length d"
      "Transferred t + of_nat (length d) \<le> FileSize t"
    using chunk_fits [OF tr(2), of "length d"] False tr(1) by auto
  show ?thesis
  proof (cases w)
    case WriteOk
    show ?thesis
      using False h dir fit ok WriteOk
      by (auto simp: WriteChunk_def writeDataToFile_def os_Write_def overwrite_end recv_inv_def
          updateWriteProgress_def recordTransferredBytes_def updateTransferSpeed_def Let_def
          checkTransferCompletion_def completeLocked_def)
  next
    case (WriteFail n e)
    have "take (length got) (got @ take n d) = got" by simp
    then show ?thesis
      using False h dir tr ok WriteFail overwrite_end [of got "take n d"]
      by (auto simp: WriteChunk_def writeDataToFile_def os_Write_def recv_inv_def failTransferLocked_def Let_def)
  qed
qed

interpretation recv_sys: op_system recv_step recv_inv
proof
  fix s p assume inv: "recv_inv s"
  obtain t fs got where s: "s = (t, fs, got)" by (cases s)
  show "recv_inv (recv_step p s)"
  proof (cases p)
    case (RecvWrite now w d)
    then show ?thesis using WriteChunk_keeps inv s by blast
  qed (use inv s in \<open>auto simp: recv_inv_def Pause_def Resume_def Cancel_def CheckTimeout_def failTransferLocked_def
      SetAcknowledgedBytes_def Let_def split: option.splits\<close>)
qed

lemma started_inv:
  assumes "Start now io (t, fs) = (Ok (), t', fs')" "Direction t = TransferDirectionIncoming" "Transferred t = 0"
  shows "recv_inv (t', fs', [])"
  using assms(2,3) by (simp add: recv_inv_def Start_incoming_Ok(5,6) [OF assms(1,2)])

text \<open>
  C15. A newly started incoming transfer, under every sequence of chunks (whatever the file system
  answers), pauses, resumes, cancellations and timeouts: the counter is exactly the number of accepted
  bytes and never exceeds the declared size, the file begins with the accepted bytes in order, and when
  the transfer is completed the file is exactly those bytes and has exactly the declared size.
\<close>

theorem incoming_file_intact:
  assumes "Start now io (t, fs) = (Ok (), t', fs')" "Direction t = TransferDirectionIncoming" "Transferred t = 0"
    and "fold recv_step ops (t', fs', []) = (t2, fs2, got)"
  shows "unat (Transferred t2) = length got \<and> Transferred t2 \<le> FileSize t2 \<and>
    take (length got) (content fs2 (FileName t2)) = got \<and>
    (State t2 = TransferStateCompleted \<longrightarrow>
       content fs2 (FileName t2) = got \<and> length got = unat (FileSize t2))"
  using recv_sys.inv_run [OF started_inv [OF assms(1-3)], of ops] assms(4) by (auto simp: recv_inv_def)

theorem incoming_file_intact_witness:
  "\<exists>t2 fs2. fold recv_step [RecvWrite 6 WriteOk [7, 8], RecvPause, RecvResume, RecvWrite 7 WriteOk [9, 9], RecvWrite 8 WriteOk [9]]
       (sample_transfer\<lparr>FileHandle := Some \<lparr>h_name = sample_name, h_pos = 0\<rparr>, State := TransferStateRunning, StartTime := 5\<rparr>,
        \<lparr>files = [(sample_name, [])], symlinks = []\<rparr>, []) = (t2, fs2, [7, 8, 9]) \<and>
     State t2 = TransferStateCompleted \<and> content fs2 (FileName t2) = [7, 8, 9]"
proof -
  let ?ops = "[RecvWrite 6 WriteOk [7, 8], RecvPause, RecvResume, RecvWrite 7 WriteOk [9, 9], RecvWrite 8 WriteOk [9]]"
  let ?t = "sample_transfer\<lparr>FileHandle := Some \<lparr>h_name = sample_name, h_pos = 0\<rparr>, State := TransferStateRunning, StartTime := 5\<rparr>"
  let ?fs = "\<lparr>files = [(sample_name, [])], symlinks = []\<rparr>"
  let ?r = "fold recv_step ?ops (?t, ?fs, [])"
  obtain t2 fs2 got where r: "?r = (t2, fs2, got)" by (cases ?r)
  have "State (fst ?r) = TransferStateCompleted" "snd (snd ?r) = [7, 8, 9]"
    by (simp_all add: sample_transfer_def NewTransfer_def WriteChunk_def MaxChunkSize_def validateWriteRequest_def
        writeDataToFile_def os_Write_def updateWriteProgress_def recordTransferredBytes_def updateTransferSpeed_def
        checkTransferCompletion_def completeLocked_def call_def Pause_def Resume_def)
  then have "State t2 = TransferStateCompleted" "got = [7, 8, 9]" using r by simp_all
  moreover have "Direction sample_transfer = TransferDirectionIncoming" "Transferred sample_transfer = 0"
    by (simp_all add: sample_transfer_def NewTransfer_def)
  note incoming_file_intact [OF sample_start this r]
  ultimately show ?thesis using r by auto
qed

section \<open>Finished transfers and acknowledgements\<close>

text \<open>Every exported operation that changes a transfer, in any order.\<close>

datatype transfer_op =
    DoStart int io_outcome
  | DoPause
  | DoResume
  | DoCancel io_outcome
  | DoWrite int write_outcome bytes
  | DoRead int io_outcome u16
  | DoRollback io_outcome int
  | DoCheckTimeout int
  | DoAck u64
  | DoSetTransferred u64
  | DoSetStallTimeout int
  | DoSetTimeProvider int
  | DoOnProgress
  | DoOnComplete
  | DoOnAcknowledge

fun transfer_step :: "transfer_op \<Rightarrow> Transfer \<times> filesystem \<Rightarrow> Transfer \<times> filesystem" where
  "transfer_step (DoStart now io) s = snd (Start now io s)"
| "transfer_step DoPause (t, fs) = (snd (Pause t), fs)"
| "transfer_step DoResume (t, fs) = (snd (Resume t), fs)"
| "transfer_step (DoCancel io) (t, fs) = (snd (Cancel io t), fs)"
| "transfer_step (DoWrite now w d) s = snd (WriteChunk now w d s)"
| "transfer_step (DoRead now io n) (t, fs) = (snd (ReadChunk now io n (t, fs)), fs)"
| "transfer_step (DoRollback io n) (t, fs) = (snd (RollbackChunk io n t), fs)"
| "transfer_step (DoCheckTimeout now) (t, fs) = (snd (CheckTimeout now t), fs)"
| "transfer_step (DoAck b) (t, fs) = (SetAcknowledgedBytes b t, fs)"
| "transfer_step (DoSetTransferred n) (t, fs) = (SetTransferred n t, fs)"
| "transfer_step (DoSetStallTimeout d) (t, fs) = (SetStallTimeout d t, fs)"
| "transfer_step (DoSetTimeProvider now) (t, fs) = (SetTimeProvider now t, fs)"
| "transfer_step DoOnProgress (t, fs) = (OnProgress t, fs)"
| "transfer_step DoOnComplete (t, fs) = (OnComplete t, fs)"
| "transfer_step DoOnAcknowledge (t, fs) = (OnAcknowledge t, fs)"

definition finished :: "TransferState \<Rightarrow> bool" where
  "finished st \<longleftrightarrow> st = TransferStateCompleted \<or> st = TransferStateCancelled"

lemmas refusals = validateTransferState_def Pause_def Resume_def Cancel_def validateWriteRequest_def
  validateReadRequest_def CheckTimeout_def detectStallLocked_def

lemma finished_step:
  assumes "finished (State (fst s))"
  shows "State (fst (transfer_step p s)) = State (fst s) \<and> snd (transfer_step p s) = snd s \<and>
    FileName (fst (transfer_step p s)) = FileName (fst s)"
proof -
  obtain t fs where s: "s = (t, fs)" by (cases s)
  have t: "State t = TransferStateCompleted \<or> State t = TransferStateCancelled"
    using assms by (simp add: s finished_def)
  show ?thesis
  proof (cases p)
    case (DoWrite now w d)
    then show ?thesis using t by (auto simp: s WriteChunk_def refusals)
  next
    case (DoRead now io n)
    then show ?thesis using t by (auto simp: s ReadChunk_def refusals)
  next
    case (DoRollback io n)
    then show ?thesis by (auto simp: s RollbackChunk_def Let_def split: option.splits sum.splits)
  qed (use t in \<open>auto simp: s Start_def refusals SetAcknowledgedBytes_def SetTransferred_def SetStallTimeout_def
      SetTimeProvider_def OnProgress_def OnComplete_def OnAcknowledge_def Let_def\<close>)
qed

text \<open>Once finished, a transfer's state, file name and files are those of the moment it finished.\<close>

definition finished_as :: "TransferState \<Rightarrow> gostring \<Rightarrow> filesystem \<Rightarrow> Transfer \<times> filesystem \<Rightarrow> bool" where
  "finished_as st name fs s \<longleftrightarrow> finished st \<and> State (fst s) = st \<and> FileName (fst s) = name \<and> snd s = fs"

interpretation finished_sys: op_system transfer_step "finished_as st name fs"
  by unfold_locales (use finished_step in \<open>auto simp: finished_as_def\<close>)

text \<open>
  A completed or cancelled transfer stays so under every sequence of operations, and none of them
  writes to a file any more.
\<close>

theorem finished_is_final:
  assumes "finished (State t)"
  shows "State (fst (fold transfer_step ops (t, fs))) = State t \<and> snd (fold transfer_step ops (t, fs)) = fs"
  using finished_sys.inv_run [of "State t" "FileName t" fs "(t, fs)" ops] assms by (simp add: finished_as_def)

theorem finished_is_final_witness:
  "finished (State (sample_transfer\<lparr>State := TransferStateCompleted\<rparr>)) \<and>
   State (fst (fold transfer_step [DoStart 1 IoOk, DoWrite 2 WriteOk [1], DoCancel IoOk, DoResume]
     (sample_transfer\<lparr>State := TransferStateCompleted\<rparr>, empty_fs))) = TransferStateCompleted"
  using finished_is_final [of "sample_transfer\<lparr>State := TransferStateCompleted\<rparr>"
      "[DoStart 1 IoOk, DoWrite 2 WriteOk [1], DoCancel IoOk, DoResume]" empty_fs]
  by (simp add: finished_def)

text \<open>
  An acknowledgement is taken exactly when it does not go back and does not exceed what was sent or
  the size of the file; otherwise nothing changes and no callback is called.
\<close>

theorem acknowledgement_bounds:
  "SetAcknowledgedBytes b t =
     (if acknowledged t \<le> b \<and> b \<le> min (Transferred t) (FileSize t)
      then call (ackCallback t) (AckCall b) (t\<lparr>acknowledged := b\<rparr>) else t)"
  by (auto simp: SetAcknowledgedBytes_def Let_def min_def)

end
