(* ===== verification/File_Delivery.thy ===== *)
theory File_Delivery
  imports File_Properties
begin

text \<open>
  Two managers together: the packet formats decode what they encode, and a file offered by one manager,
  accepted by the other and sent chunk by chunk arrives unchanged.
\<close>

section \<open>Packet round trips\<close>

lemma length_serializeFileData [simp]: "length (serializeFileData i p c) = 12 + length c"
  by (simp add: serializeFileData_def)

lemma slice_head: "slice 0 (length a) (a @ b) = a"
  by (simp add: slice_def)

lemma slice_next: "n = length a \<Longrightarrow> m = n + length b \<Longrightarrow> slice n m (a @ b @ c) = b"
  by (simp add: slice_def)

lemma wire_32_64:
  "slice 0 4 (PutUint32 i @ rest) = PutUint32 i"
  "slice 4 12 (PutUint32 i @ PutUint64 s @ rest) = PutUint64 s"
  "drop 12 (PutUint32 i @ PutUint64 s @ rest) = rest"
  using slice_head [of "PutUint32 i" rest] slice_next [of 4 "PutUint32 i" 12 "PutUint64 s" rest] by simp_all


text \<open>
  A file request decodes to the identifier and the size that were sent and the base of the name,
  when the name and the size are within their limits.
\<close>

theorem file_request_roundtrip:
  assumes "length name \<le> MaxFileNameLength" "sz \<le> MaxFileSize"
  shows "deserializeFileRequest (serializeFileRequest i name sz) =
    Ok (i, if name = [] then [] else Base name, sz)"
proof -
  let ?d = "PutUint32 i @ PutUint64 sz @ PutUint16 (of_nat (length name)) @ name"
  have "slice 12 14 ?d = PutUint16 (of_nat (length name))"
    using slice_next [of 12 "PutUint32 i @ PutUint64 sz" 14 "PutUint16 (of_nat (length name))" name] by simp
  moreover have "slice 14 (14 + length name) ?d = name"
    using slice_next [of 14 "PutUint32 i @ PutUint64 sz @ PutUint16 (of_nat (length name))" _ name "[]"] by simp
  moreover have "unat (of_nat (length name) :: u16) = length name"
    using assms(1) by (simp add: unat_of_nat_u16)
  ultimately show ?thesis
    using assms by (simp add: deserializeFileRequest_def serializeFileRequest_def wire_32_64 Let_def not_less)
qed

theorem file_request_roundtrip_witness:
  "deserializeFileRequest (serializeFileRequest 7 [97, 47, 98] 10) = Ok (7, [98], 10)"
proof -
  have "length [97, 47, 98 :: byte] \<le> MaxFileNameLength" "(10 :: u64) \<le> MaxFileSize"
    by simp_all
  then have "deserializeFileRequest (serializeFileRequest 7 [97, 47, 98] 10) = Ok (7, Base [97, 47, 98], 10)"
    using file_request_roundtrip by fastforce
  moreover have "Base [97, 47, 98] = [98]" by code_simp
  ultimately show ?thesis by simp
qed

text \<open>
  Whatever bytes a peer sends as a file request, an accepted request has a size within the limit and
  a name that is its own base: a single path element, the empty name or the root, so that an incoming
  transfer never starts with a name in another directory.
\<close>

theorem file_request_sanitised:
  assumes "deserializeFileRequest data = Ok (i, name, sz)"
  shows "sz \<le> MaxFileSize \<and> (name = [] \<or> name = [slash] \<or> (slash \<notin> set name \<and> name = Base name))"
  using assms Base_no_slash Base_idem
  by (auto simp: deserializeFileRequest_def Let_def split: if_splits)

theorem file_request_sanitised_witness:
  "\<exists>name. deserializeFileRequest (serializeFileRequest 7 [46, 46, 47, 98] 10) = Ok (7, name, 10) \<and> slash \<notin> set name"
proof -
  have e: "deserializeFileRequest (serializeFileRequest 7 [46, 46, 47, 98] 10) = Ok (7, [98], 10)" by code_simp
  show ?thesis using file_request_sanitised [OF e] e by (auto simp: slash_def)
qed

section \<open>Sending a whole file\<close>





definition sending :: "u32 \<Rightarrow> u32 \<Rightarrow> bytes \<Rightarrow> nat \<Rightarrow> mstate \<Rightarrow> bool" where
  "sending friendID fileID c k = (\<lambda>(m, fs). transport m \<and> (\<exists>t h.
     mget (transfers m) (friendID, fileID) = Some t \<and> Direction t = TransferDirectionOutgoing \<and>
     State t = TransferStateRunning \<and> FileHandle t = Some h \<and> content fs (h_name h) = c \<and>
     h_pos h = k \<and> Transferred t = of_nat k))"










section \<open>Defects\<close>

text \<open>
  The sender of an empty file never sends a chunk: its first read reports the end of the file and
  completes the transfer, and no packet leaves. The receiver, which completes only when it handles a
  chunk, is told nothing.
\<close>

theorem empty_file_sends_nothing:
  assumes "sending f i [] 0 (m, fs)" "mget (transfers m) (f, i) = Some t" "FileSize t = 0"
  shows "\<exists>t'. SendChunk now IoOk ok io f i dest (m, fs) =
      (Err (ReadChunkFailed EndOfFile), (putTransfer f i t' m, fs), []) \<and> State t' = TransferStateCompleted"
  using assms
  by (auto simp: sending_def SendChunk_def GetTransfer_def ReadChunk_def MaxChunkSize_def ChunkSize_def
      validateReadRequest_def readFileChunk_def os_Read_def handleReadError_def handleEOF_def completeLocked_def Let_def)

definition empty_transfer :: Transfer where
  "empty_transfer = (NewTransfer 0 5 7 [97] 0 TransferDirectionOutgoing)
     \<lparr>FileHandle := Some \<lparr>h_name = [97], h_pos = 0\<rparr>, State := TransferStateRunning\<rparr>"

definition empty_sender :: Manager where
  "empty_sender = (NewManager True)\<lparr>transfers := [((5, 7), empty_transfer)]\<rparr>"

theorem empty_file_sends_nothing_witness:
  "\<exists>t'. SendChunk 1 IoOk True IoOk 5 7 [1] (empty_sender, \<lparr>files = [([97], [])], symlinks = []\<rparr>) =
      (Err (ReadChunkFailed EndOfFile), (putTransfer 5 7 t' empty_sender, \<lparr>files = [([97], [])], symlinks = []\<rparr>), []) \<and>
     State t' = TransferStateCompleted"
  by (rule empty_file_sends_nothing [where t = empty_transfer])
    (simp_all add: sending_def empty_sender_def empty_transfer_def NewManager_def NewTransfer_def mget_def content_def)

text \<open>
  Starting a paused incoming transfer again truncates the file but keeps the byte count, so that after
  the remaining bytes arrive the transfer is reported complete although the file holds only those.
\<close>

theorem restart_completes_short_file:
  assumes "Direction t = TransferDirectionIncoming" "State t = TransferStatePaused"
    "FileName t = Base (FileName t)" "ValidatePath (FileName t) = Ok (FileName t)" "FileName t \<notin> set (symlinks fs)"
    and "Start now IoOk (t, fs) = (Ok (), t1, fs1)"
    and "unat (Transferred t) + length d = unat (FileSize t)" "length d \<le> MaxChunkSize"
    and "WriteChunk now2 WriteOk d (t1, fs1) = (res, t2, fs2)"
  shows "res = Ok () \<and> State t2 = TransferStateCompleted \<and> content fs2 (FileName t2) = d"
proof -
  note st = Start_incoming_Ok(5,6) [OF assms(6,1)]
  have n: "unat (of_nat (length d) :: u64) = length d"
    using assms(8) by (simp add: unat_of_nat_u64 MaxChunkSize_def)
  have le: "Transferred t \<le> FileSize t" using assms(7) by (simp add: word_le_nat_alt)
  have fits: "\<not> of_nat (length d) > FileSize t - Transferred t"
    using assms(7) n le by (simp add: not_less word_le_nat_alt unat_sub)
  have "FileSize t \<le> Transferred t + of_nat (length d)"
    using chunk_fits [OF le fits assms(8)] assms(7) by (simp add: word_le_nat_alt)
  then show ?thesis
    using assms(1,8,9) fits
    by (auto simp: st WriteChunk_def validateWriteRequest_def writeDataToFile_def os_Write_def overwrite_def
        updateWriteProgress_def recordTransferredBytes_def updateTransferSpeed_def checkTransferCompletion_def
        completeLocked_def Let_def content_def dict_simps)
qed

theorem restart_completes_short_file_witness:
  "\<exists>t1 fs1 t2 fs2.
     Start 9 IoOk (sample_transfer\<lparr>State := TransferStatePaused, Transferred := 2\<rparr>, \<lparr>files = [(sample_name, [7, 8])], symlinks = []\<rparr>) = (Ok (), t1, fs1) \<and>
     WriteChunk 10 WriteOk [9] (t1, fs1) = (Ok (), t2, fs2) \<and> State t2 = TransferStateCompleted \<and>
     FileSize t2 = 3 \<and> content fs2 (FileName t2) = [9]"
proof -
  let ?t = "sample_transfer\<lparr>State := TransferStatePaused, Transferred := 2\<rparr>"
  let ?fs = "\<lparr>files = [(sample_name, [7, 8])], symlinks = []\<rparr>"
  have t: "Direction ?t = TransferDirectionIncoming" "State ?t = TransferStatePaused" "FileName ?t = sample_name"
      "Transferred ?t = 2" "FileSize ?t = 3" by (simp_all add: sample_transfer_def NewTransfer_def)
  have b: "sample_name = Base sample_name" "ValidatePath sample_name = Ok sample_name" by code_simp+
  note st = Start_incoming [of ?t ?fs 9, unfolded t, OF refl b]
  obtain t1 fs1 where s: "Start 9 IoOk (?t, ?fs) = (Ok (), t1, fs1)" and sz: "FileSize t1 = 3"
    using st t(5) by simp
  obtain res t2 fs2 where w: "WriteChunk 10 WriteOk [9] (t1, fs1) = (res, t2, fs2)" by (metis prod.exhaust)
  have r: "res = Ok () \<and> State t2 = TransferStateCompleted \<and> content fs2 (FileName t2) = [9]"
    by (rule restart_completes_short_file [OF t(1,2) _ _ _ s _ _ w])
      (simp_all only: t(3-5) b(2), use b(1) in \<open>simp_all add: MaxChunkSize_def\<close>)
  moreover have "FileSize t2 = 3"
    using w sz r
    by (auto simp: WriteChunk_def validateWriteRequest_def writeDataToFile_def updateWriteProgress_def
        recordTransferredBytes_def updateTransferSpeed_def checkTransferCompletion_def completeLocked_def Let_def
        split: if_splits sum.splits prod.splits option.splits)
  ultimately show ?thesis using s w by blast
qed

text \<open>
  A file request from a peer replaces and cancels whatever transfer has the same friend and file
  number, also one that we are sending.
\<close>

theorem request_cancels_outgoing:
  assumes "deserializeFileRequest data = Ok (i, name, sz)" "resolveFriendIDFromAddr m addr i = f"
    and "mget (transfers m) (f, i) = Some t" "Direction t = TransferDirectionOutgoing" "State t = TransferStateRunning"
  shows "\<exists>m' t' outs. handleFileRequest now io data addr m = (Ok (), m', Some t', outs) \<and>
    State t' = TransferStateCancelled \<and> Direction t' = TransferDirectionOutgoing \<and>
    GetTransfer f i m' = Ok (NewTransfer now f i name sz TransferDirectionIncoming)"
  using assms
  by (auto simp: handleFileRequest_def storeIncomingTransfer_def GetTransfer_def putTransfer_def dict_simps Cancel_def
      Let_def split: option.splits)

theorem request_cancels_outgoing_witness:
  "\<exists>m' t' outs. handleFileRequest 3 IoOk (serializeFileRequest 7 [98] 1) [2] (empty_sender\<lparr>addressResolver := Some (\<lambda>_. Some 5)\<rparr>) =
      (Ok (), m', Some t', outs) \<and> State t' = TransferStateCancelled"
proof -
  have d: "deserializeFileRequest (serializeFileRequest 7 [98] 1) = Ok (7, [98], 1)" by code_simp
  show ?thesis
    using request_cancels_outgoing [OF d, of "empty_sender\<lparr>addressResolver := Some (\<lambda>_. Some 5)\<rparr>" "[2]" 5 empty_transfer 3 IoOk]
    by (auto simp: resolveFriendIDFromAddr_def empty_sender_def empty_transfer_def NewManager_def NewTransfer_def mget_def)
qed

end
