(* ===== verification/Container_Heap.thy ===== *)
theory Container_Heap
  imports Tox_Prelude "HOL-Library.Multiset"
begin

text \<open>
  The algorithms of Go's \<^verbatim>\<open>container/heap\<close> on a slice, given the \<^verbatim>\<open>Less\<close> method of the slice's type, and
  their correctness for every \<^verbatim>\<open>Less\<close> that compares by a key, strictly or not. The contract of a priority queue over the
  multiset of its elements is the interface that the message queue is built on.
\<close>

section \<open>The algorithms\<close>

definition swap :: "nat \<Rightarrow> nat \<Rightarrow> 'a list \<Rightarrow> 'a list" where
  "swap i j h = h[i := h ! j, j := h ! i]"

function heap_up :: "('a \<Rightarrow> 'a \<Rightarrow> bool) \<Rightarrow> 'a list \<Rightarrow> nat \<Rightarrow> 'a list" where
  "heap_up Less h j =
     (let i = (j - 1) div 2
      in if i = j \<or> \<not> Less (h ! j) (h ! i) then h else heap_up Less (swap i j h) i)"
  by pat_completeness auto
termination by (relation "measure (\<lambda>(_, _, j). j)") auto

function heap_down :: "('a \<Rightarrow> 'a \<Rightarrow> bool) \<Rightarrow> 'a list \<Rightarrow> nat \<Rightarrow> nat \<Rightarrow> 'a list" where
  "heap_down Less h i n =
     (let j1 = 2 * i + 1 in
      if j1 \<ge> n then h
      else let j = (if j1 + 1 < n \<and> Less (h ! (j1 + 1)) (h ! j1) then j1 + 1 else j1)
           in if \<not> Less (h ! j) (h ! i) then h else heap_down Less (swap i j h) j n)"
  by pat_completeness auto
termination by (relation "measure (\<lambda>(_, _, i, n). n - i)") (auto simp: Let_def split: if_splits)

declare heap_up.simps [simp del] heap_down.simps [simp del]

definition heap_Push :: "('a \<Rightarrow> 'a \<Rightarrow> bool) \<Rightarrow> 'a \<Rightarrow> 'a list \<Rightarrow> 'a list" where
  "heap_Push Less x h = heap_up Less (h @ [x]) (length (h @ [x]) - 1)"

definition heap_Pop :: "('a \<Rightarrow> 'a \<Rightarrow> bool) \<Rightarrow> 'a list \<Rightarrow> 'a \<times> 'a list" where
  "heap_Pop Less h =
     (let n = length h - 1; h1 = heap_down Less (swap 0 n h) 0 n in (h1 ! n, take n h1))"

section \<open>Shape\<close>

lemma length_swap [simp]: "length (swap i j h) = length h"
  by (simp add: swap_def)

lemma mset_swap_eq [simp]: "i < length h \<Longrightarrow> j < length h \<Longrightarrow> mset (swap i j h) = mset h"
  by (simp add: swap_def mset_swap)

lemma nth_swap: "i < length h \<Longrightarrow> j < length h \<Longrightarrow> k < length h \<Longrightarrow>
    swap i j h ! k = (if k = j then h ! i else if k = i then h ! j else h ! k)"
  by (simp add: swap_def nth_list_update)

lemma length_heap_up [simp]: "length (heap_up Less h j) = length h"
  by (induction Less h j rule: heap_up.induct) (subst heap_up.simps, simp add: Let_def)

lemma mset_heap_up: "j < length h \<Longrightarrow> mset (heap_up Less h j) = mset h"
proof (induction Less h j rule: heap_up.induct)
  case (1 Less h j)
  then show ?case by (subst heap_up.simps) (auto simp: Let_def)
qed

lemma length_heap_down [simp]: "length (heap_down Less h i n) = length h"
  by (induction Less h i n rule: heap_down.induct) (subst heap_down.simps, simp add: Let_def)

lemma mset_heap_down: "n \<le> length h \<Longrightarrow> i < n \<or> n = 0 \<Longrightarrow> mset (heap_down Less h i n) = mset h"
proof (induction Less h i n rule: heap_down.induct)
  case (1 Less h i n)
  then show ?case by (subst heap_down.simps) (auto simp: Let_def)
qed

lemma heap_down_above: "n \<le> k \<Longrightarrow> k < length h \<Longrightarrow> heap_down Less h i n ! k = h ! k"
proof (induction Less h i n rule: heap_down.induct)
  case (1 Less h i n)
  then show ?case by (subst heap_down.simps) (auto simp: Let_def nth_swap)
qed

section \<open>Order\<close>

abbreviation parent :: "nat \<Rightarrow> nat" where "parent k \<equiv> (k - 1) div 2"

locale heap_interface =
  fixes Less :: "'a \<Rightarrow> 'a \<Rightarrow> bool"
    and key :: "'a \<Rightarrow> 'k :: linorder"
  assumes less_of_key: "key a < key b \<Longrightarrow> Less a b"
    and key_of_less: "Less a b \<Longrightarrow> key a \<le> key b"
begin

lemma not_less_key: "\<not> Less a b \<Longrightarrow> key b \<le> key a"
  using less_of_key not_less by blast

definition heap_ordered :: "'a list \<Rightarrow> nat \<Rightarrow> bool" where
  "heap_ordered h n \<longleftrightarrow> (\<forall>k<n. 0 < k \<longrightarrow> key (h ! parent k) \<le> key (h ! k))"

text \<open>Ordered except that the element at \<open>j\<close> may be too small, or that the one at \<open>i\<close> may be too large.\<close>

definition up_hole :: "nat \<Rightarrow> 'a list \<Rightarrow> bool" where
  "up_hole j h \<longleftrightarrow>
     (\<forall>k<length h. 0 < k \<and> k \<noteq> j \<longrightarrow> key (h ! parent k) \<le> key (h ! k)) \<and>
     (\<forall>k<length h. 0 < k \<and> parent k = j \<and> 0 < j \<longrightarrow> key (h ! parent j) \<le> key (h ! k))"

definition down_hole :: "nat \<Rightarrow> 'a list \<Rightarrow> nat \<Rightarrow> bool" where
  "down_hole i h n \<longleftrightarrow>
     (\<forall>k<n. 0 < k \<and> parent k \<noteq> i \<longrightarrow> key (h ! parent k) \<le> key (h ! k)) \<and>
     (\<forall>k<n. 0 < k \<and> parent k = i \<and> 0 < i \<longrightarrow> key (h ! parent i) \<le> key (h ! k))"

lemma up_hole_step:
  assumes hole: "up_hole j h" and j: "j < length h" "0 < j" and lt: "key (h ! j) \<le> key (h ! parent j)"
  shows "up_hole (parent j) (swap (parent j) j h)"
proof -
  let ?i = "parent j" and ?h = "swap (parent j) j h"
  have ij: "?i < j" using j(2) by linarith
  have ord: "key (h ! parent k) \<le> key (h ! k)" if "k < length h" "0 < k" "k \<noteq> j" for k
    using hole that by (simp add: up_hole_def)
  have gr: "key (h ! ?i) \<le> key (h ! k)" if "k < length h" "0 < k" "parent k = j" for k
    using hole that j(2) by (simp add: up_hole_def)
  have at: "?h ! k = (if k = j then h ! ?i else if k = ?i then h ! j else h ! k)" if "k < length h" for k
    using that j ij by (simp add: nth_swap)
  have pl: "parent k < length h" "parent k \<noteq> k" if "k < length h" "0 < k" for k using that by linarith+
  have "key (?h ! parent k) \<le> key (?h ! k)" if k: "k < length h" "0 < k" "k \<noteq> ?i" for k
  proof (cases "k = j")
    case True
    then show ?thesis using lt j ij at [of j] at [of ?i] by simp
  next
    case False
    consider "parent k = j" | "parent k = ?i" | "parent k \<noteq> j" "parent k \<noteq> ?i" by blast
    then show ?thesis
    proof cases
      case 1
      then show ?thesis using gr [OF k(1,2)] False k j at by simp
    next
      case 2
      then show ?thesis using ord [OF k(1,2) False] lt False k j ij at [of k] at [of ?i] by simp
    next
      case 3
      then show ?thesis using ord [OF k(1,2) False] False k pl at by simp
    qed
  qed
  moreover have "key (?h ! parent ?i) \<le> key (?h ! k)" if k: "k < length h" "0 < k" "parent k = ?i" "0 < ?i" for k
  proof -
    have pi: "parent ?i < ?i" "parent ?i < length h" using k(4) ij j(1) by linarith+
    have up: "key (h ! parent ?i) \<le> key (h ! ?i)" using ord [of ?i] k(4) ij j(1) by simp
    show ?thesis
    proof (cases "k = j")
      case True
      then show ?thesis using up pi ij j at [of j] at [of "parent ?i"] by simp
    next
      case False
      then have "k \<noteq> ?i" using k(3,4) by linarith
      then show ?thesis using up ord [OF k(1,2) False] k(3) False pi ij at [OF k(1)] at [of "parent ?i"] by simp
    qed
  qed
  ultimately show ?thesis by (simp add: up_hole_def)
qed

lemma heap_up_ordered: "up_hole j h \<Longrightarrow> j < length h \<Longrightarrow> heap_ordered (heap_up Less h j) (length h)"
proof (induction j arbitrary: h rule: less_induct)
  case (less j)
  show ?case
  proof (cases "parent j = j \<or> \<not> Less (h ! j) (h ! parent j)")
    case True
    then have "heap_up Less h j = h" by (subst heap_up.simps) (auto simp: Let_def)
    moreover have "j = 0 \<or> key (h ! parent j) \<le> key (h ! j)" using True not_less_key by (cases "j = 0") auto
    then have "heap_ordered h (length h)"
      using less.prems by (fastforce simp: heap_ordered_def up_hole_def)
    ultimately show ?thesis by simp
  next
    case False
    then have j: "0 < j" "parent j < j" by (auto intro: ccontr)
    have "heap_up Less h j = heap_up Less (swap (parent j) j h) (parent j)"
      using False by (subst heap_up.simps) (simp add: Let_def)
    then show ?thesis
      using less.IH [OF j(2) up_hole_step [OF less.prems j(1)]] False key_of_less j(2) less.prems(2) by simp
  qed
qed

lemma down_hole_step:
  assumes hole: "down_hole i h n" and n: "n \<le> length h" and j: "parent j = i" "0 < j" "j < n"
    and least: "\<And>k. k < n \<Longrightarrow> 0 < k \<Longrightarrow> parent k = i \<Longrightarrow> key (h ! j) \<le> key (h ! k)"
    and lt: "key (h ! j) \<le> key (h ! i)"
  shows "down_hole j (swap i j h) n"
proof -
  let ?h = "swap i j h"
  have ij: "i < j" using j by linarith
  have at: "?h ! k = (if k = j then h ! i else if k = i then h ! j else h ! k)" if "k < n" for k
    using that j ij n by (simp add: nth_swap)
  have ord: "key (h ! parent k) \<le> key (h ! k)" if "k < n" "0 < k" "parent k \<noteq> i" for k
    using hole that by (simp add: down_hole_def)
  have gr: "key (h ! parent i) \<le> key (h ! k)" if "k < n" "0 < k" "parent k = i" "0 < i" for k
    using hole that by (simp add: down_hole_def)
  have "key (?h ! parent k) \<le> key (?h ! k)" if k: "k < n" "0 < k" "parent k \<noteq> j" for k
  proof -
    have p: "parent k < n" using k by linarith
    consider "k = j" | "k = i" "k \<noteq> j" | "k \<noteq> j" "k \<noteq> i" "parent k = i" | "k \<noteq> j" "k \<noteq> i" "parent k \<noteq> i"
      by blast
    then show ?thesis
    proof cases
      case 1
      then show ?thesis using lt ij j at [of j] at [of i] by simp
    next
      case 2
      then have "parent i \<noteq> i" using k(2) by linarith
      then show ?thesis using 2 gr [OF j(3,2,1)] k p at [OF k(1)] at [OF p] by simp
    next
      case 3
      then show ?thesis using least [OF k(1,2)] ij at [OF k(1)] at [OF p] by simp
    next
      case 4
      then show ?thesis using ord [OF k(1,2)] k(3) at [OF k(1)] at [OF p] by simp
    qed
  qed
  moreover have "key (?h ! parent j) \<le> key (?h ! k)" if k: "k < n" "0 < k" "parent k = j" for k
  proof -
    have "j < k" using k by linarith
    then show ?thesis using ord [OF k(1,2)] k ij j at [OF k(1)] at [of i] by simp
  qed
  ultimately show ?thesis by (simp add: down_hole_def)
qed

lemma heap_down_ordered:
  "down_hole i h n \<Longrightarrow> n \<le> length h \<Longrightarrow> heap_ordered (heap_down Less h i n) n"
proof (induction "n - i" arbitrary: h i rule: less_induct)
  case less
  let ?l = "2 * i + 1"
  let ?j = "if ?l + 1 < n \<and> Less (h ! (?l + 1)) (h ! ?l) then ?l + 1 else ?l"
  have kids: "k = ?l \<or> k = ?l + 1" if "parent k = i" "0 < k" for k using that by linarith
  have least: "key (h ! ?j) \<le> key (h ! k)" if "k < n" "0 < k" "parent k = i" for k
    using kids [OF that(3,2)] that(1) key_of_less not_less_key by auto
  show ?case
  proof (cases "n \<le> ?l \<or> \<not> Less (h ! ?j) (h ! i)")
    case True
    then have "heap_down Less h i n = h"
      by (subst heap_down.simps) (auto simp: Let_def)
    moreover have "key (h ! parent k) \<le> key (h ! k)" if "k < n" "0 < k" for k
    proof (cases "parent k = i")
      case pk: True
      then have "?l \<le> k" using that by linarith
      then have "key (h ! i) \<le> key (h ! ?j)" using True that(1) not_less_key by auto
      then show ?thesis using least [OF that pk] pk by (simp only:)
    next
      case False
      then show ?thesis using less.prems(1) that by (simp add: down_hole_def)
    qed
    ultimately show ?thesis by (simp add: heap_ordered_def)
  next
    case False
    have j: "parent ?j = i" "0 < ?j" "?j < n" "i < ?j" using False by auto
    have "heap_down Less h i n = heap_down Less (swap i ?j h) ?j n"
      using False by (subst heap_down.simps) (auto simp: Let_def split: if_splits)
    moreover have "down_hole ?j (swap i ?j h) n"
      using down_hole_step [OF less.prems j(1-3) least] False key_of_less by blast
    ultimately show ?thesis
      using less.hyps [of ?j "swap i ?j h"] j(3,4) less.prems(2) by simp
  qed
qed

lemma heap_root_least: "heap_ordered h n \<Longrightarrow> k < n \<Longrightarrow> key (h ! 0) \<le> key (h ! k)"
proof (induction k rule: less_induct)
  case (less k)
  show ?case
  proof (cases "k = 0")
    case False
    then have "parent k < k" "parent k < n" using less.prems(2) by linarith+
    then show ?thesis
      using less.IH [of "parent k"] less.prems False by (fastforce simp: heap_ordered_def)
  qed simp
qed

lemma mset_heap_Push: "mset (heap_Push Less x h) = add_mset x (mset h)"
  by (simp add: heap_Push_def mset_heap_up)

lemma heap_Push_ordered:
  assumes "heap_ordered h (length h)"
  shows "heap_ordered (heap_Push Less x h) (length (heap_Push Less x h))"
proof -
  have "up_hole (length h) (h @ [x])"
    using assms by (auto simp: up_hole_def heap_ordered_def nth_append less_Suc_eq)
  then show ?thesis using heap_up_ordered [of "length h" "h @ [x]"] by (simp add: heap_Push_def)
qed

lemma heap_Pop_parts:
  assumes "heap_Pop Less h = (x, h')" "h \<noteq> []"
  shows "x = h ! 0" "mset h = add_mset x (mset h')" "length h = Suc (length h')"
proof -
  let ?n = "length h - 1" and ?h = "heap_down Less (swap 0 (length h - 1) h) 0 (length h - 1)"
  have n: "?n < length h" "0 < length h" using assms(2) by auto
  have x: "x = ?h ! ?n" and h': "h' = take ?n ?h" using assms(1) by (auto simp: heap_Pop_def Let_def)
  show "x = h ! 0" using n by (auto simp: x heap_down_above nth_swap)
  have "?h = h' @ [x]" using take_Suc_conv_app_nth [of ?n ?h] n by (simp add: x h')
  then have "mset ?h = add_mset x (mset h')" by simp
  moreover have "mset ?h = mset h" using n by (subst mset_heap_down) auto
  ultimately show "mset h = add_mset x (mset h')" by simp
  then show "length h = Suc (length h')" by (metis size_add_mset size_mset)
qed

lemma heap_Pop_ordered:
  assumes "heap_Pop Less h = (x, h')" "h \<noteq> []" "heap_ordered h (length h)"
  shows "heap_ordered h' (length h')"
proof -
  let ?n = "length h - 1"
  have h': "h' = take ?n (heap_down Less (swap 0 ?n h) 0 ?n)" using assms(1) by (auto simp: heap_Pop_def Let_def)
  have p: "parent k < ?n" "parent k \<noteq> k" if "k < ?n" "0 < k" for k using that by linarith+
  have "down_hole 0 (swap 0 ?n h) ?n"
    using assms(2,3) p by (auto simp: down_hole_def heap_ordered_def nth_swap)
  then have "heap_ordered (heap_down Less (swap 0 ?n h) 0 ?n) ?n" by (intro heap_down_ordered) simp_all
  then show ?thesis using p(1) by (fastforce simp: h' heap_ordered_def)
qed

lemma heap_Pop_least:
  assumes "heap_Pop Less h = (x, h')" "h \<noteq> []" "heap_ordered h (length h)" "y \<in># mset h"
  shows "key x \<le> key y"
proof -
  obtain k where "k < length h" "y = h ! k" using assms(4) by (auto simp: in_set_conv_nth)
  then show ?thesis using heap_root_least [OF assms(3)] heap_Pop_parts(1) [OF assms(1,2)] by simp
qed

end

section \<open>The contract\<close>

locale least_first =
  fixes push :: "'a \<Rightarrow> 'q \<Rightarrow> 'q"
    and pop :: "'q \<Rightarrow> 'a \<times> 'q"
    and elems :: "'q \<Rightarrow> 'a multiset"
    and inv :: "'q \<Rightarrow> bool"
    and key :: "'a \<Rightarrow> 'k :: linorder"
  assumes elems_push: "elems (push x q) = add_mset x (elems q)"
    and inv_push: "inv q \<Longrightarrow> inv (push x q)"
    and elems_pop: "pop q = (x, q') \<Longrightarrow> elems q \<noteq> {#} \<Longrightarrow> elems q = add_mset x (elems q')"
    and inv_pop: "pop q = (x, q') \<Longrightarrow> elems q \<noteq> {#} \<Longrightarrow> inv q \<Longrightarrow> inv q'"
    and pop_least: "pop q = (x, q') \<Longrightarrow> elems q \<noteq> {#} \<Longrightarrow> inv q \<Longrightarrow> y \<in># elems q \<Longrightarrow> key x \<le> key y"
begin

primrec drain :: "nat \<Rightarrow> 'q \<Rightarrow> 'a list \<times> 'q" where
  "drain 0 q = ([], q)"
| "drain (Suc n) q = (let (x, q') = pop q; (xs, q'') = drain n q' in (x # xs, q''))"

lemma drain_sorted:
  "inv q \<Longrightarrow> drain (size (elems q)) q = (xs, q') \<Longrightarrow>
     mset xs = elems q \<and> elems q' = {#} \<and> inv q' \<and> sorted (map key xs)"
proof (induction "size (elems q)" arbitrary: q xs q')
  case 0
  then show ?case by (auto split: prod.splits)
next
  case (Suc n)
  obtain x q1 where p: "pop q = (x, q1)" by (cases "pop q")
  have ne: "elems q \<noteq> {#}" using Suc.hyps(2) by auto
  note e = elems_pop [OF p ne]
  have n: "n = size (elems q1)" using Suc.hyps(2) by (simp add: e)
  obtain ys q2 where d: "drain n q1 = (ys, q2)" by (cases "drain n q1")
  have xs: "xs = x # ys" "q' = q2" using Suc.prems(2) Suc.hyps(2) [symmetric] p d by simp_all
  have ih: "mset ys = elems q1 \<and> elems q2 = {#} \<and> inv q2 \<and> sorted (map key ys)"
    using Suc.hyps(1) [OF n inv_pop [OF p ne Suc.prems(1)]] d n by simp
  moreover have "key x \<le> key y" if "y \<in> set ys" for y
    using pop_least [OF p ne Suc.prems(1), of y] that ih by (metis e insert_iff set_mset_add_mset_insert set_mset_mset)
  ultimately show ?case by (simp add: xs e)
qed

end

sublocale heap_interface \<subseteq> least_first "heap_Push Less" "heap_Pop Less" mset "\<lambda>h. heap_ordered h (length h)" key
proof unfold_locales
  fix x y h h'
  show "mset (heap_Push Less x h) = add_mset x (mset h)" by (rule mset_heap_Push)
  show "heap_ordered h (length h) \<Longrightarrow> heap_ordered (heap_Push Less x h) (length (heap_Push Less x h))"
    by (rule heap_Push_ordered)
  assume p: "heap_Pop Less h = (x, h')" and "mset h \<noteq> {#}"
  then have ne: "h \<noteq> []" by auto
  show "mset h = add_mset x (mset h')" by (rule heap_Pop_parts [OF p ne])
  show "heap_ordered h (length h) \<Longrightarrow> heap_ordered h' (length h')" by (rule heap_Pop_ordered [OF p ne])
  show "heap_ordered h (length h) \<Longrightarrow> y \<in># mset h \<Longrightarrow> key x \<le> key y" by (rule heap_Pop_least [OF p ne])
qed

end
