(* ===== verification/Priority_Queue.thy ===== *)
theory Priority_Queue
  imports Container_Heap "HOL-Library.Product_Lexorder"
begin

text \<open>
  The outgoing message queue, \<^verbatim>\<open>messaging/priority_queue.go\<close>: a binary heap ordered by priority and then by
  the time of arrival, with a capacity, statistics and a closed flag. The clock is an argument; a wait on
  the condition variable is what the other goroutines do to the queue before the waiter runs again.
\<close>

section \<open>The data\<close>

type_synonym MessagePriority = u8
type_synonym MessageType = u8

abbreviation (input) PriorityRealtime :: MessagePriority where "PriorityRealtime \<equiv> 0"
abbreviation (input) PriorityNormal :: MessagePriority where "PriorityNormal \<equiv> 1"
abbreviation (input) PriorityDHT :: MessagePriority where "PriorityDHT \<equiv> 2"
abbreviation (input) PriorityFileTransfer :: MessagePriority where "PriorityFileTransfer \<equiv> 3"

definition MessageTypeNormal :: MessageType where "MessageTypeNormal = 0"
definition MessageTypeAction :: MessageType where "MessageTypeAction = 1"

record 'm PriorityItem =
  Item :: 'm
  Priority :: MessagePriority
  Arrival :: time

definition Less :: "'m PriorityItem \<Rightarrow> 'm PriorityItem \<Rightarrow> bool" where
  "Less a b = (if Priority a \<noteq> Priority b then Priority a < Priority b else Arrival a < Arrival b)"

record PriorityQueueConfig =
  MaxSize :: int
  DefaultPriority :: MessagePriority
  EnableStats :: bool

definition DefaultPriorityQueueConfig :: PriorityQueueConfig where
  "DefaultPriorityQueueConfig = \<lparr>MaxSize = 10000, DefaultPriority = PriorityNormal, EnableStats = True\<rparr>"

record PriorityQueueStats =
  Enqueued :: u64
  Dequeued :: u64
  Dropped :: u64
  ByPriority :: "u64 list"
  PeakSize :: int
  TotalWaitTime :: u64

record 'm PriorityQueue =
  heap :: "'m PriorityItem list"
  config :: PriorityQueueConfig
  stats :: PriorityQueueStats
  closed :: bool

definition NewPriorityQueue :: "PriorityQueueConfig option \<Rightarrow> 'm PriorityQueue" where
  "NewPriorityQueue cfg =
     \<lparr>heap = [],
      config = (case cfg of None \<Rightarrow> DefaultPriorityQueueConfig | Some c \<Rightarrow> c),
      stats = \<lparr>Enqueued = 0, Dequeued = 0, Dropped = 0, ByPriority = [0, 0, 0, 0], PeakSize = 0, TotalWaitTime = 0\<rparr>,
      closed = False\<rparr>"

section \<open>Adding messages\<close>

definition dropEnqueueWhenFullLocked :: "'m PriorityQueue \<Rightarrow> bool \<times> 'm PriorityQueue" where
  "dropEnqueueWhenFullLocked pq =
     (if MaxSize (config pq) = 0 \<or> int (length (heap pq)) < MaxSize (config pq) then (False, pq)
      else (True, pq\<lparr>stats := (stats pq)\<lparr>Dropped := Dropped (stats pq) + 1\<rparr>\<rparr>))"

definition updateEnqueueStatsLocked :: "MessagePriority \<Rightarrow> 'm PriorityQueue \<Rightarrow> 'm PriorityQueue" where
  "updateEnqueueStatsLocked priority pq =
     (let st = (stats pq)\<lparr>Enqueued := Enqueued (stats pq) + 1\<rparr>;
          st1 = (if priority < 4
                 then st\<lparr>ByPriority := (ByPriority st)[unat priority := ByPriority st ! unat priority + 1]\<rparr>
                 else st);
          currentSize = int (length (heap pq));
          st2 = (if currentSize \<le> PeakSize st1 then st1 else st1\<lparr>PeakSize := currentSize\<rparr>)
      in pq\<lparr>stats := st2\<rparr>)"

definition Enqueue :: "time \<Rightarrow> 'm option \<Rightarrow> MessagePriority \<Rightarrow> 'm PriorityQueue \<Rightarrow> bool \<times> 'm PriorityQueue" where
  "Enqueue now msg priority pq =
     (case msg of
        None \<Rightarrow> (False, pq)
      | Some m \<Rightarrow>
          if closed pq then (False, pq)
          else case dropEnqueueWhenFullLocked pq of
            (True, pq1) \<Rightarrow> (False, pq1)
          | (False, pq1) \<Rightarrow>
              (True, updateEnqueueStatsLocked priority
                 (pq1\<lparr>heap := heap_Push Less \<lparr>Item = m, Priority = priority, Arrival = now\<rparr> (heap pq1)\<rparr>)))"

definition EnqueueWithDefault :: "time \<Rightarrow> 'm option \<Rightarrow> 'm PriorityQueue \<Rightarrow> bool \<times> 'm PriorityQueue" where
  "EnqueueWithDefault now msg pq = Enqueue now msg (DefaultPriority (config pq)) pq"

section \<open>Taking messages\<close>

definition popAndUpdateStats :: "time \<Rightarrow> 'm PriorityQueue \<Rightarrow> 'm \<times> 'm PriorityQueue" where
  "popAndUpdateStats now pq =
     (let (item, h) = heap_Pop Less (heap pq)
      in (Item item,
          pq\<lparr>heap := h,
             stats := (stats pq)\<lparr>Dequeued := Dequeued (stats pq) + 1,
                                TotalWaitTime := TotalWaitTime (stats pq) + word_of_int (now - Arrival item)\<rparr>\<rparr>))"

definition Dequeue :: "time \<Rightarrow> 'm PriorityQueue \<Rightarrow> 'm option \<times> 'm PriorityQueue" where
  "Dequeue now pq =
     (if heap pq = [] then (None, pq)
      else let (m, pq') = popAndUpdateStats now pq in (Some m, pq'))"

text \<open>
  A blocked call takes from \<open>wakes\<close> what happened to the queue while it waited; the outer \<^const>\<open>None\<close> is a
  call that still waits when nothing more happens.
\<close>

fun DequeueWait ::
  "time \<Rightarrow> ('m PriorityQueue \<Rightarrow> 'm PriorityQueue) list \<Rightarrow> 'm PriorityQueue \<Rightarrow> ('m option \<times> 'm PriorityQueue) option" where
  "DequeueWait now wakes pq =
     (if heap pq = [] \<and> \<not> closed pq
      then (case wakes of [] \<Rightarrow> None | w # ws \<Rightarrow> DequeueWait now ws (w pq))
      else if closed pq \<and> heap pq = [] then Some (None, pq)
      else let (m, pq') = popAndUpdateStats now pq in Some (Some m, pq'))"

declare DequeueWait.simps [simp del]

text \<open>Each wait of the timed version also has the clock before and after it.\<close>

definition waitWithDeadline :: "time \<Rightarrow> time \<Rightarrow> time \<Rightarrow> bool \<times> bool" where
  "waitWithDeadline deadline before after =
     (if deadline - before \<le> 0 then (False, False) else (True, after < deadline))"

fun timed_loop ::
  "time \<Rightarrow> time \<Rightarrow> (time \<times> ('m PriorityQueue \<Rightarrow> 'm PriorityQueue) \<times> time) list \<Rightarrow> 'm PriorityQueue \<Rightarrow>
   ('m option \<times> 'm PriorityQueue) option" where
  "timed_loop now deadline wakes pq =
     (if heap pq = [] \<and> \<not> closed pq
      then (case wakes of
              [] \<Rightarrow> None
            | (before, w, after) # ws \<Rightarrow>
                (case waitWithDeadline deadline before after of
                   (waited, go) \<Rightarrow>
                     let pq1 = (if waited then w pq else pq)
                     in if \<not> go then Some (None, pq1) else timed_loop now deadline ws pq1))
      else if heap pq = [] then Some (None, pq)
      else let (m, pq') = popAndUpdateStats now pq in Some (Some m, pq'))"

declare timed_loop.simps [simp del]

definition DequeueWithTimeout ::
  "time \<Rightarrow> duration \<Rightarrow> time \<Rightarrow> (time \<times> ('m PriorityQueue \<Rightarrow> 'm PriorityQueue) \<times> time) list \<Rightarrow> 'm PriorityQueue \<Rightarrow>
   ('m option \<times> 'm PriorityQueue) option" where
  "DequeueWithTimeout start timeout now wakes pq = timed_loop now (start + timeout) wakes pq"

section \<open>Looking and maintenance\<close>

definition Peek :: "'m PriorityQueue \<Rightarrow> 'm option" where
  "Peek pq = (if heap pq = [] then None else Some (Item (heap pq ! 0)))"

definition PeekPriority :: "'m PriorityQueue \<Rightarrow> MessagePriority" where
  "PeekPriority pq = (if heap pq = [] then DefaultPriority (config pq) else Priority (heap pq ! 0))"

definition Len :: "'m PriorityQueue \<Rightarrow> nat" where
  "Len pq = length (heap pq)"

definition IsEmpty :: "'m PriorityQueue \<Rightarrow> bool" where
  "IsEmpty pq \<longleftrightarrow> Len pq = 0"

definition Clear :: "'m PriorityQueue \<Rightarrow> 'm PriorityQueue" where
  "Clear pq = pq\<lparr>heap := []\<rparr>"

definition Close :: "'m PriorityQueue \<Rightarrow> 'm PriorityQueue" where
  "Close pq = pq\<lparr>closed := True\<rparr>"

definition IsClosed :: "'m PriorityQueue \<Rightarrow> bool" where
  "IsClosed pq = closed pq"

definition Stats :: "'m PriorityQueue \<Rightarrow> u64 \<times> u64 \<times> u64 \<times> u64 list \<times> int \<times> int" where
  "Stats pq =
     (let st = stats pq;
          avgWaitNs = (if Dequeued st > 0 then go_quot (sint (TotalWaitTime st)) (sint (Dequeued st)) else 0)
      in (Enqueued st, Dequeued st, Dropped st, ByPriority st, PeakSize st, avgWaitNs))"

text \<open>The loop of \<^verbatim>\<open>DrainTo\<close> runs while the heap is not empty, so for as many rounds as it has items.\<close>

primrec drain_loop :: "nat \<Rightarrow> 'm PriorityItem list \<Rightarrow> 'm list \<Rightarrow> 'm list \<times> 'm PriorityItem list" where
  "drain_loop 0 h dst = (dst, h)"
| "drain_loop (Suc n) h dst =
     (if h = [] then (dst, h)
      else let (item, h') = heap_Pop Less h in drain_loop n h' (dst @ [Item item]))"

definition DrainTo :: "'m list \<Rightarrow> 'm PriorityQueue \<Rightarrow> 'm list \<times> 'm PriorityQueue" where
  "DrainTo dst pq =
     (let (out, h) = drain_loop (length (heap pq)) (heap pq) dst in (out, pq\<lparr>heap := h\<rparr>))"

definition CountByPriority :: "'m PriorityQueue \<Rightarrow> (MessagePriority, nat) gomap" where
  "CountByPriority pq =
     fold (\<lambda>item counts. mput (Priority item) ((case mget counts (Priority item) of None \<Rightarrow> 0 | Some n \<Rightarrow> n) + 1) counts) (heap pq) []"

definition GetMessagePriority :: "MessageType \<Rightarrow> MessagePriority" where
  "GetMessagePriority msgType =
     (if msgType = MessageTypeAction then PriorityRealtime
      else if msgType = MessageTypeNormal then PriorityNormal
      else PriorityNormal)"

definition IsRealtimeMessage :: "time \<Rightarrow> MessageType \<Rightarrow> time \<Rightarrow> bool" where
  "IsRealtimeMessage now msgType timestamp \<longleftrightarrow>
     msgType = MessageTypeAction \<or> now - timestamp < 100 * 1000000"

end
