(* ===== verification/Priority_Refinement.thy ===== *)
theory Priority_Refinement
  imports Priority_Queue
begin

text \<open>
  What the outgoing queue promises: the abstract queue is a multiset of items with a capacity and a closed
  flag, from which the least item by priority and arrival is taken. The heap implements it, and with a
  clock that advances it delivers in the order of a stable sort by priority.
\<close>

section \<open>The order of the heap\<close>

definition item_key :: "'m PriorityItem \<Rightarrow> u8 \<times> int" where
  "item_key item = (Priority item, Arrival item)"

interpretation pqh: heap_interface Less item_key
  by unfold_locales (auto simp: Less_def item_key_def less_prod_def less_eq_prod_def split: if_splits)

abbreviation ordered :: "'m PriorityItem list \<Rightarrow> bool" where
  "ordered h \<equiv> pqh.heap_ordered h (length h)"

lemma drain_loop_drain:
  "drain_loop (length h) h dst = (dst @ map Item (fst (pqh.drain (length h) h)), snd (pqh.drain (length h) h))"
proof (induction "length h" arbitrary: h dst)
  case (Suc n)
  obtain x h' where p: "heap_Pop Less h = (x, h')" by (cases "heap_Pop Less h")
  have ne: "h \<noteq> []" using Suc.hyps(2) by auto
  have n: "n = length h'" using pqh.heap_Pop_parts(3) [OF p ne] Suc.hyps(2) by simp
  show ?case using Suc.hyps(1) [OF n, of "dst @ [Item x]"] Suc.hyps(2) [symmetric] n p ne
    by (simp split: prod.splits)
qed simp

section \<open>The invariant\<close>

definition pq_inv :: "'m PriorityQueue \<Rightarrow> bool" where
  "pq_inv pq \<longleftrightarrow>
     ordered (heap pq) \<and>
     (MaxSize (config pq) \<noteq> 0 \<longrightarrow> int (length (heap pq)) \<le> max 0 (MaxSize (config pq))) \<and>
     int (length (heap pq)) \<le> PeakSize (stats pq) \<and>
     length (ByPriority (stats pq)) = 4"

datatype 'm pq_op =
    DoEnqueue time "'m option" MessagePriority
  | DoEnqueueDefault time "'m option"
  | DoDequeue time
  | DoPeek
  | DoClear
  | DoClose
  | DoDrain "'m list"

datatype 'm pq_out = Accepted bool | Got "'m option" | NoResult | Drained "'m list"

fun pq_step :: "'m pq_op \<Rightarrow> 'm PriorityQueue \<Rightarrow> 'm pq_out \<times> 'm PriorityQueue" where
  "pq_step (DoEnqueue now msg priority) pq = (let (b, pq') = Enqueue now msg priority pq in (Accepted b, pq'))"
| "pq_step (DoEnqueueDefault now msg) pq = (let (b, pq') = EnqueueWithDefault now msg pq in (Accepted b, pq'))"
| "pq_step (DoDequeue now) pq = (let (m, pq') = Dequeue now pq in (Got m, pq'))"
| "pq_step DoPeek pq = (Got (Peek pq), pq)"
| "pq_step DoClear pq = (NoResult, Clear pq)"
| "pq_step DoClose pq = (NoResult, Close pq)"
| "pq_step (DoDrain dst) pq = (let (ms, pq') = DrainTo dst pq in (Drained ms, pq'))"

section \<open>The abstract queue\<close>

record 'm queue_spec =
  items :: "'m PriorityItem multiset"
  capacity :: int
  fallback :: MessagePriority
  shut :: bool

definition spec_accepts :: "'m queue_spec \<Rightarrow> bool" where
  "spec_accepts q \<longleftrightarrow> \<not> shut q \<and> (capacity q = 0 \<or> int (size (items q)) < capacity q)"

definition spec_least :: "'m PriorityItem \<Rightarrow> 'm queue_spec \<Rightarrow> bool" where
  "spec_least x q \<longleftrightarrow> x \<in># items q \<and> (\<forall>y \<in># items q. item_key x \<le> item_key y)"

inductive spec_step :: "'m pq_op \<Rightarrow> 'm pq_out \<Rightarrow> 'm queue_spec \<Rightarrow> 'm queue_spec \<Rightarrow> bool" where
  enqueue: "spec_accepts q \<Longrightarrow>
     spec_step (DoEnqueue now (Some m) p) (Accepted True) q
       (q\<lparr>items := add_mset \<lparr>Item = m, Priority = p, Arrival = now\<rparr> (items q)\<rparr>)"
| refuse: "msg = None \<or> \<not> spec_accepts q \<Longrightarrow> spec_step (DoEnqueue now msg p) (Accepted False) q q"
| enqueue_default: "spec_step (DoEnqueue now msg (fallback q)) out q q' \<Longrightarrow>
     spec_step (DoEnqueueDefault now msg) out q q'"
| dequeue: "spec_least x q \<Longrightarrow>
     spec_step (DoDequeue now) (Got (Some (Item x))) q (q\<lparr>items := items q - {#x#}\<rparr>)"
| dequeue_empty: "items q = {#} \<Longrightarrow> spec_step (DoDequeue now) (Got None) q q"
| peek: "spec_least x q \<Longrightarrow> spec_step DoPeek (Got (Some (Item x))) q q"
| peek_empty: "items q = {#} \<Longrightarrow> spec_step DoPeek (Got None) q q"
| clear: "spec_step DoClear NoResult q (q\<lparr>items := {#}\<rparr>)"
| close: "spec_step DoClose NoResult q (q\<lparr>shut := True\<rparr>)"
| drain: "mset xs = items q \<Longrightarrow> sorted (map item_key xs) \<Longrightarrow>
     spec_step (DoDrain dst) (Drained (dst @ map Item xs)) q (q\<lparr>items := {#}\<rparr>)"

fun spec_run :: "('m pq_op \<times> 'm pq_out) list \<Rightarrow> 'm queue_spec \<Rightarrow> 'm queue_spec \<Rightarrow> bool" where
  "spec_run [] q q' \<longleftrightarrow> q = q'"
| "spec_run ((p, out) # tr) q q' \<longleftrightarrow> (\<exists>q1. spec_step p out q q1 \<and> spec_run tr q1 q')"

definition queue_abs :: "'m PriorityQueue \<Rightarrow> 'm queue_spec" where
  "queue_abs pq = \<lparr>items = mset (heap pq), capacity = MaxSize (config pq),
                   fallback = DefaultPriority (config pq), shut = closed pq\<rparr>"

fun pq_run :: "'m pq_op list \<Rightarrow> 'm PriorityQueue \<Rightarrow> ('m pq_op \<times> 'm pq_out) list \<times> 'm PriorityQueue" where
  "pq_run [] pq = ([], pq)"
| "pq_run (p # ps) pq =
     (let (out, pq1) = pq_step p pq; (tr, pq2) = pq_run ps pq1 in ((p, out) # tr, pq2))"

section \<open>Every operation keeps the invariant and implements the specification\<close>

lemma update_stats_parts [simp]:
  "heap (updateEnqueueStatsLocked p pq) = heap pq"
  "config (updateEnqueueStatsLocked p pq) = config pq"
  "closed (updateEnqueueStatsLocked p pq) = closed pq"
  "length (ByPriority (stats (updateEnqueueStatsLocked p pq))) = length (ByPriority (stats pq))"
  "PeakSize (stats (updateEnqueueStatsLocked p pq)) = max (int (length (heap pq))) (PeakSize (stats pq))"
  by (auto simp: updateEnqueueStatsLocked_def Let_def max_def)

lemma length_heap_Push [simp]: "length (heap_Push Less x h) = Suc (length h)"
  by (simp add: heap_Push_def)

lemma enqueue_step:
  assumes "pq_inv pq" "Enqueue now msg p pq = (b, pq')"
  shows "pq_inv pq' \<and> spec_step (DoEnqueue now msg p) (Accepted b) (queue_abs pq) (queue_abs pq')"
proof -
  let ?full = "\<not> (MaxSize (config pq) = 0 \<or> int (length (heap pq)) < MaxSize (config pq))"
  consider (refused) "msg = None \<or> closed pq \<or> ?full" | (taken) m where "msg = Some m" "\<not> closed pq" "\<not> ?full"
    by (cases msg) auto
  then show ?thesis
  proof cases
    case refused
    then have "b = False" "queue_abs pq' = queue_abs pq" "pq_inv pq'"
      using assms by (auto simp: Enqueue_def dropEnqueueWhenFullLocked_def queue_abs_def pq_inv_def
          split: option.splits if_splits)
    then show ?thesis using refused by (auto intro!: spec_step.refuse simp: spec_accepts_def queue_abs_def)
  next
    case taken
    then have r: "b = True" "pq' = updateEnqueueStatsLocked p
        (pq\<lparr>heap := heap_Push Less \<lparr>Item = m, Priority = p, Arrival = now\<rparr> (heap pq)\<rparr>)"
      using assms(2) by (auto simp: Enqueue_def dropEnqueueWhenFullLocked_def)
    have "pq_inv pq'" using assms(1) taken(3) pqh.heap_Push_ordered [of "heap pq"]
      by (auto simp: r pq_inv_def max_def)
    moreover have "spec_accepts (queue_abs pq)" using taken by (auto simp: spec_accepts_def queue_abs_def)
    from spec_step.enqueue [OF this, of now m p]
    have "spec_step (DoEnqueue now msg p) (Accepted b) (queue_abs pq) (queue_abs pq')"
      by (simp add: r taken(1) queue_abs_def pqh.mset_heap_Push)
    ultimately show ?thesis ..
  qed
qed

lemma pop_step:
  assumes "pq_inv pq" "heap pq \<noteq> []" "popAndUpdateStats now pq = (m, pq')"
  obtains x where "m = Item x" "spec_least x (queue_abs pq)" "pq_inv pq'"
    "queue_abs pq' = (queue_abs pq)\<lparr>items := items (queue_abs pq) - {#x#}\<rparr>"
proof -
  obtain x h where p: "heap_Pop Less (heap pq) = (x, h)" by (cases "heap_Pop Less (heap pq)")
  note parts = pqh.heap_Pop_parts [OF p assms(2)]
  have r: "m = Item x" "heap pq' = h" "config pq' = config pq" "closed pq' = closed pq"
    "ByPriority (stats pq') = ByPriority (stats pq)" "PeakSize (stats pq') = PeakSize (stats pq)"
    using assms(3) by (auto simp: popAndUpdateStats_def p)
  have "spec_least x (queue_abs pq)"
    using pqh.heap_Pop_least [OF p assms(2)] assms(1) parts(2) by (auto simp: spec_least_def queue_abs_def pq_inv_def)
  moreover have "pq_inv pq'"
    using assms(1) pqh.heap_Pop_ordered [OF p assms(2)] parts(3) by (auto simp: pq_inv_def r)
  moreover have "queue_abs pq' = (queue_abs pq)\<lparr>items := items (queue_abs pq) - {#x#}\<rparr>"
    by (simp add: queue_abs_def r parts(2))
  ultimately show thesis using that r(1) by blast
qed

lemma drain_step:
  assumes "pq_inv pq" "DrainTo dst pq = (out, pq')"
  obtains xs where "out = dst @ map Item xs" "mset xs = mset (heap pq)" "sorted (map item_key xs)" "pq' = pq\<lparr>heap := []\<rparr>"
proof -
  obtain xs h where d: "pqh.drain (length (heap pq)) (heap pq) = (xs, h)" by fastforce
  have "mset xs = mset (heap pq) \<and> mset h = {#} \<and> ordered h \<and> sorted (map item_key xs)"
    using pqh.drain_sorted [of "heap pq" xs h] assms(1) d by (simp only: pq_inv_def size_mset)
  moreover have "out = dst @ map Item xs" "pq' = pq\<lparr>heap := h\<rparr>"
    using assms(2) by (auto simp: DrainTo_def drain_loop_drain d)
  ultimately show thesis using that by simp
qed

lemma pq_step_refines:
  assumes "pq_inv pq" "pq_step p pq = (out, pq')"
  shows "pq_inv pq' \<and> spec_step p out (queue_abs pq) (queue_abs pq')"
proof (cases p)
  case (DoEnqueue now msg prio)
  then show ?thesis using assms(2) by (auto split: prod.splits dest: enqueue_step [OF assms(1)])
next
  case (DoEnqueueDefault now msg)
  then obtain b where b: "Enqueue now msg (fallback (queue_abs pq)) pq = (b, pq')" "out = Accepted b"
    using assms(2) by (auto simp: EnqueueWithDefault_def queue_abs_def split: prod.splits)
  show ?thesis using enqueue_step [OF assms(1) b(1)]
    by (auto simp: DoEnqueueDefault b(2) intro: spec_step.enqueue_default)
next
  case (DoDequeue now)
  show ?thesis
  proof (cases "heap pq = []")
    case True
    then show ?thesis using assms DoDequeue by (auto simp: Dequeue_def queue_abs_def intro: spec_step.dequeue_empty)
  next
    case False
    obtain m pq1 where pop: "popAndUpdateStats now pq = (m, pq1)" by fastforce
    from pop_step [OF assms(1) False pop] obtain x where x: "m = Item x" "spec_least x (queue_abs pq)"
      "pq_inv pq1" "queue_abs pq1 = (queue_abs pq)\<lparr>items := items (queue_abs pq) - {#x#}\<rparr>" .
    moreover have "out = Got (Some m)" "pq' = pq1" using assms(2) DoDequeue False pop by (auto simp: Dequeue_def)
    ultimately show ?thesis using spec_step.dequeue [OF x(2)] by (simp add: DoDequeue)
  qed
next
  case DoPeek
  have "spec_step DoPeek (Got (Peek pq)) (queue_abs pq) (queue_abs pq)"
  proof (cases "heap pq = []")
    case True
    then show ?thesis by (simp add: Peek_def queue_abs_def spec_step.peek_empty)
  next
    case False
    have "spec_least (heap pq ! 0) (queue_abs pq)"
      using pqh.heap_root_least [of "heap pq"] assms(1) False
      by (fastforce simp: spec_least_def queue_abs_def pq_inv_def in_set_conv_nth)
    then show ?thesis using False spec_step.peek by (simp add: Peek_def)
  qed
  then show ?thesis using assms DoPeek by auto
next
  case DoClear
  then show ?thesis using assms spec_step.clear [of "queue_abs pq"]
    by (auto simp: Clear_def queue_abs_def pq_inv_def pqh.heap_ordered_def)
next
  case DoClose
  then show ?thesis using assms spec_step.close [of "queue_abs pq"]
    by (auto simp: Close_def queue_abs_def pq_inv_def)
next
  case (DoDrain dst)
  obtain ms where ms: "DrainTo dst pq = (ms, pq')" "out = Drained ms"
    using assms(2) DoDrain by (auto split: prod.splits)
  from drain_step [OF assms(1) ms(1)] obtain xs where xs: "ms = dst @ map Item xs" "mset xs = mset (heap pq)"
    "sorted (map item_key xs)" "pq' = pq\<lparr>heap := []\<rparr>" .
  show ?thesis using assms(1) spec_step.drain [of xs "queue_abs pq" dst] xs ms(2)
    by (auto simp: DoDrain queue_abs_def pq_inv_def pqh.heap_ordered_def)
qed

lemma pq_run_refines:
  "pq_inv pq \<Longrightarrow> pq_run ps pq = (tr, pq') \<Longrightarrow> pq_inv pq' \<and> spec_run tr (queue_abs pq) (queue_abs pq')"
proof (induction ps arbitrary: pq tr)
  case (Cons p ps)
  obtain out pq1 where s: "pq_step p pq = (out, pq1)" by fastforce
  obtain tr1 where r: "pq_run ps pq1 = (tr1, pq')" "tr = (p, out) # tr1"
    using Cons.prems(2) s by (auto split: prod.splits)
  show ?case using pq_step_refines [OF Cons.prems(1) s] Cons.IH [OF _ r(1)] by (auto simp: r(2))
qed simp

lemma new_queue_inv: "pq_inv (NewPriorityQueue cfg)"
  by (simp add: NewPriorityQueue_def pq_inv_def pqh.heap_ordered_def)

interpretation pqs: op_system "\<lambda>p pq. snd (pq_step p pq)" pq_inv
  by unfold_locales (metis pq_step_refines prod.collapse)

section \<open>Stable order\<close>

text \<open>Messages handed in one after the other, each with its priority and the time of the call.\<close>

fun enqueue_all :: "('m \<times> MessagePriority \<times> time) list \<Rightarrow> 'm PriorityQueue \<Rightarrow> 'm PriorityQueue" where
  "enqueue_all [] pq = pq"
| "enqueue_all ((m, p, now) # ms) pq = enqueue_all ms (snd (Enqueue now (Some m) p pq))"

definition item_of :: "'m \<times> MessagePriority \<times> time \<Rightarrow> 'm PriorityItem" where
  "item_of e = \<lparr>Item = fst e, Priority = fst (snd e), Arrival = snd (snd e)\<rparr>"

lemma item_of_parts [simp]:
  "Item (item_of e) = fst e" "item_key (item_of e) = snd e"
  by (simp_all add: item_of_def item_key_def)

lemma enqueue_all_contents:
  assumes "pq_inv pq" "\<not> closed pq" "MaxSize (config pq) = 0 \<or> int (length (heap pq) + length ms) \<le> MaxSize (config pq)"
  shows "pq_inv (enqueue_all ms pq) \<and> mset (heap (enqueue_all ms pq)) = mset (heap pq) + mset (map item_of ms)"
  using assms
proof (induction ms arbitrary: pq)
  case (Cons e ms)
  obtain m p now where e: "e = (m, p, now)" by (cases e)
  define pq1 where "pq1 = snd (Enqueue now (Some m) p pq)"
  have inv: "pq_inv pq1" using enqueue_step [OF Cons.prems(1)] by (metis pq1_def prod.collapse)
  have q1: "heap pq1 = heap_Push Less (item_of e) (heap pq)" "config pq1 = config pq" "closed pq1 = closed pq"
    using Cons.prems(2,3) by (auto simp: pq1_def e Enqueue_def dropEnqueueWhenFullLocked_def item_of_def)
  have "pq_inv (enqueue_all ms pq1) \<and> mset (heap (enqueue_all ms pq1)) = mset (heap pq1) + mset (map item_of ms)"
    using Cons.prems(2,3) by (intro Cons.IH inv) (auto simp: q1)
  moreover have "enqueue_all (e # ms) pq = enqueue_all ms pq1" by (simp add: e pq1_def)
  ultimately show ?case by (simp add: q1 pqh.mset_heap_Push)
qed simp

lemma insort_key_cong:
  "(\<And>y. y \<in> set ys \<Longrightarrow> f x \<le> f y \<longleftrightarrow> g x \<le> g y) \<Longrightarrow> insort_key f x ys = insort_key g x ys"
  by (induction ys) auto

lemma sort_by_priority:
  "sorted_wrt (<) (map (snd \<circ> snd) ms) \<Longrightarrow> sort_key snd ms = sort_key (fst \<circ> snd) ms"
proof (induction ms)
  case (Cons e ms)
  have "insort_key snd e (sort_key snd ms) = insort_key (fst \<circ> snd) e (sort_key snd ms)"
    using Cons.prems by (intro insort_key_cong) (auto simp: less_eq_prod_def)
  then show ?case using Cons by (simp add: comp_def)
qed simp

lemma sort_items: "sort_key item_key (map item_of ms) = map item_of (sort_key snd ms)"
proof (induction ms)
  case (Cons e ms)
  have "insort_key item_key (item_of e) (map item_of ys) = map item_of (insort_key snd e ys)" for ys
    by (induction ys) auto
  then show ?case using Cons by simp
qed simp

section \<open>Properties\<close>

text \<open>
  C21. Every run of the queue is a run of the abstract queue: each call returns what a multiset with a
  capacity allows, a dequeue or a peek returns a least item by priority and arrival, a full or closed
  queue refuses, and draining returns everything in order.\<close>
theorem queue_refines_spec:
  "spec_run (fst (pq_run ps (NewPriorityQueue cfg))) (queue_abs (NewPriorityQueue cfg))
     (queue_abs (snd (pq_run ps (NewPriorityQueue cfg))))"
  using pq_run_refines [OF new_queue_inv, of ps cfg] by (simp split: prod.splits)

text \<open>
  C23. Messages handed to an open queue with room for them, at increasing times, are drained in the order of
  the library's stable sort by priority: lower levels first, and within a level first come, first served.\<close>
theorem drain_is_stable_sort:
  assumes "sorted_wrt (<) (map (snd \<circ> snd) ms)"
    and "MaxSize cfg = 0 \<or> int (length ms) \<le> MaxSize cfg"
  shows "fst (DrainTo [] (enqueue_all ms (NewPriorityQueue (Some cfg)))) = map fst (sort_key (fst \<circ> snd) ms)"
proof -
  let ?pq = "enqueue_all ms (NewPriorityQueue (Some cfg))"
  have q: "pq_inv ?pq" "mset (heap ?pq) = mset (map item_of ms)"
    using enqueue_all_contents [OF new_queue_inv, of "Some cfg" ms] assms(2) by (auto simp: NewPriorityQueue_def)
  obtain xs where xs: "fst (DrainTo [] ?pq) = [] @ map Item xs" "mset xs = mset (heap ?pq)" "sorted (map item_key xs)"
    by (rule drain_step [OF q(1) surjective_pairing])
  have time: "inj_on (snd \<circ> snd) (set ms)"
    using assms(1) by (simp add: strict_sorted_iff distinct_map)
  have "inj_on (item_key \<circ> item_of) (set ms)" using inj_onD [OF time] by (intro inj_onI) simp
  then have "inj_on item_key (set (map item_of ms))" using inj_on_imageI by fastforce
  then have "sort_key item_key (map item_of ms) = xs"
    using xs(2,3) q(2) by (intro sort_key_inj_key_eq) auto
  then have "map Item xs = map Item (map item_of (sort_key snd ms))" by (simp add: sort_items)
  then show ?thesis using sort_by_priority [OF assms(1)] by (simp add: xs(1) comp_def)
qed

lemma drain_is_stable_sort_witness:
  "fst (DrainTo [] (enqueue_all [(''a'', 3, 1), (''b'', 0, 2), (''c'', 3, 5), (''d'', 0, 7)]
      (NewPriorityQueue (Some \<lparr>MaxSize = 4, DefaultPriority = 1, EnableStats = True\<rparr>)))) = [''b'', ''d'', ''a'', ''c'']"
  using drain_is_stable_sort [of "[(''a'', 3, 1), (''b'', 0, 2), (''c'', 3, 5), (''d'', 0, 7)]"
      "\<lparr>MaxSize = 4, DefaultPriority = 1, EnableStats = True\<rparr>"] by simp

text \<open>
  A call that waits for a message returns exactly when, after some of the wake-ups, the queue has a
  message or is closed: it neither misses a message nor keeps waiting on a closed queue.\<close>
theorem wait_returns:
  "DequeueWait now ws pq \<noteq> None \<longleftrightarrow>
     (\<exists>k \<le> length ws. let q = fold (\<lambda>w. w) (take k ws) pq in heap q \<noteq> [] \<or> closed q)"
proof (induction ws arbitrary: pq)
  case Nil
  then show ?case by (subst DequeueWait.simps) (auto split: prod.splits)
next
  case (Cons w ws)
  show ?case
  proof (cases "heap pq = [] \<and> \<not> closed pq")
    case True
    have "(\<exists>k \<le> length (w # ws). let q = fold (\<lambda>w. w) (take k (w # ws)) pq in heap q \<noteq> [] \<or> closed q) \<longleftrightarrow>
        (\<exists>k \<le> length ws. let q = fold (\<lambda>w. w) (take k ws) (w pq) in heap q \<noteq> [] \<or> closed q)"
      (is "?l \<longleftrightarrow> ?r")
    proof
      assume ?l
      then obtain k where k: "k \<le> length (w # ws)" "let q = fold (\<lambda>w. w) (take k (w # ws)) pq in heap q \<noteq> [] \<or> closed q"
        by blast
      then obtain k' where "k = Suc k'" using True by (cases k) auto
      then show ?r using k by auto
    next
      assume ?r
      then obtain k where "k \<le> length ws" "let q = fold (\<lambda>w. w) (take k ws) (w pq) in heap q \<noteq> [] \<or> closed q" by blast
      then show ?l by (intro exI [of _ "Suc k"]) simp
    qed
    moreover have "DequeueWait now (w # ws) pq = DequeueWait now ws (w pq)"
      using True by (subst DequeueWait.simps) simp
    ultimately show ?thesis using Cons.IH by simp
  next
    case False
    then show ?thesis by (subst DequeueWait.simps) (auto split: prod.splits intro!: exI [of _ 0])
  qed
qed

text \<open>
  Three messages of one priority that arrive at the same reading of the clock leave in the order first,
  third, second: equal times are not kept in order of arrival.\<close>
theorem equal_times_reordered:
  "fst (DrainTo [] (enqueue_all [(''first'', 1, 7), (''second'', 1, 7), (''third'', 1, 7)] (NewPriorityQueue None))) =
     [''first'', ''third'', ''second'']"
  by code_simp

text \<open>
  The queue never holds more than its capacity, and the recorded peak is never below its size, after
  any sequence of calls.\<close>
theorem queue_bounded:
  assumes "MaxSize cfg > 0"
  shows "let pq = snd (pq_run ps (NewPriorityQueue (Some cfg)))
         in int (Len pq) \<le> MaxSize cfg \<and> int (Len pq) \<le> PeakSize (stats pq)"
proof -
  let ?pq = "snd (pq_run ps (NewPriorityQueue (Some cfg)))"
  have "config (snd (pq_run ps pq)) = config pq" for ps and pq :: "'a PriorityQueue"
  proof (induction ps arbitrary: pq)
    case (Cons p ps)
    have "config (snd (pq_step p pq)) = config pq"
      by (cases p) (auto simp: Enqueue_def EnqueueWithDefault_def dropEnqueueWhenFullLocked_def Dequeue_def
          popAndUpdateStats_def Clear_def Close_def DrainTo_def split: prod.splits option.splits if_splits)
    then show ?case using Cons.IH [of "snd (pq_step p pq)"] by (auto split: prod.splits)
  qed simp
  then have "config ?pq = cfg" by (simp add: NewPriorityQueue_def)
  moreover have "pq_inv ?pq" using pq_run_refines [OF new_queue_inv, of ps "Some cfg"] by (metis prod.collapse)
  ultimately show ?thesis using assms by (simp add: pq_inv_def Len_def)
qed

lemma queue_bounded_witness:
  "int (Len (snd (pq_run [DoEnqueue 1 (Some ''a'') 0, DoEnqueue 2 (Some ''b'') 0]
      (NewPriorityQueue (Some \<lparr>MaxSize = 1, DefaultPriority = 1, EnableStats = True\<rparr>))))) \<le> 1"
  using queue_bounded [of "\<lparr>MaxSize = 1, DefaultPriority = 1, EnableStats = True\<rparr>"
      "[DoEnqueue 1 (Some ''a'') 0, DoEnqueue 2 (Some ''b'') 0]"] by (simp only: Let_def PriorityQueueConfig.simps)

end
