(* ===== verification/Nacl_Box.thy ===== *)
theory Nacl_Box
  imports Tox_Prelude
begin

text \<open>
  Public-key and symmetric authenticated encryption, \<^verbatim>\<open>crypto/encrypt.go\<close> and \<^verbatim>\<open>crypto/decrypt.go\<close>. The
  \<^verbatim>\<open>box\<close> and \<^verbatim>\<open>secretbox\<close> packages they call are a parameter: a record of functions with the laws that
  their documentation gives.
\<close>

record nacl =
  box_Seal :: "bytes \<Rightarrow> bytes \<Rightarrow> key32 \<Rightarrow> key32 \<Rightarrow> bytes"
  box_Open :: "bytes \<Rightarrow> bytes \<Rightarrow> key32 \<Rightarrow> key32 \<Rightarrow> bytes option"
  secretbox_Seal :: "bytes \<Rightarrow> bytes \<Rightarrow> key32 \<Rightarrow> bytes"
  secretbox_Open :: "bytes \<Rightarrow> bytes \<Rightarrow> key32 \<Rightarrow> bytes option"
  box_public :: "key32 \<Rightarrow> key32"

definition box_opens :: "nacl \<Rightarrow> bool" where
  "box_opens N \<longleftrightarrow>
     (\<forall>m n sk sk'. box_Open N (box_Seal N m n (box_public N sk') sk) n (box_public N sk) sk' = Some m) \<and>
     (\<forall>m n pk sk. length (box_Seal N m n pk sk) = length m + 16)"

definition secretbox_opens :: "nacl \<Rightarrow> bool" where
  "secretbox_opens N \<longleftrightarrow>
     (\<forall>m n k. secretbox_Open N (secretbox_Seal N m n k) n k = Some m) \<and>
     (\<forall>m n k. length (secretbox_Seal N m n k) = length m + 16)"

abbreviation (input) NonceSize :: nat where "NonceSize \<equiv> 24"
abbreviation (input) MaxEncryptionBuffer :: int where "MaxEncryptionBuffer \<equiv> 1024 * 1024"

datatype nacl_error = EmptyMessage | MessageTooLarge | EmptyCiphertext | DecryptionFailed | NonceGenerationFailed

text \<open>\<open>rnd\<close> is what the system's random source delivers, or \<^const>\<open>None\<close> when it fails.\<close>

definition GenerateNonce :: "bytes option \<Rightarrow> nacl_error + bytes" where
  "GenerateNonce rnd = (case rnd of None \<Rightarrow> Err NonceGenerationFailed | Some n \<Rightarrow> Ok n)"

definition Encrypt :: "nacl \<Rightarrow> bytes \<Rightarrow> bytes \<Rightarrow> key32 \<Rightarrow> key32 \<Rightarrow> nacl_error + bytes" where
  "Encrypt N message nonce recipientPK senderSK =
     (if length message = 0 then Err EmptyMessage
      else if int (length message) > MaxEncryptionBuffer then Err MessageTooLarge
      else Ok (box_Seal N message nonce recipientPK senderSK))"

definition EncryptSymmetric :: "nacl \<Rightarrow> bytes \<Rightarrow> bytes \<Rightarrow> key32 \<Rightarrow> nacl_error + bytes" where
  "EncryptSymmetric N message nonce k =
     (if length message = 0 then Err EmptyMessage
      else if int (length message) > MaxEncryptionBuffer then Err MessageTooLarge
      else Ok (secretbox_Seal N message nonce k))"

definition Decrypt :: "nacl \<Rightarrow> bytes \<Rightarrow> bytes \<Rightarrow> key32 \<Rightarrow> key32 \<Rightarrow> nacl_error + bytes" where
  "Decrypt N ciphertext nonce senderPK recipientSK =
     (if length ciphertext = 0 then Err EmptyCiphertext
      else case box_Open N ciphertext nonce senderPK recipientSK of
        None \<Rightarrow> Err DecryptionFailed
      | Some decrypted \<Rightarrow> Ok decrypted)"

definition DecryptSymmetric :: "nacl \<Rightarrow> bytes \<Rightarrow> bytes \<Rightarrow> key32 \<Rightarrow> nacl_error + bytes" where
  "DecryptSymmetric N ciphertext nonce k =
     (if length ciphertext = 0 then Err EmptyCiphertext
      else case secretbox_Open N ciphertext nonce k of
        None \<Rightarrow> Err DecryptionFailed
      | Some out \<Rightarrow> Ok out)"

lemma Decrypt_Encrypt:
  assumes "box_opens N" "Encrypt N m n (box_public N sk') sk = Ok c"
  shows "Decrypt N c n (box_public N sk) sk' = Ok m"
proof -
  have c: "c = box_Seal N m n (box_public N sk') sk" using assms(2) by (simp add: Encrypt_def split: if_splits)
  then have "length c = length m + 16" using assms(1) by (simp add: box_opens_def)
  then show ?thesis using assms(1) c by (auto simp: Decrypt_def box_opens_def)
qed

lemma DecryptSymmetric_EncryptSymmetric:
  assumes "secretbox_opens N" "EncryptSymmetric N m n k = Ok c"
  shows "DecryptSymmetric N c n k = Ok m"
proof -
  have c: "c = secretbox_Seal N m n k" using assms(2) by (simp add: EncryptSymmetric_def split: if_splits)
  then have "length c = length m + 16" using assms(1) by (simp add: secretbox_opens_def)
  then show ?thesis using assms(1) c by (auto simp: DecryptSymmetric_def secretbox_opens_def)
qed

lemma Encrypt_total:
  "m \<noteq> [] \<Longrightarrow> int (length m) \<le> MaxEncryptionBuffer \<Longrightarrow> Encrypt N m n pk sk = Ok (box_Seal N m n pk sk)"
  by (simp add: Encrypt_def)

end
