(* ===== verification/Base64.thy ===== *)
theory Base64
  imports Tox_Prelude
begin

text \<open>
  The standard alphabet of \<^verbatim>\<open>encoding/base64\<close> with padding, as message texts are carried: three bytes are
  four characters, line breaks are skipped when reading, and anything else is an error.
\<close>

definition b64_char :: "nat \<Rightarrow> byte" where
  "b64_char n = of_nat (if n < 26 then 65 + n else if n < 52 then 71 + n else if n < 62 then n - 4
                        else if n = 62 then 43 else 47)"

definition b64_val :: "byte \<Rightarrow> nat option" where
  "b64_val c =
     (let n = unat c in
      if 65 \<le> n \<and> n \<le> 90 then Some (n - 65)
      else if 97 \<le> n \<and> n \<le> 122 then Some (n - 71)
      else if 48 \<le> n \<and> n \<le> 57 then Some (n + 4)
      else if n = 43 then Some 62 else if n = 47 then Some 63 else None)"

fun EncodeToString :: "bytes \<Rightarrow> bytes" where
  "EncodeToString [] = []"
| "EncodeToString [a] =
     [b64_char (unat a div 4), b64_char (unat a mod 4 * 16), 61, 61]"
| "EncodeToString [a, b] =
     [b64_char (unat a div 4), b64_char (unat a mod 4 * 16 + unat b div 16), b64_char (unat b mod 16 * 4), 61]"
| "EncodeToString (a # b # c # bs) =
     [b64_char (unat a div 4), b64_char (unat a mod 4 * 16 + unat b div 16),
      b64_char (unat b mod 16 * 4 + unat c div 64), b64_char (unat c mod 64)] @ EncodeToString bs"

fun b64_groups :: "bytes \<Rightarrow> bytes option" where
  "b64_groups [] = Some []"
| "b64_groups (w # x # y # z # cs) =
     (case (b64_val w, b64_val x) of
        (Some p, Some q) \<Rightarrow>
          (if y = 61 then (if z = 61 \<and> cs = [] then Some [of_nat (p * 4 + q div 16)] else None)
           else case b64_val y of
             None \<Rightarrow> None
           | Some r \<Rightarrow>
               (if z = 61
                then (if cs = [] then Some [of_nat (p * 4 + q div 16), of_nat (q mod 16 * 16 + r div 4)] else None)
                else case b64_val z of
                  None \<Rightarrow> None
                | Some s \<Rightarrow>
                    map_option (\<lambda>bs. of_nat (p * 4 + q div 16) # of_nat (q mod 16 * 16 + r div 4) #
                                      of_nat (r mod 4 * 64 + s) # bs) (b64_groups cs)))
      | _ \<Rightarrow> None)"
| "b64_groups _ = None"

datatype base64_error = CorruptInput

definition DecodeString :: "bytes \<Rightarrow> base64_error + bytes" where
  "DecodeString s =
     (case b64_groups (filter (\<lambda>c. c \<noteq> 10 \<and> c \<noteq> 13) s) of None \<Rightarrow> Err CorruptInput | Some bs \<Rightarrow> Ok bs)"

section \<open>Reading what was written\<close>

lemma b64_char_val: "n < 64 \<Longrightarrow> b64_val (b64_char n) = Some n"
  by (auto simp: b64_char_def b64_val_def Let_def unat_of_nat take_bit_nat_def)

lemma b64_char_plain:
  assumes "n < 64"
  shows "b64_char n \<noteq> 61" "b64_char n \<noteq> 10" "b64_char n \<noteq> 13"
  using assms by (auto simp: b64_char_def word_unat_eq_iff unat_of_nat take_bit_nat_def)

lemma byte_parts:
  fixes a b :: byte
  shows "unat a div 4 < 64" "unat a mod 4 * 16 < 64" "unat a mod 4 * 16 + unat b div 16 < 64"
    "unat a mod 16 * 4 < 64" "unat a mod 16 * 4 + unat b div 64 < 64" "unat a mod 64 < 64"
proof -
  have "unat a < 256" "unat b < 256" by (rule order.strict_trans2 [OF unsigned_less], simp)+
  then show "unat a div 4 < 64" "unat a mod 4 * 16 < 64" "unat a mod 4 * 16 + unat b div 16 < 64"
    "unat a mod 16 * 4 < 64" "unat a mod 16 * 4 + unat b div 64 < 64" "unat a mod 64 < 64"
    by linarith+
qed

lemma byte_div [simp]:
  fixes b :: byte
  shows "unat b div 16 div 16 = 0" "unat b div 16 mod 16 = unat b div 16"
    "unat b div 64 div 4 = 0" "unat b div 64 mod 4 = unat b div 64"
proof -
  have "unat b < 256" by (rule order.strict_trans2 [OF unsigned_less]) simp
  then show "unat b div 16 div 16 = 0" "unat b div 16 mod 16 = unat b div 16"
    "unat b div 64 div 4 = 0" "unat b div 64 mod 4 = unat b div 64" by simp_all
qed

lemma b64_groups_Encode: "b64_groups (EncodeToString bs) = Some bs"
  by (induction bs rule: EncodeToString.induct)
    (simp_all del: of_nat_add of_nat_mult of_nat_numeral div_mult2_eq' add: b64_char_val byte_parts b64_char_plain)

lemma Encode_plain: "c \<in> set (EncodeToString bs) \<Longrightarrow> c \<noteq> 10 \<and> c \<noteq> 13"
  by (induction bs rule: EncodeToString.induct) (auto simp: b64_char_plain byte_parts)

lemma Decode_Encode [simp]: "DecodeString (EncodeToString bs) = Ok bs"
proof -
  have "filter (\<lambda>c. c \<noteq> 10 \<and> c \<noteq> 13) (EncodeToString bs) = EncodeToString bs"
    using Encode_plain by (intro filter_True) blast
  then show ?thesis by (simp add: DecodeString_def b64_groups_Encode)
qed

interpretation b64: codec EncodeToString DecodeString "\<lambda>_. True"
  by unfold_locales simp

end
