(* ===== verification/Message_Payload.thy ===== *)
theory Message_Payload
  imports Limits
begin

text \<open>
  The payload format of messages in \<^verbatim>\<open>messaging/message.go\<close>: a length, the text and zero padding up to one of
  four sizes, so that the size of a ciphertext tells little about the text.
\<close>

datatype payload_error = PayloadTooLong | PayloadTooShort | PayloadLengthInvalid

definition PaddingSizes :: "nat list" where "PaddingSizes = [256, 1024, 4096, 16384]"

abbreviation (input) maxPaddedPayload :: nat where "maxPaddedPayload \<equiv> 16384 - 4"

fun pad_loop :: "nat list \<Rightarrow> bytes \<Rightarrow> payload_error + bytes" where
  "pad_loop [] data = Err PayloadTooLong"
| "pad_loop (sz # sizes) data =
     (if length data \<le> sz then Ok (data @ replicate (sz - length data) 0) else pad_loop sizes data)"

definition padMessage :: "bytes \<Rightarrow> payload_error + bytes" where
  "padMessage data = pad_loop PaddingSizes data"

definition encodeMessagePayload :: "bytes \<Rightarrow> payload_error + bytes" where
  "encodeMessagePayload plaintext =
     (if length plaintext > maxPaddedPayload then Err PayloadTooLong
      else padMessage (PutUint32 (of_nat (length plaintext)) @ plaintext))"

definition decodeMessagePayload :: "bytes \<Rightarrow> payload_error + bytes" where
  "decodeMessagePayload plaintext =
     (if length plaintext < 4 then Err PayloadTooShort
      else let messageLen = Uint32 (slice 0 4 plaintext)
           in if unat messageLen > length plaintext - 4 then Err PayloadLengthInvalid
              else Ok (slice 4 (unat (4 + messageLen)) plaintext))"

section \<open>Padding\<close>

lemma pad_loop_Ok: "pad_loop szs data = Ok p \<Longrightarrow> length p \<in> set szs \<and> length data \<le> length p \<and> take (length data) p = data"
  by (induction szs) (auto split: if_splits)

lemma pad_loop_total: "\<exists>sz \<in> set szs. length data \<le> sz \<Longrightarrow> \<exists>p. pad_loop szs data = Ok p"
  by (induction szs) auto

lemma pad_loop_least:
  "pad_loop szs data = Ok p \<Longrightarrow> sorted szs \<Longrightarrow> sz \<in> set szs \<Longrightarrow> length data \<le> sz \<Longrightarrow> length p \<le> sz"
  by (induction szs) (auto split: if_splits)

lemma encode_Ok:
  assumes "length t \<le> maxPaddedPayload"
  obtains p where "encodeMessagePayload t = Ok p" "length p \<in> set PaddingSizes" "4 + length t \<le> length p"
    "take (4 + length t) p = PutUint32 (of_nat (length t)) @ t"
proof -
  let ?d = "PutUint32 (of_nat (length t)) @ t"
  have e: "encodeMessagePayload t = pad_loop PaddingSizes ?d"
    using assms by (simp add: encodeMessagePayload_def padMessage_def)
  have "16384 \<in> set PaddingSizes" "length ?d \<le> 16384"
    using assms by (simp_all add: PaddingSizes_def)
  then obtain p where p: "pad_loop PaddingSizes ?d = Ok p" using pad_loop_total by blast
  with pad_loop_Ok [OF p] e show thesis using that by simp
qed

lemma decode_framed:
  assumes "length t \<le> maxPaddedPayload" "4 + length t \<le> length p"
    and "take (4 + length t) p = PutUint32 (of_nat (length t)) @ t"
  shows "decodeMessagePayload p = Ok t"
proof -
  let ?n = "of_nat (length t) :: u32"
  have n: "unat ?n = length t" "unat (4 + ?n) = 4 + length t"
    using assms(1) by (auto simp: unat_of_nat_u32 unat_word_ariths(1))
  have "take 4 p = take 4 (take (4 + length t) p)" by (simp add: min_def)
  then have "slice 0 4 p = PutUint32 ?n" using assms(3) by (simp add: slice_def)
  moreover have "slice 4 (4 + length t) p = drop 4 (take (4 + length t) p)" by (simp add: slice_def drop_take)
  then have "slice 4 (4 + length t) p = t" by (simp add: assms(3))
  ultimately show ?thesis using assms(2) n by (simp add: decodeMessagePayload_def Let_def)
qed

lemma decode_encode:
  assumes "encodeMessagePayload t = Ok p"
  shows "decodeMessagePayload p = Ok t"
proof -
  have "length t \<le> maxPaddedPayload" using assms by (auto simp: encodeMessagePayload_def split: if_splits)
  from encode_Ok [OF this] decode_framed [OF this] show ?thesis using assms by (metis sum.inject(2))
qed

interpretation payload: codec "\<lambda>t. projr (encodeMessagePayload t)" decodeMessagePayload
  "\<lambda>t. length t \<le> maxPaddedPayload"
  by unfold_locales (metis decode_encode encode_Ok sum.sel(2))

section \<open>Properties\<close>

text \<open>
  A text of at most 16380 bytes is encoded into a payload of one of the four padded sizes, the least one
  that holds it with its length, and decoding the payload gives the text back.\<close>
theorem payload_roundtrip:
  assumes "length t \<le> maxPaddedPayload"
  shows "\<exists>p. encodeMessagePayload t = Ok p \<and> decodeMessagePayload p = Ok t \<and> length p \<in> set PaddingSizes \<and>
    (\<forall>sz \<in> set PaddingSizes. 4 + length t \<le> sz \<longrightarrow> length p \<le> sz)"
proof -
  obtain p where p: "encodeMessagePayload t = Ok p" "length p \<in> set PaddingSizes" by (rule encode_Ok [OF assms])
  have "pad_loop PaddingSizes (PutUint32 (of_nat (length t)) @ t) = Ok p" "sorted PaddingSizes"
    using p assms by (simp_all add: encodeMessagePayload_def padMessage_def PaddingSizes_def)
  then show ?thesis using p decode_encode [OF p(1)] pad_loop_least by fastforce
qed

lemma payload_roundtrip_witness:
  "\<exists>p. encodeMessagePayload [104, 105] = Ok p \<and> decodeMessagePayload p = Ok [104, 105] \<and> length p \<in> set PaddingSizes \<and>
    (\<forall>sz \<in> set PaddingSizes. 4 + length [104 :: byte, 105] \<le> sz \<longrightarrow> length p \<le> sz)"
  by (rule payload_roundtrip) simp

end
