(* ===== verification/Disappearing.thy ===== *)
theory Disappearing
  imports Tox_Prelude
begin

text \<open>
  Disappearing messages, \<^verbatim>\<open>messaging/disappearing.go\<close>: per conversation a configuration and one timer per
  message. The timers of the Go runtime are part of the state: an armed timer has a deadline, and once it
  has expired its callback runs as soon as it gets the lock; stopping reaches armed timers only.
\<close>

record DisappearingMessageConfig =
  Enabled :: bool
  Timer :: duration
  SetAt :: time

record DisappearingMessageManager =
  config :: DisappearingMessageConfig
  entries :: "(u32, nat) gomap"
  armed :: "(nat, time \<times> u32) gomap"
  running :: "(nat \<times> u32) list"
  nextTimer :: nat

definition newDisappearingMessageManager :: DisappearingMessageManager where
  "newDisappearingMessageManager =
     \<lparr>config = \<lparr>Enabled = False, Timer = 0, SetAt = 0\<rparr>, entries = [], armed = [], running = [], nextTimer = 0\<rparr>"

definition Config :: "DisappearingMessageManager \<Rightarrow> DisappearingMessageConfig" where
  "Config d = config d"

definition stopTimer :: "nat \<Rightarrow> DisappearingMessageManager \<Rightarrow> DisappearingMessageManager" where
  "stopTimer t d = d\<lparr>armed := mdel t (armed d)\<rparr>"

definition cancelAllLocked :: "DisappearingMessageManager \<Rightarrow> DisappearingMessageManager" where
  "cancelAllLocked d =
     fold (\<lambda>(mid, t) d. let d1 = stopTimer t d in d1\<lparr>entries := mdel mid (entries d1)\<rparr>) (entries d) d"

definition SetConfig :: "DisappearingMessageConfig \<Rightarrow> DisappearingMessageManager \<Rightarrow> DisappearingMessageManager" where
  "SetConfig cfg d =
     (let d1 = d\<lparr>config := cfg\<rparr>
      in if \<not> Enabled cfg \<or> Timer cfg = 0 then cancelAllLocked d1 else d1)"

definition ScheduleDeletion :: "time \<Rightarrow> u32 \<Rightarrow> DisappearingMessageManager \<Rightarrow> DisappearingMessageManager" where
  "ScheduleDeletion now messageID d =
     (if \<not> Enabled (config d) \<or> Timer (config d) = 0 then d
      else let d1 = (case mget (entries d) messageID of None \<Rightarrow> d | Some t \<Rightarrow> stopTimer t d);
               t = nextTimer d1
           in d1\<lparr>armed := mput t (now + Timer (config d1), messageID) (armed d1),
                 entries := mput messageID t (entries d1), nextTimer := t + 1\<rparr>)"

definition CancelDeletion :: "u32 \<Rightarrow> DisappearingMessageManager \<Rightarrow> DisappearingMessageManager" where
  "CancelDeletion messageID d =
     (case mget (entries d) messageID of
        None \<Rightarrow> d
      | Some t \<Rightarrow> let d1 = stopTimer t d in d1\<lparr>entries := mdel messageID (entries d1)\<rparr>)"

definition Stop :: "DisappearingMessageManager \<Rightarrow> DisappearingMessageManager" where
  "Stop d = cancelAllLocked d"

text \<open>The runtime starts the callback of an expired timer; the callback removes the entry and reports the message.\<close>

definition expire :: "time \<Rightarrow> nat \<Rightarrow> DisappearingMessageManager \<Rightarrow> DisappearingMessageManager" where
  "expire now t d =
     (case mget (armed d) t of
        Some (deadline, mid) \<Rightarrow>
          if deadline \<le> now then d\<lparr>armed := mdel t (armed d), running := (t, mid) # running d\<rparr> else d
      | None \<Rightarrow> d)"

definition timerCallback :: "nat \<Rightarrow> DisappearingMessageManager \<Rightarrow> u32 list \<times> DisappearingMessageManager" where
  "timerCallback t d =
     (case map_of (running d) t of
        None \<Rightarrow> ([], d)
      | Some mid \<Rightarrow>
          ([mid], d\<lparr>running := filter (\<lambda>r. fst r \<noteq> t) (running d), entries := mdel mid (entries d)\<rparr>))"

section \<open>Runs\<close>

datatype dm_op =
    DoConfig DisappearingMessageConfig
  | DoSchedule time u32
  | DoCancel u32
  | DoStop
  | DoExpire time nat
  | DoCallback nat

fun dm_step :: "dm_op \<Rightarrow> DisappearingMessageManager \<Rightarrow> u32 list \<times> DisappearingMessageManager" where
  "dm_step (DoConfig cfg) d = ([], SetConfig cfg d)"
| "dm_step (DoSchedule now mid) d = ([], ScheduleDeletion now mid d)"
| "dm_step (DoCancel mid) d = ([], CancelDeletion mid d)"
| "dm_step DoStop d = ([], Stop d)"
| "dm_step (DoExpire now t) d = ([], expire now t d)"
| "dm_step (DoCallback t) d = timerCallback t d"

fun dm_run :: "dm_op list \<Rightarrow> DisappearingMessageManager \<Rightarrow> u32 list \<times> DisappearingMessageManager" where
  "dm_run [] d = ([], d)"
| "dm_run (p # ps) d = (let (ids, d1) = dm_step p d; (ids', d2) = dm_run ps d1 in (ids @ ids', d2))"

section \<open>Armed timers belong to entries\<close>

definition timers_owned :: "DisappearingMessageManager \<Rightarrow> bool" where
  "timers_owned d \<longleftrightarrow> wf_map (entries d) \<and>
     (\<forall>t deadline mid. mget (armed d) t = Some (deadline, mid) \<longrightarrow> mget (entries d) mid = Some t)"


lemma cancel_fold:
  fixes es :: "(u32, nat) gomap"
  defines "step \<equiv> \<lambda>(mid, t) d. let d1 = stopTimer t d in d1\<lparr>entries := mdel mid (entries d1)\<rparr>"
  shows "running (fold step es d) = running d" "config (fold step es d) = config d"
    "mget (armed (fold step es d)) t = (if t \<in> snd ` set es then None else mget (armed d) t)"
    "mget (entries (fold step es d)) mid = (if mid \<in> fst ` set es then None else mget (entries d) mid)"
    "wf_map (entries d) \<Longrightarrow> wf_map (entries (fold step es d))"
proof -
  have "running (fold step es d) = running d \<and> config (fold step es d) = config d \<and>
    mget (armed (fold step es d)) t = (if t \<in> snd ` set es then None else mget (armed d) t) \<and>
    mget (entries (fold step es d)) mid = (if mid \<in> fst ` set es then None else mget (entries d) mid) \<and>
    (wf_map (entries d) \<longrightarrow> wf_map (entries (fold step es d)))"
  proof (induction es arbitrary: d)
    case (Cons e es)
    obtain i u where e: "e = (i, u)" by (cases e)
    show ?case using Cons.IH [of "step e d"] by (auto simp: e step_def stopTimer_def Let_def dict_simps)
  qed simp
  then show "running (fold step es d) = running d" "config (fold step es d) = config d"
    "mget (armed (fold step es d)) t = (if t \<in> snd ` set es then None else mget (armed d) t)"
    "mget (entries (fold step es d)) mid = (if mid \<in> fst ` set es then None else mget (entries d) mid)"
    "wf_map (entries d) \<Longrightarrow> wf_map (entries (fold step es d))" by blast+
qed

lemma cancelAllLocked_parts:
  "running (cancelAllLocked d) = running d"
  "mget (entries (cancelAllLocked d)) mid = None"
  "mget (armed (cancelAllLocked d)) t = (if t \<in> snd ` set (entries d) then None else mget (armed d) t)"
  "wf_map (entries d) \<Longrightarrow> wf_map (entries (cancelAllLocked d))"
  unfolding cancelAllLocked_def
  by (simp_all add: cancel_fold) (auto simp: mget_def map_of_eq_None_iff image_iff)

lemma cancelAllLocked_armed: "timers_owned d \<Longrightarrow> mget (armed (cancelAllLocked d)) t = None"
  by (cases "mget (armed d) t") (force simp: cancelAllLocked_parts timers_owned_def dest: mget_in_set)+

text \<open>Only the callback of a timer that has been replaced meanwhile leaves an armed timer without entry.\<close>

definition superseded :: "nat \<Rightarrow> DisappearingMessageManager \<Rightarrow> bool" where
  "superseded t d \<longleftrightarrow>
     (case map_of (running d) t of
        None \<Rightarrow> False
      | Some mid \<Rightarrow> (\<exists>t' deadline. mget (armed d) t' = Some (deadline, mid)))"

lemma timers_owned_step:
  "timers_owned d \<Longrightarrow> (\<forall>t. p = DoCallback t \<longrightarrow> \<not> superseded t d) \<Longrightarrow> timers_owned (snd (dm_step p d))"
proof (cases p)
  case (DoConfig cfg)
  assume d: "timers_owned d"
  then have "timers_owned (d\<lparr>config := cfg\<rparr>)" by (simp add: timers_owned_def)
  then show ?thesis using d cancelAllLocked_armed cancelAllLocked_parts(4)
    by (auto simp: DoConfig SetConfig_def Let_def timers_owned_def)
next
  case DoStop
  assume "timers_owned d"
  then show ?thesis using cancelAllLocked_armed [of d]
    by (auto simp: DoStop Stop_def timers_owned_def cancelAllLocked_parts)
next
  case (DoSchedule now mid)
  assume "timers_owned d"
  then show ?thesis by (auto simp: DoSchedule ScheduleDeletion_def stopTimer_def timers_owned_def Let_def dict_simps
        split: option.splits if_splits)
next
  case (DoCancel mid)
  assume "timers_owned d"
  then show ?thesis by (auto simp: DoCancel CancelDeletion_def stopTimer_def timers_owned_def Let_def dict_simps
        split: option.splits if_splits)
next
  case (DoExpire now t)
  assume "timers_owned d"
  then show ?thesis by (auto simp: DoExpire expire_def timers_owned_def dict_simps split: option.splits if_splits)
next
  case (DoCallback t)
  assume "timers_owned d" "\<forall>t. p = DoCallback t \<longrightarrow> \<not> superseded t d"
  then show ?thesis
    by (auto simp: DoCallback timerCallback_def timers_owned_def superseded_def dict_simps split: option.splits if_splits)
qed




section \<open>Properties\<close>


definition ten_seconds :: DisappearingMessageManager where
  "ten_seconds = SetConfig \<lparr>Enabled = True, Timer = 10, SetAt = 0\<rparr> newDisappearingMessageManager"


text \<open>
  Scheduling a deletion again while the callback of the expired timer waits for the lock: the message is
  deleted at once although its new time has not come, and a later cancellation does not find the new timer,
  which deletes the message a second time.\<close>
theorem reschedule_race:
  "fst (dm_run [DoSchedule 0 7, DoExpire 10 0, DoSchedule 10 7, DoCallback 0, DoCancel 7, DoExpire 20 1, DoCallback 1]
      ten_seconds) = [7, 7]"
  by code_simp

end
