(* ===== verification/Message_Manager.thy ===== *)
theory Message_Manager
  imports Ratchet_Session Nacl_Box Base64 Message_Payload Disappearing
begin

text \<open>
  The message manager, \<^verbatim>\<open>messaging/message.go\<close>. Messages are shared between the table, the queue and the
  goroutines that send them, so they live in a store of objects and are referred to by address; Double
  Ratchet sessions likewise. The record ends with the trace of what the manager has called so far: packets
  handed to the transport and callbacks. Clock, randomness and the transport's answer are arguments, and
  floating-point arithmetic is a record of operations.
\<close>

section \<open>Messages\<close>

type_synonym gostring = bytes
type_synonym MessageType = u8

datatype MessageState =
    MessageStatePending
  | MessageStateSending
  | MessageStateSent
  | MessageStateDelivered
  | MessageStateRead
  | MessageStateFailed

record Message =
  ID :: u32
  FriendID :: u32
  Type :: MessageType
  Text :: gostring
  Timestamp :: time
  State :: MessageState
  Retries :: u8
  LastAttempt :: "time option"
  encrypted :: bool
  deliveryCallback :: bool

definition newMessageWithTime :: "u32 \<Rightarrow> gostring \<Rightarrow> MessageType \<Rightarrow> time \<Rightarrow> Message" where
  "newMessageWithTime friendID text messageType timestamp =
     \<lparr>ID = 0, FriendID = friendID, Type = messageType, Text = text, Timestamp = timestamp,
      State = MessageStatePending, Retries = 0, LastAttempt = None, encrypted = False, deliveryCallback = False\<rparr>"

definition NewMessage :: "time \<Rightarrow> u32 \<Rightarrow> gostring \<Rightarrow> MessageType \<Rightarrow> Message" where
  "NewMessage now friendID text messageType = newMessageWithTime friendID text messageType now"

section \<open>Messages as JSON\<close>

text \<open>
  \<^verbatim>\<open>encoding/json\<close> writes the fields of \<^verbatim>\<open>messageJSON\<close> by name; a string that is not valid UTF-8 has each
  offending byte replaced by the replacement character.
\<close>

definition continuation :: "byte \<Rightarrow> bool" where
  "continuation b \<longleftrightarrow> 128 \<le> b \<and> b \<le> 191"

text \<open>The length of the valid encoding at the head of a string, or 0.\<close>

fun utf8_width :: "bytes \<Rightarrow> nat" where
  "utf8_width [] = 0"
| "utf8_width (a # bs) =
     (if a < 128 then 1
      else if 194 \<le> a \<and> a \<le> 223 then
        (case bs of b # _ \<Rightarrow> if continuation b then 2 else 0 | _ \<Rightarrow> 0)
      else if 224 \<le> a \<and> a \<le> 239 then
        (case bs of
           b # c # _ \<Rightarrow>
             if continuation b \<and> continuation c \<and> (a = 224 \<longrightarrow> 160 \<le> b) \<and> (a = 237 \<longrightarrow> b \<le> 159) then 3 else 0
         | _ \<Rightarrow> 0)
      else if 240 \<le> a \<and> a \<le> 244 then
        (case bs of
           b # c # d # _ \<Rightarrow>
             if continuation b \<and> continuation c \<and> continuation d \<and>
                (a = 240 \<longrightarrow> 144 \<le> b) \<and> (a = 244 \<longrightarrow> b \<le> 143) then 4 else 0
         | _ \<Rightarrow> 0)
      else 0)"

function json_string :: "bytes \<Rightarrow> bytes" where
  "json_string [] = []"
| "json_string (a # bs) =
     (let w = utf8_width (a # bs)
      in if w = 0 then [239, 191, 189] @ json_string bs
         else take w (a # bs) @ json_string (drop w (a # bs)))"
  by pat_completeness auto
termination by (relation "measure length") auto

record messageJSON =
  jID :: u32
  jFriendID :: u32
  jType :: MessageType
  jText :: gostring
  jTimestamp :: time
  jState :: MessageState
  jRetries :: u8
  jLastAttempt :: "time option"

definition MarshalJSON :: "Message \<Rightarrow> messageJSON" where
  "MarshalJSON m =
     \<lparr>jID = ID m, jFriendID = FriendID m, jType = Type m, jText = json_string (Text m), jTimestamp = Timestamp m,
      jState = State m, jRetries = Retries m, jLastAttempt = LastAttempt m\<rparr>"

text \<open>Reading fills the eight fields of a message that otherwise has its zero values.\<close>

definition UnmarshalJSON :: "messageJSON \<Rightarrow> Message" where
  "UnmarshalJSON jm =
     \<lparr>ID = jID jm, FriendID = jFriendID jm, Type = jType jm, Text = jText jm, Timestamp = jTimestamp jm,
      State = jState jm, Retries = jRetries jm, LastAttempt = jLastAttempt jm, encrypted = False,
      deliveryCallback = False\<rparr>"

record managerSnapshot =
  Messages :: "messageJSON option list"
  NextID :: u32

section \<open>The manager\<close>

record 'f float_ops =
  float_one :: 'f
  float_mul :: "'f \<Rightarrow> 'f \<Rightarrow> 'f"
  float_of_duration :: "duration \<Rightarrow> 'f"
  float_to_duration :: "'f \<Rightarrow> duration"

record KeyProvider =
  GetFriendPublicKey :: "u32 \<Rightarrow> key32 option"
  GetSelfPrivateKey :: key32

datatype mm_event =
    PacketSent u32 Message
  | DeliveryCall nat MessageState
  | GlobalDeliveryCall u32 u32 MessageState

record 'f MessageManager =
  messages :: "(u32, nat) gomap"
  nextID :: u32
  pendingQueue :: "nat list"
  maxRetries :: u8
  retryInterval :: duration
  transport :: bool
  keyProvider :: "KeyProvider option"
  storeSet :: bool
  ratchetSessions :: "(u32, nat) gomap"
  disappearing :: "(u32, DisappearingMessageManager) gomap"
  initialDelay :: duration
  maxDelay :: duration
  backoffFactor :: 'f
  retryEnabled :: bool
  globalDeliveryCallback :: bool
  cancelled :: bool
  objects :: "(nat, Message) gomap"
  sessions :: "(nat, Session) gomap"
  nextAddr :: nat
  trace :: "mm_event list"

datatype msg_error =
    MsgEmpty
  | MsgTooLong
  | OutboundPlaintextBlocked
  | KeyLookupFailed
  | NonceFailed
  | PayloadError payload_error
  | BoxError nacl_error
  | RatchetError dr_error
  | NoEncryption
  | Base64Error
  | RawTooShort
  | HeaderInvalid
  | NotFound
  | StoreNotConfigured
  | SaveFailed
  | LoadFailed

definition NewMessageManager :: "'f \<Rightarrow> 'f MessageManager" where
  "NewMessageManager two =
     \<lparr>messages = [], nextID = 1, pendingQueue = [], maxRetries = 3, retryInterval = 5 * 1000000000,
      transport = False, keyProvider = None, storeSet = False, ratchetSessions = [], disappearing = [],
      initialDelay = 5 * 1000000000, maxDelay = 5 * 60 * 1000000000, backoffFactor = two, retryEnabled = True,
      globalDeliveryCallback = False, cancelled = False, objects = [], sessions = [], nextAddr = 0, trace = []\<rparr>"

definition SetRetryConfig ::
  "bool \<Rightarrow> u8 \<Rightarrow> duration \<Rightarrow> duration \<Rightarrow> 'f \<Rightarrow> 'f MessageManager \<Rightarrow> 'f MessageManager" where
  "SetRetryConfig enabled retries initial maximum factor mm =
     mm\<lparr>retryEnabled := enabled, maxRetries := retries, initialDelay := initial, maxDelay := maximum,
        backoffFactor := factor, retryInterval := initial\<rparr>"

definition SetTransport :: "bool \<Rightarrow> 'f MessageManager \<Rightarrow> 'f MessageManager" where
  "SetTransport t mm = mm\<lparr>transport := t\<rparr>"

definition SetKeyProvider :: "KeyProvider option \<Rightarrow> 'f MessageManager \<Rightarrow> 'f MessageManager" where
  "SetKeyProvider kp mm = mm\<lparr>keyProvider := kp\<rparr>"

text \<open>A session handed over is given an address of its own.\<close>

definition SetRatchetSession :: "u32 \<Rightarrow> Session option \<Rightarrow> 'f MessageManager \<Rightarrow> 'f MessageManager" where
  "SetRatchetSession friendID session mm =
     (case session of
        None \<Rightarrow> mm\<lparr>ratchetSessions := mdel friendID (ratchetSessions mm)\<rparr>
      | Some s \<Rightarrow>
          mm\<lparr>ratchetSessions := mput friendID (nextAddr mm) (ratchetSessions mm),
             sessions := mput (nextAddr mm) s (sessions mm), nextAddr := nextAddr mm + 1\<rparr>)"

definition SetStore :: "bool \<Rightarrow> 'f MessageManager \<Rightarrow> 'f MessageManager" where
  "SetStore b mm = mm\<lparr>storeSet := b\<rparr>"

definition SetGlobalDeliveryCallback :: "bool \<Rightarrow> 'f MessageManager \<Rightarrow> 'f MessageManager" where
  "SetGlobalDeliveryCallback b mm = mm\<lparr>globalDeliveryCallback := b\<rparr>"

section \<open>Access to messages\<close>

definition deref :: "nat \<Rightarrow> 'f MessageManager \<Rightarrow> Message option" where
  "deref a mm = mget (objects mm) a"

definition modify :: "nat \<Rightarrow> (Message \<Rightarrow> Message) \<Rightarrow> 'f MessageManager \<Rightarrow> 'f MessageManager" where
  "modify a f mm =
     (case deref a mm of None \<Rightarrow> mm | Some m \<Rightarrow> mm\<lparr>objects := mput a (f m) (objects mm)\<rparr>)"

definition emit :: "mm_event \<Rightarrow> 'f MessageManager \<Rightarrow> 'f MessageManager" where
  "emit e mm = mm\<lparr>trace := trace mm @ [e]\<rparr>"

definition OnDeliveryStateChange :: "nat \<Rightarrow> bool \<Rightarrow> 'f MessageManager \<Rightarrow> 'f MessageManager" where
  "OnDeliveryStateChange a callback mm = modify a (\<lambda>m. m\<lparr>deliveryCallback := callback\<rparr>) mm"

definition SetState :: "nat \<Rightarrow> MessageState \<Rightarrow> 'f MessageManager \<Rightarrow> 'f MessageManager" where
  "SetState a state mm =
     (let mm1 = modify a (\<lambda>m. m\<lparr>State := state\<rparr>) mm
      in case deref a mm1 of
           None \<Rightarrow> mm1
         | Some m \<Rightarrow> if deliveryCallback m then emit (DeliveryCall a state) mm1 else mm1)"

definition GetState :: "nat \<Rightarrow> 'f MessageManager \<Rightarrow> MessageState option" where
  "GetState a mm = map_option State (deref a mm)"

definition GetRetries :: "nat \<Rightarrow> 'f MessageManager \<Rightarrow> u8 option" where
  "GetRetries a mm = map_option Retries (deref a mm)"

definition GetID :: "nat \<Rightarrow> 'f MessageManager \<Rightarrow> u32 option" where
  "GetID a mm = map_option ID (deref a mm)"

definition GetFriendID :: "nat \<Rightarrow> 'f MessageManager \<Rightarrow> u32 option" where
  "GetFriendID a mm = map_option FriendID (deref a mm)"

definition GetText :: "nat \<Rightarrow> 'f MessageManager \<Rightarrow> gostring option" where
  "GetText a mm = map_option Text (deref a mm)"

section \<open>Encryption\<close>

text \<open>
  Each path computes the wire text and then stores it in the message under the message's lock; the two parts
  are separate definitions because other goroutines may run between them. \<open>C\<close> and \<open>B\<close> are the ratchet's and
  NaCl's primitives, \<open>hrnd\<close> and \<open>nrnd\<close> the randomness for an encrypted header and for a nonce.
\<close>

definition store_wire :: "nat \<Rightarrow> gostring \<Rightarrow> 'f MessageManager \<Rightarrow> 'f MessageManager" where
  "store_wire a wire mm = modify a (\<lambda>m. m\<lparr>Text := wire, encrypted := True\<rparr>) mm"

definition ratchet_wire ::
  "dr_crypto \<Rightarrow> bytes option \<Rightarrow> nat \<Rightarrow> gostring \<Rightarrow> 'f MessageManager \<Rightarrow> (msg_error + gostring) \<times> 'f MessageManager" where
  "ratchet_wire C hrnd sess plainText mm =
     (case encodeMessagePayload plainText of
        Inl e \<Rightarrow> (Err (PayloadError e), mm)
      | Inr paddedData \<Rightarrow>
          (case mget (sessions mm) sess of
             None \<Rightarrow> (Err NotFound, mm)
           | Some s \<Rightarrow>
               (case RatchetEncrypt C hrnd paddedData [] s of
                  (r, s') \<Rightarrow>
                    (case r of Inl e \<Rightarrow> Err (RatchetError e) | Inr (h, ct) \<Rightarrow> Ok (EncodeToString (Header_Encode h @ ct)),
                     mm\<lparr>sessions := mput sess s' (sessions mm)\<rparr>))))"

definition encryptWithRatchet ::
  "dr_crypto \<Rightarrow> bytes option \<Rightarrow> nat \<Rightarrow> nat \<Rightarrow> gostring \<Rightarrow> 'f MessageManager \<Rightarrow> (msg_error + unit) \<times> 'f MessageManager" where
  "encryptWithRatchet C hrnd a sess plainText mm =
     (case ratchet_wire C hrnd sess plainText mm of
        (Inl e, mm1) \<Rightarrow> (Err e, mm1)
      | (Inr wire, mm1) \<Rightarrow> (Ok (), store_wire a wire mm1))"

definition nacl_wire :: "nacl \<Rightarrow> bytes option \<Rightarrow> u32 \<Rightarrow> gostring \<Rightarrow> KeyProvider option \<Rightarrow> msg_error + gostring" where
  "nacl_wire B nrnd friendID plainText kp =
     (case kp of
        None \<Rightarrow> Err OutboundPlaintextBlocked
      | Some p \<Rightarrow>
          (case GetFriendPublicKey p friendID of
             None \<Rightarrow> Err KeyLookupFailed
           | Some recipientPK \<Rightarrow>
               (case GenerateNonce nrnd of
                  Inl e \<Rightarrow> Err NonceFailed
                | Inr nonce \<Rightarrow>
                    (case encodeMessagePayload plainText of
                       Inl e \<Rightarrow> Err (PayloadError e)
                     | Inr paddedData \<Rightarrow>
                         (case Encrypt B paddedData nonce recipientPK (GetSelfPrivateKey p) of
                            Inl e \<Rightarrow> Err (BoxError e)
                          | Inr encryptedData \<Rightarrow> Ok (EncodeToString (nonce @ encryptedData)))))))"

definition encryptWithNaCl ::
  "nacl \<Rightarrow> bytes option \<Rightarrow> nat \<Rightarrow> u32 \<Rightarrow> gostring \<Rightarrow> KeyProvider option \<Rightarrow> 'f MessageManager \<Rightarrow>
   (msg_error + unit) \<times> 'f MessageManager" where
  "encryptWithNaCl B nrnd a friendID plainText kp mm =
     (case nacl_wire B nrnd friendID plainText kp of
        Inl e \<Rightarrow> (Err e, mm)
      | Inr wire \<Rightarrow> (Ok (), store_wire a wire mm))"

definition encryptMessage ::
  "dr_crypto \<Rightarrow> nacl \<Rightarrow> bytes option \<Rightarrow> bytes option \<Rightarrow> nat \<Rightarrow> 'f MessageManager \<Rightarrow> (msg_error + unit) \<times> 'f MessageManager" where
  "encryptMessage C B hrnd nrnd a mm =
     (case deref a mm of
        None \<Rightarrow> (Err NotFound, mm)
      | Some m \<Rightarrow>
          if encrypted m then (Ok (), mm)
          else case mget (ratchetSessions mm) (FriendID m) of
            Some sess \<Rightarrow> encryptWithRatchet C hrnd a sess (Text m) mm
          | None \<Rightarrow> encryptWithNaCl B nrnd a (FriendID m) (Text m) (keyProvider mm) mm)"

section \<open>Decryption\<close>

definition decryptWithRatchet ::
  "dr_crypto \<Rightarrow> key32 option \<Rightarrow> bytes \<Rightarrow> Session \<Rightarrow> (msg_error + gostring) \<times> Session" where
  "decryptWithRatchet C rnd raw s =
     (if length raw \<le> HeaderSize then (Err RawTooShort, s)
      else case DecodeHeader (take HeaderSize raw) of
        Inl e \<Rightarrow> (Err HeaderInvalid, s)
      | Inr h \<Rightarrow>
          (case RatchetDecrypt C rnd h (drop HeaderSize raw) [] s of
             (r, s') \<Rightarrow>
               (case r of
                  Inl e \<Rightarrow> Err (RatchetError e)
                | Inr plain \<Rightarrow>
                    (case decodeMessagePayload plain of Inl e \<Rightarrow> Err (PayloadError e) | Inr msg \<Rightarrow> Ok msg),
                s')))"

definition decryptWithNaCl :: "nacl \<Rightarrow> bytes \<Rightarrow> u32 \<Rightarrow> KeyProvider option \<Rightarrow> msg_error + gostring" where
  "decryptWithNaCl B raw friendID kp =
     (case kp of
        None \<Rightarrow> Err NoEncryption
      | Some p \<Rightarrow>
          if length raw < NonceSize then Err RawTooShort
          else case GetFriendPublicKey p friendID of
            None \<Rightarrow> Err KeyLookupFailed
          | Some senderPK \<Rightarrow>
              (case Decrypt B (drop NonceSize raw) (take NonceSize raw) senderPK (GetSelfPrivateKey p) of
                 Inl e \<Rightarrow> Err (BoxError e)
               | Inr plaintext \<Rightarrow>
                   (case decodeMessagePayload plaintext of Inl e \<Rightarrow> Err (PayloadError e) | Inr msg \<Rightarrow> Ok msg)))"

definition DecryptMessage ::
  "dr_crypto \<Rightarrow> nacl \<Rightarrow> key32 option \<Rightarrow> u32 \<Rightarrow> gostring \<Rightarrow> 'f MessageManager \<Rightarrow> (msg_error + gostring) \<times> 'f MessageManager" where
  "DecryptMessage C B rnd friendID text mm =
     (case DecodeString text of
        Inl e \<Rightarrow> (Err Base64Error, mm)
      | Inr raw \<Rightarrow>
          (case mget (ratchetSessions mm) friendID of
             None \<Rightarrow> (decryptWithNaCl B raw friendID (keyProvider mm), mm)
           | Some sess \<Rightarrow>
               (case mget (sessions mm) sess of
                  None \<Rightarrow> (Err NotFound, mm)
                | Some s \<Rightarrow>
                    (case decryptWithRatchet C rnd raw s of
                       (r, s') \<Rightarrow> (r, mm\<lparr>sessions := mput sess s' (sessions mm)\<rparr>)))))"

section \<open>Sending\<close>

definition SendMessage ::
  "time \<Rightarrow> u32 \<Rightarrow> gostring \<Rightarrow> MessageType \<Rightarrow> 'f MessageManager \<Rightarrow> (msg_error + nat) \<times> 'f MessageManager" where
  "SendMessage now friendID text messageType mm =
     (if length text = 0 then (Err MsgEmpty, mm)
      else if int (length text) > MaxPlaintextMessage then (Err MsgTooLong, mm)
      else let message = (newMessageWithTime friendID text messageType now)\<lparr>ID := nextID mm\<rparr>;
               a = nextAddr mm
           in (Ok a, mm\<lparr>nextID := nextID mm + 1, messages := mput (ID message) a (messages mm),
                        objects := mput a message (objects mm), nextAddr := a + 1,
                        pendingQueue := pendingQueue mm @ [a]\<rparr>))"

definition updateMessageSendingState :: "time \<Rightarrow> nat \<Rightarrow> 'f MessageManager \<Rightarrow> bool \<times> 'f MessageManager" where
  "updateMessageSendingState now a mm =
     (case deref a mm of
        None \<Rightarrow> (False, mm)
      | Some m \<Rightarrow>
          if State m \<in> {MessageStateSent, MessageStateDelivered, MessageStateRead} then (False, mm)
          else (True, modify a (\<lambda>m. m\<lparr>State := MessageStateSending, LastAttempt := Some now,
                                       Retries := Retries m + 1\<rparr>) mm))"

definition settle :: "nat \<Rightarrow> 'f MessageManager \<Rightarrow> 'f MessageManager" where
  "settle a mm =
     (case GetRetries a mm of
        None \<Rightarrow> mm
      | Some r \<Rightarrow> SetState a (if r \<ge> maxRetries mm then MessageStateFailed else MessageStatePending) mm)"

definition handleEncryptionError :: "nat \<Rightarrow> msg_error \<Rightarrow> 'f MessageManager \<Rightarrow> 'f MessageManager" where
  "handleEncryptionError a e mm =
     (if e = OutboundPlaintextBlocked \<or> e = NoEncryption then SetState a MessageStateFailed mm else settle a mm)"

definition handleSendResult :: "nat \<Rightarrow> bool \<Rightarrow> 'f MessageManager \<Rightarrow> 'f MessageManager" where
  "handleSendResult a ok mm = (if ok then SetState a MessageStateSent mm else settle a mm)"

definition SendMessagePacket :: "nat \<Rightarrow> 'f MessageManager \<Rightarrow> 'f MessageManager" where
  "SendMessagePacket a mm =
     (case deref a mm of None \<Rightarrow> mm | Some m \<Rightarrow> emit (PacketSent (FriendID m) m) mm)"

definition sendThroughTransport :: "bool \<Rightarrow> nat \<Rightarrow> 'f MessageManager \<Rightarrow> 'f MessageManager" where
  "sendThroughTransport ok a mm =
     (if \<not> transport mm then SetState a MessageStatePending mm
      else handleSendResult a ok (SendMessagePacket a mm))"

text \<open>What an attempt draws from its surroundings: the time, the randomness and the transport's answer.\<close>

record attempt_env =
  at_time :: time
  header_rnd :: "bytes option"
  nonce_rnd :: "bytes option"
  send_ok :: bool

definition attemptMessageSend ::
  "dr_crypto \<Rightarrow> nacl \<Rightarrow> attempt_env \<Rightarrow> nat \<Rightarrow> 'f MessageManager \<Rightarrow> 'f MessageManager" where
  "attemptMessageSend C B e a mm =
     (if cancelled mm then mm
      else case updateMessageSendingState (at_time e) a mm of
        (False, mm1) \<Rightarrow> mm1
      | (True, mm1) \<Rightarrow>
          (case encryptMessage C B (header_rnd e) (nonce_rnd e) a mm1 of
             (Inl err, mm2) \<Rightarrow> handleEncryptionError a err mm2
           | (Inr _, mm2) \<Rightarrow>
               if cancelled mm2 then SetState a MessageStatePending mm2
               else sendThroughTransport (send_ok e) a mm2))"

section \<open>The queue\<close>

definition calculateBackoffDelay :: "'f float_ops \<Rightarrow> u8 \<Rightarrow> 'f MessageManager \<Rightarrow> duration" where
  "calculateBackoffDelay F retryCount mm =
     (if retryCount = 0 then initialDelay mm
      else let multiplier = ((\<lambda>x. float_mul F x (backoffFactor mm)) ^^ unat retryCount) (float_one F);
               delay = float_to_duration F (float_mul F (float_of_duration F (initialDelay mm)) multiplier)
           in if delay > maxDelay mm then maxDelay mm else delay)"

definition shouldProcessMessage :: "'f float_ops \<Rightarrow> time \<Rightarrow> nat \<Rightarrow> 'f MessageManager \<Rightarrow> bool" where
  "shouldProcessMessage F now a mm =
     (case deref a mm of
        None \<Rightarrow> False
      | Some m \<Rightarrow>
          State m = MessageStatePending \<and> \<not> (\<not> retryEnabled mm \<and> Retries m > 0) \<and>
          (case LastAttempt m of None \<Rightarrow> True | Some t \<Rightarrow> \<not> now - t < calculateBackoffDelay F (Retries m) mm))"

definition retrievePendingMessages :: "'f MessageManager \<Rightarrow> nat list" where
  "retrievePendingMessages mm = pendingQueue mm"

text \<open>The \<open>k\<close>-th message of a batch finds the surroundings \<open>env k\<close>.\<close>

fun processMessageBatch ::
  "dr_crypto \<Rightarrow> nacl \<Rightarrow> 'f float_ops \<Rightarrow> (nat \<Rightarrow> attempt_env) \<Rightarrow> nat list \<Rightarrow> 'f MessageManager \<Rightarrow> 'f MessageManager" where
  "processMessageBatch C B F env [] mm = mm"
| "processMessageBatch C B F env (a # as) mm =
     processMessageBatch C B F (\<lambda>k. env (Suc k)) as
       (if shouldProcessMessage F (at_time (env 0)) a mm then attemptMessageSend C B (env 0) a mm else mm)"

definition shouldKeepInQueue :: "nat \<Rightarrow> 'f MessageManager \<Rightarrow> bool" where
  "shouldKeepInQueue a mm =
     (case deref a mm of
        None \<Rightarrow> False
      | Some m \<Rightarrow>
          State m = MessageStatePending \<or> State m = MessageStateSending \<or> State m = MessageStateSent \<or>
          (State m = MessageStateFailed \<and> Retries m < maxRetries mm))"

definition canRetryMessage :: "nat \<Rightarrow> 'f MessageManager \<Rightarrow> bool" where
  "canRetryMessage a mm =
     (case deref a mm of
        None \<Rightarrow> False | Some m \<Rightarrow> State m = MessageStateFailed \<and> Retries m < maxRetries mm)"

definition retryMessage :: "nat \<Rightarrow> 'f MessageManager \<Rightarrow> 'f MessageManager" where
  "retryMessage a mm =
     modify a (\<lambda>m. if State m = MessageStateFailed \<and> Retries m < maxRetries mm
                   then m\<lparr>State := MessageStatePending\<rparr> else m) mm"

definition cleanup_visit :: "nat \<Rightarrow> (u32, bool) gomap \<times> 'f MessageManager \<Rightarrow> (u32, bool) gomap \<times> 'f MessageManager" where
  "cleanup_visit a st =
     (case st of (keepByID, mm) \<Rightarrow>
        let mm1 = (if canRetryMessage a mm then retryMessage a mm else mm)
        in (case GetID a mm1 of None \<Rightarrow> keepByID | Some i \<Rightarrow> mput i (shouldKeepInQueue a mm1) keepByID, mm1))"

definition cleanupProcessedMessages :: "'f MessageManager \<Rightarrow> 'f MessageManager" where
  "cleanupProcessedMessages mm =
     (case fold cleanup_visit (pendingQueue mm) ([], mm) of
        (keepByID, mm1) \<Rightarrow>
          mm1\<lparr>pendingQueue :=
                filter (\<lambda>a. case GetID a mm1 of
                               None \<Rightarrow> True
                             | Some i \<Rightarrow> (case mget keepByID i of None \<Rightarrow> True | Some keep \<Rightarrow> keep)) (pendingQueue mm1)\<rparr>)"

definition ProcessPendingMessages ::
  "dr_crypto \<Rightarrow> nacl \<Rightarrow> 'f float_ops \<Rightarrow> (nat \<Rightarrow> attempt_env) \<Rightarrow> 'f MessageManager \<Rightarrow> 'f MessageManager" where
  "ProcessPendingMessages C B F env mm =
     cleanupProcessedMessages (processMessageBatch C B F env (retrievePendingMessages mm) mm)"

section \<open>Receipts and queries\<close>

definition resolveReceiptState :: "byte \<Rightarrow> MessageState option" where
  "resolveReceiptState receiptType =
     (if receiptType = 0 then Some MessageStateDelivered
      else if receiptType = 1 then Some MessageStateRead else None)"

definition HandleDeliveryReceipt :: "u32 \<Rightarrow> u32 \<Rightarrow> byte \<Rightarrow> 'f MessageManager \<Rightarrow> 'f MessageManager" where
  "HandleDeliveryReceipt friendID messageID receiptType mm =
     (case mget (messages mm) messageID of
        None \<Rightarrow> mm
      | Some a \<Rightarrow>
          if GetFriendID a mm \<noteq> Some friendID then mm
          else case resolveReceiptState receiptType of
            None \<Rightarrow> mm
          | Some newState \<Rightarrow>
              let mm1 = SetState a newState mm
              in if globalDeliveryCallback mm then emit (GlobalDeliveryCall friendID messageID newState) mm1 else mm1)"

definition GetDeliveryStatus :: "u32 \<Rightarrow> u32 \<Rightarrow> 'f MessageManager \<Rightarrow> MessageState" where
  "GetDeliveryStatus friendID messageID mm =
     (case mget (messages mm) messageID of
        None \<Rightarrow> MessageStatePending
      | Some a \<Rightarrow>
          (case deref a mm of
             None \<Rightarrow> MessageStatePending
           | Some m \<Rightarrow> if FriendID m \<noteq> friendID then MessageStatePending else State m))"

definition MarkMessageDelivered :: "u32 \<Rightarrow> 'f MessageManager \<Rightarrow> 'f MessageManager" where
  "MarkMessageDelivered messageID mm =
     (case mget (messages mm) messageID of None \<Rightarrow> mm | Some a \<Rightarrow> SetState a MessageStateDelivered mm)"

definition MarkMessageRead :: "u32 \<Rightarrow> 'f MessageManager \<Rightarrow> 'f MessageManager" where
  "MarkMessageRead messageID mm =
     (case mget (messages mm) messageID of None \<Rightarrow> mm | Some a \<Rightarrow> SetState a MessageStateRead mm)"

definition GetMessage :: "u32 \<Rightarrow> 'f MessageManager \<Rightarrow> msg_error + nat" where
  "GetMessage messageID mm =
     (case mget (messages mm) messageID of None \<Rightarrow> Err NotFound | Some a \<Rightarrow> Ok a)"

definition GetMessagesByFriend :: "u32 \<Rightarrow> 'f MessageManager \<Rightarrow> nat list" where
  "GetMessagesByFriend friendID mm =
     filter (\<lambda>a. GetFriendID a mm = Some friendID) (map snd (messages mm))"

section \<open>Persistence\<close>

text \<open>\<open>saved\<close> is the store's answer; the snapshot that was handed to it is returned.\<close>

definition SaveMessages :: "bool \<Rightarrow> 'f MessageManager \<Rightarrow> msg_error + managerSnapshot" where
  "SaveMessages saved mm =
     (if \<not> storeSet mm then Err StoreNotConfigured
      else let snapshot = \<lparr>Messages = map (\<lambda>(_, a). map_option MarshalJSON (deref a mm)) (messages mm),
                           NextID = nextID mm\<rparr>
           in if saved then Ok snapshot else Err SaveFailed)"

datatype load_result = LoadError | LoadEmpty | LoadCorrupt | LoadData managerSnapshot

definition loadAndDeserialize :: "load_result \<Rightarrow> msg_error + managerSnapshot" where
  "loadAndDeserialize r =
     (case r of
        LoadError \<Rightarrow> Err LoadFailed
      | LoadEmpty \<Rightarrow> Ok \<lparr>Messages = [], NextID = 0\<rparr>
      | LoadCorrupt \<Rightarrow> Err LoadFailed
      | LoadData snapshot \<Rightarrow> Ok snapshot)"

definition shouldRestoreToPending :: "Message \<Rightarrow> 'f MessageManager \<Rightarrow> bool" where
  "shouldRestoreToPending m mm =
     (case State m of
        MessageStatePending \<Rightarrow> True
      | MessageStateSending \<Rightarrow> True
      | MessageStateFailed \<Rightarrow> Retries m < maxRetries mm
      | _ \<Rightarrow> False)"

definition restore_one :: "messageJSON option \<Rightarrow> 'f MessageManager \<Rightarrow> 'f MessageManager" where
  "restore_one j mm =
     (case j of
        None \<Rightarrow> mm
      | Some jm \<Rightarrow>
          let m = UnmarshalJSON jm; a = nextAddr mm;
              mm1 = mm\<lparr>objects := mput a m (objects mm), nextAddr := a + 1, messages := mput (ID m) a (messages mm)\<rparr>
          in if shouldRestoreToPending m mm1
             then mm1\<lparr>objects := mput a (m\<lparr>State := MessageStatePending\<rparr>) (objects mm1),
                      pendingQueue := pendingQueue mm1 @ [a]\<rparr>
             else mm1)"

definition restoreMessagesFromSnapshot :: "managerSnapshot \<Rightarrow> 'f MessageManager \<Rightarrow> 'f MessageManager" where
  "restoreMessagesFromSnapshot snapshot mm =
     (let mm1 = fold restore_one (Messages snapshot) mm
      in if NextID snapshot > nextID mm1 then mm1\<lparr>nextID := NextID snapshot\<rparr> else mm1)"

definition LoadMessages :: "load_result \<Rightarrow> 'f MessageManager \<Rightarrow> (msg_error + unit) \<times> 'f MessageManager" where
  "LoadMessages r mm =
     (if \<not> storeSet mm then (Err StoreNotConfigured, mm)
      else case loadAndDeserialize r of
        Inl e \<Rightarrow> (Err e, mm)
      | Inr snapshot \<Rightarrow> (Ok (), restoreMessagesFromSnapshot snapshot mm))"

section \<open>Deletion and shutdown\<close>

definition disappearingForFriend :: "u32 \<Rightarrow> 'f MessageManager \<Rightarrow> DisappearingMessageManager \<times> 'f MessageManager" where
  "disappearingForFriend friendID mm =
     (case mget (disappearing mm) friendID of
        Some d \<Rightarrow> (d, mm)
      | None \<Rightarrow> (newDisappearingMessageManager,
                 mm\<lparr>disappearing := mput friendID newDisappearingMessageManager (disappearing mm)\<rparr>))"

definition SetDisappearingConfig :: "u32 \<Rightarrow> DisappearingMessageConfig \<Rightarrow> 'f MessageManager \<Rightarrow> 'f MessageManager" where
  "SetDisappearingConfig friendID cfg mm =
     (let (d, mm1) = disappearingForFriend friendID mm
      in mm1\<lparr>disappearing := mput friendID (SetConfig cfg d) (disappearing mm1)\<rparr>)"

definition GetDisappearingConfig :: "u32 \<Rightarrow> 'f MessageManager \<Rightarrow> DisappearingMessageConfig \<times> 'f MessageManager" where
  "GetDisappearingConfig friendID mm =
     (let (d, mm1) = disappearingForFriend friendID mm in (Config d, mm1))"

definition ScheduleMessageDeletion :: "time \<Rightarrow> u32 \<Rightarrow> u32 \<Rightarrow> 'f MessageManager \<Rightarrow> 'f MessageManager" where
  "ScheduleMessageDeletion now friendID messageID mm =
     (let (d, mm1) = disappearingForFriend friendID mm
      in mm1\<lparr>disappearing := mput friendID (ScheduleDeletion now messageID d) (disappearing mm1)\<rparr>)"

fun remove_first :: "('a \<Rightarrow> bool) \<Rightarrow> 'a list \<Rightarrow> 'a list" where
  "remove_first P [] = []"
| "remove_first P (x # xs) = (if P x then xs else x # remove_first P xs)"

definition DeleteMessage :: "u32 \<Rightarrow> 'f MessageManager \<Rightarrow> 'f MessageManager" where
  "DeleteMessage messageID mm =
     (case mget (messages mm) messageID of
        None \<Rightarrow> mm
      | Some a \<Rightarrow>
          let mm1 = mm\<lparr>pendingQueue := remove_first (\<lambda>b. GetID b mm = Some messageID) (pendingQueue mm)\<rparr>;
              mm2 = (case GetFriendID a mm1 of
                       None \<Rightarrow> mm1
                     | Some f \<Rightarrow>
                         (case mget (disappearing mm1) f of
                            None \<Rightarrow> mm1
                          | Some d \<Rightarrow> mm1\<lparr>disappearing := mput f (CancelDeletion messageID d) (disappearing mm1)\<rparr>))
          in mm2\<lparr>messages := mdel messageID (messages mm2)\<rparr>)"

text \<open>\<^verbatim>\<open>Close\<close> waits for the goroutines between its two effects; the model has no goroutine left then.\<close>

definition Close :: "'f MessageManager \<Rightarrow> 'f MessageManager" where
  "Close mm = mm\<lparr>cancelled := True, disappearing := map (\<lambda>(f, d). (f, Stop d)) (disappearing mm)\<rparr>"

end
