(* ===== verification/Message_Delivery.thy ===== *)
theory Message_Delivery
  imports Message_Manager Ratchet_Properties
begin

text \<open>
  End-to-end delivery of message texts: a manager pads, encrypts and encodes them, hands them to the
  transport, and the manager of the friend decrypts them, over Double Ratchet sessions or NaCl boxes.
\<close>

section \<open>Sending and receiving texts\<close>

text \<open>
  Each text is accepted by \<^const>\<open>SendMessage\<close> and sent by the goroutine this starts; the \<open>k\<close>-th attempt
  finds the surroundings \<open>env k\<close>.
\<close>

fun send_texts ::
  "dr_crypto \<Rightarrow> nacl \<Rightarrow> (nat \<Rightarrow> attempt_env) \<Rightarrow> u32 \<Rightarrow> gostring list \<Rightarrow> 'f MessageManager \<Rightarrow> 'f MessageManager" where
  "send_texts C B env f [] mm = mm"
| "send_texts C B env f (t # ts) mm =
     (case SendMessage (at_time (env 0)) f t 0 mm of
        (Inl e, mm1) \<Rightarrow> mm1
      | (Inr a, mm1) \<Rightarrow> send_texts C B (\<lambda>k. env (Suc k)) f ts (attemptMessageSend C B (env 0) a mm1))"

fun receive_texts ::
  "dr_crypto \<Rightarrow> nacl \<Rightarrow> key32 option \<Rightarrow> u32 \<Rightarrow> gostring list \<Rightarrow> 'f MessageManager \<Rightarrow>
   (msg_error + gostring) list \<times> 'f MessageManager" where
  "receive_texts C B rnd f [] mm = ([], mm)"
| "receive_texts C B rnd f (t # ts) mm =
     (case DecryptMessage C B rnd f t mm of
        (r, mm1) \<Rightarrow> (case receive_texts C B rnd f ts mm1 of (rs, mm2) \<Rightarrow> (r # rs, mm2)))"

fun packet_texts :: "mm_event list \<Rightarrow> gostring list" where
  "packet_texts [] = []"
| "packet_texts (PacketSent f m # es) = Text m # packet_texts es"
| "packet_texts (e # es) = packet_texts es"

lemma packet_texts_append [simp]: "packet_texts (xs @ ys) = packet_texts xs @ packet_texts ys"
  by (induction xs rule: packet_texts.induct) auto

definition sendable :: "gostring \<Rightarrow> bool" where
  "sendable t \<longleftrightarrow> t \<noteq> [] \<and> int (length t) \<le> MaxPlaintextMessage"

definition padded :: "gostring \<Rightarrow> bytes" where
  "padded t = projr (encodeMessagePayload t)"

lemma padded_Ok:
  assumes "sendable t"
  shows "encodeMessagePayload t = Ok (padded t)" "decodeMessagePayload (padded t) = Ok t" "padded t \<noteq> []"
proof -
  have "length t \<le> maxPaddedPayload"
    using assms by (simp add: sendable_def)
  then obtain p where "encodeMessagePayload t = Ok p" "4 + length t \<le> length p" by (rule encode_Ok)
  then show "encodeMessagePayload t = Ok (padded t)" "decodeMessagePayload (padded t) = Ok t" "padded t \<noteq> []"
    using decode_encode by (auto simp: padded_def)
qed

lemma payload_size: "encodeMessagePayload t = Ok p \<Longrightarrow> length p \<in> set PaddingSizes"
  by (auto simp: encodeMessagePayload_def padMessage_def dest: pad_loop_Ok split: if_splits)

lemma chain_msg_parts:
  assumes "aead_overhead C" "chain_msg C pub ck n j m w"
  shows "fst (snd w) \<noteq> []" "snd (snd w) = snd m"
proof -
  have "length (fst (snd w)) = length (fst m) + AEAD_Overhead"
    using assms by (auto simp: chain_msg_def encryptWithMsgKey_def aead_overhead_def split: sum.splits dest: sym)
  then show "fst (snd w) \<noteq> []" "snd (snd w) = snd m"
    using assms(2) by (auto simp: AEAD_Overhead_def chain_msg_def)
qed

section \<open>One message\<close>

lemma send_one:
  assumes "sendable t" "transport mm" "\<not> cancelled mm" "send_ok e"
    and "SendMessage now f t ty mm = (Ok a, mm1)"
  obtains m where "attemptMessageSend C B e a mm1 =
      (case encryptMessage C B (header_rnd e) (nonce_rnd e) a (mm1\<lparr>objects := mput a m (objects mm1)\<rparr>) of
         (Inl err, mm2) \<Rightarrow> handleEncryptionError a err mm2
       | (Inr _, mm2) \<Rightarrow> if cancelled mm2 then SetState a MessageStatePending mm2 else sendThroughTransport True a mm2)"
    "FriendID m = f" "Text m = t" "\<not> encrypted m" "\<not> deliveryCallback m"
    "a = nextAddr mm" "mm1 = mm\<lparr>nextID := nextID mm1, messages := messages mm1, objects := objects mm1,
       nextAddr := a + 1, pendingQueue := pendingQueue mm1\<rparr>"
proof -
  define m0 where "m0 = (newMessageWithTime f t ty now)\<lparr>ID := nextID mm\<rparr>"
  have r: "a = nextAddr mm" "mm1 = mm\<lparr>nextID := nextID mm + 1, messages := mput (nextID mm) a (messages mm),
      objects := mput a m0 (objects mm), nextAddr := a + 1, pendingQueue := pendingQueue mm @ [a]\<rparr>"
    using assms(1,5) by (auto simp: SendMessage_def sendable_def m0_def Let_def)
  define m where "m = m0\<lparr>State := MessageStateSending, LastAttempt := Some (at_time e), Retries := Retries m0 + 1\<rparr>"
  have "updateMessageSendingState (at_time e) a mm1 = (True, mm1\<lparr>objects := mput a m (objects mm1)\<rparr>)"
    by (simp add: updateMessageSendingState_def deref_def r dict_simps modify_def m_def)
      (simp add: m0_def newMessageWithTime_def)
  then have "attemptMessageSend C B e a mm1 =
      (case encryptMessage C B (header_rnd e) (nonce_rnd e) a (mm1\<lparr>objects := mput a m (objects mm1)\<rparr>) of
         (Inl err, mm2) \<Rightarrow> handleEncryptionError a err mm2
       | (Inr _, mm2) \<Rightarrow> if cancelled mm2 then SetState a MessageStatePending mm2 else sendThroughTransport True a mm2)"
    using assms(3) unfolding attemptMessageSend_def eqTrueI [OF assms(4)] by (simp add: r(2))
  moreover have "FriendID m = f" "Text m = t" "\<not> encrypted m" "\<not> deliveryCallback m"
    by (simp_all add: m_def m0_def newMessageWithTime_def)
  ultimately show thesis using that r by simp
qed

lemma transmit:
  assumes "deref a mm = Some m" "transport mm" "\<not> deliveryCallback m"
  shows "sendThroughTransport True a mm =
    mm\<lparr>objects := mput a (m\<lparr>State := MessageStateSent\<rparr>) (objects mm), trace := trace mm @ [PacketSent (FriendID m) m]\<rparr>"
  using assms by (simp add: sendThroughTransport_def SendMessagePacket_def handleSendResult_def emit_def SetState_def
      modify_def deref_def Let_def dict_simps)

text \<open>The wire form of a ratchet message.\<close>

definition wire_text :: "Header \<times> bytes \<times> bytes \<Rightarrow> gostring" where
  "wire_text w = EncodeToString (Header_Encode (fst w) @ fst (snd w))"

definition has_session :: "u32 \<Rightarrow> Session \<Rightarrow> 'f MessageManager \<Rightarrow> bool" where
  "has_session f s mm \<longleftrightarrow>
     (\<exists>sa. mget (ratchetSessions mm) f = Some sa \<and> mget (sessions mm) sa = Some s)"

lemma send_ratchet:
  assumes t: "sendable t" and mm: "transport mm" "\<not> cancelled mm" "has_session f s mm" and "send_ok e"
    and snd: "SendMessage now f t ty mm = (Ok a, mm1)"
    and enc: "RatchetEncrypt C (header_rnd e) (padded t) [] s = (Ok (h, ct), s')"
    and mm2_def: "mm2 = attemptMessageSend C B e a mm1"
  shows "packet_texts (trace mm2) = packet_texts (trace mm) @ [wire_text (h, ct, [])]"
    "has_session f s' mm2" "transport mm2" "\<not> cancelled mm2"
proof -
  obtain sa where sa: "mget (ratchetSessions mm) f = Some sa" "mget (sessions mm) sa = Some s"
    using mm(3) by (auto simp: has_session_def)
  obtain m where m: "attemptMessageSend C B e a mm1 =
      (case encryptMessage C B (header_rnd e) (nonce_rnd e) a (mm1\<lparr>objects := mput a m (objects mm1)\<rparr>) of
         (Inl err, mm2) \<Rightarrow> handleEncryptionError a err mm2
       | (Inr _, mm2) \<Rightarrow> if cancelled mm2 then SetState a MessageStatePending mm2 else sendThroughTransport True a mm2)"
    "FriendID m = f" "Text m = t" "\<not> encrypted m" "\<not> deliveryCallback m"
    "mm1 = mm\<lparr>nextID := nextID mm1, messages := messages mm1, objects := objects mm1,
       nextAddr := a + 1, pendingQueue := pendingQueue mm1\<rparr>"
    by (rule send_one [OF t mm(1,2) \<open>send_ok e\<close> snd, of C B])
  obtain i ms os q where mm1: "mm1 = mm\<lparr>nextID := i, messages := ms, objects := os, nextAddr := a + 1, pendingQueue := q\<rparr>"
    using m(6) by blast
  let ?m = "m\<lparr>Text := wire_text (h, ct, []), encrypted := True\<rparr>"
  have e: "encryptMessage C B (header_rnd e) (nonce_rnd e) a (mm1\<lparr>objects := mput a m (objects mm1)\<rparr>) =
    (Ok (), mm1\<lparr>objects := mput a ?m (mput a m (objects mm1)), sessions := mput sa s' (sessions mm)\<rparr>)" (is "_ = (_, ?mm3)")
    using m(2-5) sa enc padded_Ok(1) [OF t]
    by (simp add: encryptMessage_def deref_def dict_simps mm1 encryptWithRatchet_def ratchet_wire_def store_wire_def
        modify_def wire_text_def)
  have "mm2 = sendThroughTransport True a ?mm3" unfolding mm2_def m(1) e using mm(2) by (simp add: mm1)
  also have "\<dots> = ?mm3\<lparr>objects := mput a (?m\<lparr>State := MessageStateSent\<rparr>) (objects ?mm3),
      trace := trace ?mm3 @ [PacketSent (FriendID ?m) ?m]\<rparr>"
    using m(5) mm(1) by (intro transmit) (simp_all add: deref_def dict_simps mm1)
  finally show "packet_texts (trace mm2) = packet_texts (trace mm) @ [wire_text (h, ct, [])]"
    "has_session f s' mm2" "transport mm2" "\<not> cancelled mm2"
    using sa mm by (simp_all add: mm1 has_session_def dict_simps)
qed

lemma RatchetEncrypt_rnd:
  "\<not> encryptHeaders s \<Longrightarrow> RatchetEncrypt C rnd p ad s = RatchetEncrypt C None p ad s"
  by (cases "kdfChain C (cks s)") (simp add: RatchetEncrypt_def Let_def)

lemma send_texts_ratchet:
  assumes "list_all sendable ts" "transport mm" "\<not> cancelled mm" "has_session f s mm" "\<And>k. send_ok (env k)"
    and "cksSet s" "\<not> encryptHeaders s"
    and "send_all C (map (\<lambda>t. (padded t, [])) ts) s = (Ok l, s')"
  shows "packet_texts (trace (send_texts C B env f ts mm)) = packet_texts (trace mm) @ map wire_text l"
  using assms
proof (induction ts arbitrary: mm s env l)
  case (Cons t ts)
  obtain ct where ct0: "RatchetEncrypt C None (padded t) [] s =
      (Ok (\<lparr>DHPub = Public (dhs s), PN = pn s, N = ns s\<rparr>, ct), s\<lparr>cks := fst (kdfChain C (cks s)), ns := ns s + 1\<rparr>)"
    by (rule RatchetEncrypt_plain [OF Cons.prems(6,7)])
  have ct: "RatchetEncrypt C rnd (padded t) [] s =
      (Ok (\<lparr>DHPub = Public (dhs s), PN = pn s, N = ns s\<rparr>, ct), s\<lparr>cks := fst (kdfChain C (cks s)), ns := ns s + 1\<rparr>)" for rnd
    using RatchetEncrypt_rnd [OF Cons.prems(7), of C rnd] ct0 by simp
  let ?h = "\<lparr>DHPub = Public (dhs s), PN = pn s, N = ns s\<rparr>" and ?s = "s\<lparr>cks := fst (kdfChain C (cks s)), ns := ns s + 1\<rparr>"
  obtain l1 where l1: "send_all C (map (\<lambda>t. (padded t, [])) ts) ?s = (Ok l1, s')" "l = (?h, ct, []) # l1"
    using Cons.prems(8) ct by (auto split: prod.splits sum.splits)
  have t: "sendable t" using Cons.prems(1) by simp
  then obtain a mm1 where snd: "SendMessage (at_time (env 0)) f t 0 mm = (Ok a, mm1)"
    by (auto simp: SendMessage_def sendable_def Let_def)
  note one = send_ratchet [OF t Cons.prems(2-4) Cons.prems(5) [of 0] snd ct refl, of B]
  have "packet_texts (trace (send_texts C B (\<lambda>k. env (Suc k)) f ts (attemptMessageSend C B (env 0) a mm1))) =
      packet_texts (trace (attemptMessageSend C B (env 0) a mm1)) @ map wire_text l1"
    using Cons.prems one l1(1) by (intro Cons.IH) simp_all
  then show ?case using snd l1(2) by (simp add: one(1))
qed simp

lemma receive_ratchet:
  assumes "has_session f b mm" "RatchetDecrypt C rnd (fst w) (fst (snd w)) [] b = (Ok (padded t), b')"
    and "sendable t" "fst (snd w) \<noteq> []"
  shows "\<exists>mm'. DecryptMessage C B rnd f (wire_text w) mm = (Ok t, mm') \<and> has_session f b' mm'"
proof -
  obtain sa where sa: "mget (ratchetSessions mm) f = Some sa" "mget (sessions mm) sa = Some b"
    using assms(1) by (auto simp: has_session_def)
  have "decryptWithRatchet C rnd (Header_Encode (fst w) @ fst (snd w)) b = (Ok t, b')"
    using assms(2,4) padded_Ok(2) [OF assms(3)] header.dec_enc_append [of "fst w" "[]"]
    by (simp add: decryptWithRatchet_def)
  then show ?thesis using sa by (auto simp: DecryptMessage_def wire_text_def has_session_def dict_simps)
qed

lemma receive_texts_ratchet:
  assumes "has_session f b mm" "receive_all C rnd ws b = (map (\<lambda>t. Ok (padded t)) ts, b')"
    and "list_all sendable ts" "\<forall>w \<in> set ws. fst (snd w) \<noteq> [] \<and> snd (snd w) = []"
  shows "fst (receive_texts C B rnd f (map wire_text ws) mm) = map Ok ts"
  using assms
proof (induction ws arbitrary: mm b ts)
  case (Cons w ws)
  obtain h ct where w: "w = (h, ct, [])" using Cons.prems(4) by (cases w) auto
  obtain t ts' where ts: "ts = t # ts'" using Cons.prems(2) w by (cases ts) (auto split: prod.splits)
  obtain b1 where b1: "RatchetDecrypt C rnd h ct [] b = (Ok (padded t), b1)"
    "receive_all C rnd ws b1 = (map (\<lambda>t. Ok (padded t)) ts', b')"
    using Cons.prems(2) by (auto simp: w ts split: prod.splits)
  obtain mm' where mm': "DecryptMessage C B rnd f (wire_text w) mm = (Ok t, mm')" "has_session f b1 mm'"
    using receive_ratchet [OF Cons.prems(1), of C rnd w t b1 B] b1(1) Cons.prems(3,4) by (auto simp: w ts)
  show ?case using Cons.IH [OF mm'(2) b1(2)] Cons.prems(3,4) by (auto simp: ts mm'(1) split: prod.splits)
qed auto

text \<open>A new manager that has a transport and a session for one friend.\<close>

definition ratchet_mm :: "'f \<Rightarrow> u32 \<Rightarrow> Session \<Rightarrow> 'f MessageManager" where
  "ratchet_mm two f s = SetTransport True (SetRatchetSession f (Some s) (NewMessageManager two))"

lemma ratchet_mm_parts [simp]:
  "transport (ratchet_mm two f s)" "\<not> cancelled (ratchet_mm two f s)" "has_session f s (ratchet_mm two f s)"
  "trace (ratchet_mm two f s) = []"
  by (simp_all add: ratchet_mm_def SetTransport_def SetRatchetSession_def NewMessageManager_def has_session_def dict_simps)

section \<open>NaCl boxes\<close>

lemma send_nacl:
  assumes t: "sendable t" and mm: "transport mm" "\<not> cancelled mm" "mget (ratchetSessions mm) f = None"
    and kp: "keyProvider mm = Some p" "GetFriendPublicKey p f = Some pk" and e: "send_ok e" "nonce_rnd e = Some nonce"
    and snd: "SendMessage now f t ty mm = (Ok a, mm1)"
  shows "packet_texts (trace (attemptMessageSend C B e a mm1)) =
    packet_texts (trace mm) @ [EncodeToString (nonce @ box_Seal B (padded t) nonce pk (GetSelfPrivateKey p))]"
proof -
  obtain m where m: "attemptMessageSend C B e a mm1 =
      (case encryptMessage C B (header_rnd e) (nonce_rnd e) a (mm1\<lparr>objects := mput a m (objects mm1)\<rparr>) of
         (Inl err, mm2) \<Rightarrow> handleEncryptionError a err mm2
       | (Inr _, mm2) \<Rightarrow> if cancelled mm2 then SetState a MessageStatePending mm2 else sendThroughTransport True a mm2)"
    "FriendID m = f" "Text m = t" "\<not> encrypted m" "\<not> deliveryCallback m"
    "mm1 = mm\<lparr>nextID := nextID mm1, messages := messages mm1, objects := objects mm1,
       nextAddr := a + 1, pendingQueue := pendingQueue mm1\<rparr>"
    by (rule send_one [OF t mm(1,2) e(1) snd, of C B])
  obtain i ms os q where mm1: "mm1 = mm\<lparr>nextID := i, messages := ms, objects := os, nextAddr := a + 1, pendingQueue := q\<rparr>"
    using m(6) by blast
  let ?w = "EncodeToString (nonce @ box_Seal B (padded t) nonce pk (GetSelfPrivateKey p))"
  let ?m = "m\<lparr>Text := ?w, encrypted := True\<rparr>"
  have sz: "int (length (padded t)) \<le> MaxEncryptionBuffer"
    using payload_size [OF padded_Ok(1) [OF t]] by (auto simp: PaddingSizes_def)
  have "encryptMessage C B (header_rnd e) (nonce_rnd e) a (mm1\<lparr>objects := mput a m (objects mm1)\<rparr>) =
    (Ok (), mm1\<lparr>objects := mput a ?m (mput a m (objects mm1))\<rparr>)" (is "_ = (_, ?mm3)")
    using m(2-5) mm(3) kp e(2) padded_Ok(1,3) [OF t] sz
    by (simp add: encryptMessage_def deref_def dict_simps mm1 encryptWithNaCl_def nacl_wire_def store_wire_def
        modify_def GenerateNonce_def Encrypt_total)
  then have "attemptMessageSend C B e a mm1 = sendThroughTransport True a ?mm3"
    unfolding m(1) using mm(2) by (simp add: mm1)
  also have "\<dots> = ?mm3\<lparr>objects := mput a (?m\<lparr>State := MessageStateSent\<rparr>) (objects ?mm3),
      trace := trace ?mm3 @ [PacketSent (FriendID ?m) ?m]\<rparr>"
    using m(5) mm(1) by (intro transmit) (simp_all add: deref_def dict_simps mm1)
  finally show ?thesis by (simp add: mm1)
qed

lemma receive_nacl:
  assumes "sendable t" "box_opens B" "length nonce = NonceSize"
    and "keyProvider mm = Some p" "GetFriendPublicKey p f = Some (box_public B sk)" "mget (ratchetSessions mm) f = None"
  shows "DecryptMessage C B rnd f
      (EncodeToString (nonce @ box_Seal B (padded t) nonce (box_public B (GetSelfPrivateKey p)) sk)) mm = (Ok t, mm)"
proof -
  let ?c = "box_Seal B (padded t) nonce (box_public B (GetSelfPrivateKey p)) sk"
  have sz: "int (length (padded t)) \<le> MaxEncryptionBuffer"
    using payload_size [OF padded_Ok(1) [OF assms(1)]] by (auto simp: PaddingSizes_def)
  have "Encrypt B (padded t) nonce (box_public B (GetSelfPrivateKey p)) sk = Ok ?c"
    using padded_Ok(3) [OF assms(1)] sz by (rule Encrypt_total)
  from Decrypt_Encrypt [OF assms(2) this] show ?thesis
    using assms padded_Ok(2) [OF assms(1)] by (simp add: DecryptMessage_def decryptWithNaCl_def)
qed

section \<open>Properties\<close>

text \<open>
  C2. Texts of one to 1372 bytes that one manager sends to a friend over a fresh Double Ratchet session, up
  to 1000 of them, are decrypted by the friend's manager to exactly those texts, in whatever order their
  packets arrive.\<close>
theorem messages_delivered:
  assumes C: "aead_opens C" "aead_overhead C" "dh_commutes C" "dh_total C"
    and a: "InitInitiator C (Some ra) sk (ScalarBaseMult C rb) = Ok a"
    and ts: "ts \<noteq> []" "length ts \<le> MaxSkippedKeys" "list_all sendable ts"
    and js: "distinct js" "set js = {..<length ts}"
    and fresh: "ScalarBaseMult C r \<noteq> ScalarBaseMult C rb"
    and env: "\<And>k. send_ok (env k)"
  shows "length (packet_texts (trace (send_texts C B env f ts (ratchet_mm two f a)))) = length ts \<and>
    fst (receive_texts C B (Some r) g (map ((!) (packet_texts (trace (send_texts C B env f ts (ratchet_mm two f a))))) js) 
        (ratchet_mm two g (InitRecipient sk \<lparr>Public = ScalarBaseMult C rb, Private = rb\<rparr>))) =
      map (\<lambda>j. Ok (ts ! j)) js"
proof -
  let ?mm = "ratchet_mm two f a"
  let ?b = "InitRecipient sk \<lparr>Public = ScalarBaseMult C rb, Private = rb\<rparr>"
  let ?ms = "map (\<lambda>t. (padded t, [] :: bytes)) ts"
  have start: "turn_start C a ?b" using initial_turn [OF C(3) a] by simp
  obtain l a' b' where l: "send_all C ?ms a = (Ok l, a')"
    "receive_all C (Some r) (map ((!) l) js) ?b = (map (\<lambda>j. Ok (fst (?ms ! j))) js, b')"
    by (rule turn_delivers [OF C(1,3,4) start, of ?ms js r])
      (use ts js fresh in \<open>simp_all add: InitRecipient_def\<close>)
  have s: "cksSet a" "\<not> encryptHeaders a" using start by (simp_all add: turn_start_def)
  have len: "length l = length ts" and msg: "\<forall>j<length ts. chain_msg C (Public (dhs a)) (cks a) (ns a) j (?ms ! j) (l ! j)"
    using send_all_spec [OF s, of C ?ms] l(1) by auto
  have "packet_texts (trace (send_texts C B env f ts ?mm)) = packet_texts (trace ?mm) @ map wire_text l"
    by (rule send_texts_ratchet [OF ts(3) _ _ _ env s l(1)]) simp_all
  then have sent: "packet_texts (trace (send_texts C B env f ts ?mm)) = map wire_text l"
    by simp
  have j: "j < length ts" if "j \<in> set js" for j using that js(2) by simp
  have "fst (snd (l ! j)) \<noteq> [] \<and> snd (snd (l ! j)) = []" if "j \<in> set js" for j
    using chain_msg_parts [OF C(2) msg [rule_format, OF j [OF that]]] j [OF that] by simp
  then have "fst (receive_texts C B (Some r) g (map wire_text (map ((!) l) js)) (ratchet_mm two g ?b)) = map Ok (map ((!) ts) js)"
    using l(2) ts(3) j
    by (intro receive_texts_ratchet [where b = ?b and b' = b'])
      (auto simp: list_all_length intro!: map_cong)
  moreover have at: "map ((!) (map wire_text l)) js = map wire_text (map ((!) l) js)" using j len by simp
  ultimately show ?thesis unfolding sent at by (simp add: len comp_def)
qed

definition sure_env :: attempt_env where
  "sure_env = \<lparr>at_time = 1, header_rnd = None, nonce_rnd = Some (replicate 24 0), send_ok = True\<rparr>"

definition toy_nacl :: nacl where
  "toy_nacl =
     \<lparr>box_Seal = (\<lambda>m n pk sk. drop 16 (key_bytes (xor pk sk)) @ m),
      box_Open = (\<lambda>c n pk sk. strip (drop 16 (key_bytes (xor pk sk))) c),
      secretbox_Seal = (\<lambda>m n k. drop 16 (key_bytes k) @ m),
      secretbox_Open = (\<lambda>c n k. strip (drop 16 (key_bytes k)) c),
      box_public = (\<lambda>sk. sk)\<rparr>"

lemma toy_nacl_opens: "box_opens toy_nacl" "secretbox_opens toy_nacl"
  by (simp_all add: box_opens_def secretbox_opens_def toy_nacl_def xor.commute)

lemma toy_overhead: "aead_overhead toy_crypto"
  by (simp add: aead_overhead_def toy_crypto_def AEAD_Overhead_def)

lemma messages_delivered_witness:
  "\<exists>a. InitInitiator toy_crypto (Some 1) 9 (ScalarBaseMult toy_crypto 2) = Ok a \<and>
     fst (receive_texts toy_crypto toy_nacl (Some 5) 4
       (map ((!) (packet_texts (trace (send_texts toy_crypto toy_nacl (\<lambda>_. sure_env) 3 [[104, 105], [33]]
          (ratchet_mm (2 :: int) 3 a))))) [1, 0])
       (ratchet_mm (2 :: int) 4 (InitRecipient 9 \<lparr>Public = ScalarBaseMult toy_crypto 2, Private = 2\<rparr>))) =
     [Ok [33], Ok [104, 105]]"
proof -
  let ?ts = "[[104, 105], [33]] :: gostring list"
  obtain a where a: "InitInitiator toy_crypto (Some 1) 9 (ScalarBaseMult toy_crypto 2) = Ok a"
    using InitInitiator_total [OF toy_laws(3)] by blast
  have ts: "?ts \<noteq> []" "length ?ts \<le> MaxSkippedKeys" "list_all sendable ?ts" "distinct [1 :: nat, 0]"
    "set [1, 0] = {..<length ?ts}" "ScalarBaseMult toy_crypto 5 \<noteq> ScalarBaseMult toy_crypto 2" "send_ok sure_env"
    by (auto simp: MaxSkippedKeys_def sendable_def sure_env_def toy_crypto_def)
  have "map (\<lambda>j. Ok (?ts ! j)) [1, 0] = ([Ok [33], Ok [104, 105]] :: (msg_error + gostring) list)" by simp
  then show ?thesis
    using a messages_delivered [OF toy_laws(1) toy_overhead toy_laws(2,3) a ts(1-6), of "\<lambda>_. sure_env" toy_nacl 3 "2 :: int" 4]
      ts(7) by metis
qed

text \<open>
  Without a session a text is sealed with the friend's public key: the packet that the sender hands to
  the transport decrypts, at a manager with the matching keys, to the text.\<close>
theorem nacl_message_delivered:
  assumes "box_opens B" "sendable t" "length nonce = NonceSize" "nonce_rnd e = Some nonce" "send_ok e"
    and "GetFriendPublicKey p f = Some (box_public B (GetSelfPrivateKey q))"
    and "GetFriendPublicKey q g = Some (box_public B (GetSelfPrivateKey p))"
    and "snd (SendMessage now f t ty (SetTransport True (SetKeyProvider (Some p) (NewMessageManager two)))) = mm1"
  shows "\<exists>wire. packet_texts (trace (attemptMessageSend C B e 0 mm1)) = [wire] \<and>
    fst (DecryptMessage C B rnd g wire (SetKeyProvider (Some q) (NewMessageManager two))) = Ok t"
proof -
  let ?mm = "SetTransport True (SetKeyProvider (Some p) (NewMessageManager two))"
  have "SendMessage now f t ty ?mm = (Ok 0, mm1)"
    using assms(2,8)
    by (auto simp: SendMessage_def sendable_def SetTransport_def SetKeyProvider_def NewMessageManager_def Let_def)
  note sent = send_nacl [OF assms(2) _ _ _ _ assms(6) assms(5,4) this, of C B]
  have "packet_texts (trace (attemptMessageSend C B e 0 mm1)) =
      [EncodeToString (nonce @ box_Seal B (padded t) nonce (box_public B (GetSelfPrivateKey q)) (GetSelfPrivateKey p))]"
    by (subst sent) (simp_all add: SetTransport_def SetKeyProvider_def NewMessageManager_def)
  then show ?thesis
    using receive_nacl [OF assms(2,1,3) _ assms(7), of "SetKeyProvider (Some q) (NewMessageManager two)" C rnd]
    by (simp add: SetKeyProvider_def NewMessageManager_def)
qed

lemma nacl_message_delivered_witness:
  "\<exists>wire. packet_texts (trace (attemptMessageSend toy_crypto toy_nacl sure_env 0
      (snd (SendMessage 1 3 [104, 105] 0 (SetTransport True (SetKeyProvider
        (Some \<lparr>GetFriendPublicKey = \<lambda>_. Some 7, GetSelfPrivateKey = 9\<rparr>) (NewMessageManager (2 :: int)))))))) = [wire] \<and>
    fst (DecryptMessage toy_crypto toy_nacl None 4 wire (SetKeyProvider
        (Some \<lparr>GetFriendPublicKey = \<lambda>_. Some 9, GetSelfPrivateKey = 7\<rparr>) (NewMessageManager (2 :: int)))) = Ok [104, 105]"
  by (rule nacl_message_delivered [OF toy_nacl_opens(1), where nonce = "replicate 24 0"])
    (simp_all add: sendable_def sure_env_def toy_nacl_def)

end
