(* ===== verification/Message_Goroutines.thy ===== *)
theory Message_Goroutines
  imports Message_Delivery
begin

text \<open>
  The message manager under concurrency. A send attempt is a goroutine that takes the locks several times,
  so it is a sequence of phases; the system is the manager with the goroutines under way, and a step is one
  phase of one of them or one call of the interface. Every packet carries ciphertext in all interleavings,
  and some interleavings and restarts show where the bookkeeping goes wrong.
\<close>

section \<open>Phases of an attempt\<close>

datatype phase =
    AtStart nat
  | Claimed nat
  | Loaded nat u32 gostring "nat option" "KeyProvider option"
  | Failing nat msg_error
  | Wire nat gostring
  | Ready nat
  | Handed nat bool

record 'f system =
  manager :: "'f MessageManager"
  routines :: "phase list"

text \<open>What the interface offers besides sending.\<close>

datatype 'f mm_op =
    OpRetryConfig bool u8 duration duration 'f
  | OpTransport bool
  | OpKeyProvider "KeyProvider option"
  | OpRatchetSession u32 "Session option"
  | OpStore bool
  | OpGlobalCallback bool
  | OpOnDelivery nat bool
  | OpDecrypt "key32 option" u32 gostring
  | OpReceipt u32 u32 byte
  | OpDelivered u32
  | OpRead u32
  | OpLoad load_result
  | OpCleanup
  | OpRetry nat
  | OpDisappearing u32 DisappearingMessageConfig
  | OpGetDisappearing u32
  | OpSchedule time u32 u32
  | OpDelete u32
  | OpClose

fun mm_apply :: "dr_crypto \<Rightarrow> nacl \<Rightarrow> 'f mm_op \<Rightarrow> 'f MessageManager \<Rightarrow> 'f MessageManager" where
  "mm_apply C B (OpRetryConfig e r i m x) mm = SetRetryConfig e r i m x mm"
| "mm_apply C B (OpTransport t) mm = SetTransport t mm"
| "mm_apply C B (OpKeyProvider k) mm = SetKeyProvider k mm"
| "mm_apply C B (OpRatchetSession f s) mm = SetRatchetSession f s mm"
| "mm_apply C B (OpStore b) mm = SetStore b mm"
| "mm_apply C B (OpGlobalCallback b) mm = SetGlobalDeliveryCallback b mm"
| "mm_apply C B (OpOnDelivery a b) mm = OnDeliveryStateChange a b mm"
| "mm_apply C B (OpDecrypt rnd f t) mm = snd (DecryptMessage C B rnd f t mm)"
| "mm_apply C B (OpReceipt f i ty) mm = HandleDeliveryReceipt f i ty mm"
| "mm_apply C B (OpDelivered i) mm = MarkMessageDelivered i mm"
| "mm_apply C B (OpRead i) mm = MarkMessageRead i mm"
| "mm_apply C B (OpLoad r) mm = snd (LoadMessages r mm)"
| "mm_apply C B OpCleanup mm = cleanupProcessedMessages mm"
| "mm_apply C B (OpRetry a) mm = retryMessage a mm"
| "mm_apply C B (OpDisappearing f c) mm = SetDisappearingConfig f c mm"
| "mm_apply C B (OpGetDisappearing f) mm = snd (GetDisappearingConfig f mm)"
| "mm_apply C B (OpSchedule now f i) mm = ScheduleMessageDeletion now f i mm"
| "mm_apply C B (OpDelete i) mm = DeleteMessage i mm"
| "mm_apply C B OpClose mm = Close mm"

text \<open>One phase of a goroutine: the new manager and the phase it goes on with, if any.\<close>

fun phase_step :: "dr_crypto \<Rightarrow> nacl \<Rightarrow> attempt_env \<Rightarrow> phase \<Rightarrow> 'f MessageManager \<Rightarrow> 'f MessageManager \<times> phase list" where
  "phase_step C B e (AtStart a) mm =
     (if cancelled mm then (mm, [])
      else case updateMessageSendingState (at_time e) a mm of
        (False, mm1) \<Rightarrow> (mm1, []) | (True, mm1) \<Rightarrow> (mm1, [Claimed a]))"
| "phase_step C B e (Claimed a) mm =
     (case deref a mm of
        None \<Rightarrow> (mm, [Failing a NotFound])
      | Some m \<Rightarrow>
          if encrypted m then (mm, [Ready a])
          else (mm, [Loaded a (FriendID m) (Text m) (mget (ratchetSessions mm) (FriendID m)) (keyProvider mm)]))"
| "phase_step C B e (Loaded a f plain sess kp) mm =
     (case sess of
        Some s \<Rightarrow>
          (case ratchet_wire C (header_rnd e) s plain mm of
             (Inl err, mm1) \<Rightarrow> (mm1, [Failing a err]) | (Inr w, mm1) \<Rightarrow> (mm1, [Wire a w]))
      | None \<Rightarrow>
          (case nacl_wire B (nonce_rnd e) f plain kp of
             Inl err \<Rightarrow> (mm, [Failing a err]) | Inr w \<Rightarrow> (mm, [Wire a w])))"
| "phase_step C B e (Failing a err) mm = (handleEncryptionError a err mm, [])"
| "phase_step C B e (Wire a w) mm = (store_wire a w mm, [Ready a])"
| "phase_step C B e (Ready a) mm =
     (if cancelled mm then (SetState a MessageStatePending mm, [])
      else if \<not> transport mm then (SetState a MessageStatePending mm, [])
      else (SendMessagePacket a mm, [Handed a (send_ok e)]))"
| "phase_step C B e (Handed a ok) mm = (handleSendResult a ok mm, [])"

inductive sys_step :: "dr_crypto \<Rightarrow> nacl \<Rightarrow> 'f float_ops \<Rightarrow> 'f system \<Rightarrow> 'f system \<Rightarrow> bool"
  for C B F where
  call: "sys_step C B F s (s\<lparr>manager := mm_apply C B p (manager s)\<rparr>)"
| send: "SendMessage now f t ty (manager s) = (Ok a, mm') \<Longrightarrow>
     sys_step C B F s (s\<lparr>manager := mm', routines := AtStart a # routines s\<rparr>)"
| batch: "shouldProcessMessage F now a (manager s) \<Longrightarrow> sys_step C B F s (s\<lparr>routines := AtStart a # routines s\<rparr>)"
| phase: "routines s = ps @ p # qs \<Longrightarrow> phase_step C B e p (manager s) = (mm', next) \<Longrightarrow>
     sys_step C B F s (s\<lparr>manager := mm', routines := ps @ next @ qs\<rparr>)"

definition initial_system :: "'f \<Rightarrow> 'f system" where
  "initial_system two = \<lparr>manager = NewMessageManager two, routines = []\<rparr>"

text \<open>An attempt that is not interrupted is \<^const>\<open>attemptMessageSend\<close>.\<close>

fun run_phase :: "nat \<Rightarrow> dr_crypto \<Rightarrow> nacl \<Rightarrow> attempt_env \<Rightarrow> phase list \<Rightarrow> 'f MessageManager \<Rightarrow> 'f MessageManager \<times> phase list" where
  "run_phase 0 C B e ps mm = (mm, ps)"
| "run_phase (Suc n) C B e [] mm = (mm, [])"
| "run_phase (Suc n) C B e (p # ps) mm = (case phase_step C B e p mm of (mm1, next) \<Rightarrow> run_phase n C B e (next @ ps) mm1)"

section \<open>Only ciphertext\<close>

text \<open>A text in which a payload of one of the padded sizes is sealed.\<close>

definition sealed_text :: "dr_crypto \<Rightarrow> nacl \<Rightarrow> gostring \<Rightarrow> bool" where
  "sealed_text C B t \<longleftrightarrow>
     (\<exists>p. length p \<in> set PaddingSizes \<and>
        ((\<exists>pre k n ad. t = EncodeToString (pre @ Seal C k n p ad)) \<or>
         (\<exists>nonce pk sk. t = EncodeToString (nonce @ box_Seal B p nonce pk sk))))"

definition mm_safe :: "dr_crypto \<Rightarrow> nacl \<Rightarrow> 'f MessageManager \<Rightarrow> bool" where
  "mm_safe C B mm \<longleftrightarrow>
     (\<forall>a m. deref a mm = Some m \<longrightarrow> a < nextAddr mm \<and> (encrypted m \<longrightarrow> sealed_text C B (Text m))) \<and>
     (\<forall>f m. PacketSent f m \<in> set (trace mm) \<longrightarrow> encrypted m \<and> sealed_text C B (Text m))"

text \<open>A change that keeps this and never makes an encrypted message plain again.\<close>

definition safe_change :: "dr_crypto \<Rightarrow> nacl \<Rightarrow> 'f MessageManager \<Rightarrow> 'f MessageManager \<Rightarrow> bool" where
  "safe_change C B mm mm' \<longleftrightarrow>
     (mm_safe C B mm \<longrightarrow> mm_safe C B mm') \<and>
     (mm_safe C B mm \<longrightarrow>
        (\<forall>a m. deref a mm = Some m \<longrightarrow> (\<exists>m'. deref a mm' = Some m' \<and> (encrypted m \<longrightarrow> encrypted m'))))"

lemma safe_change_refl [simp]: "safe_change C B mm mm"
  by (simp add: safe_change_def)

lemma safe_change_trans: "safe_change C B x y \<Longrightarrow> safe_change C B y z \<Longrightarrow> safe_change C B x z"
  unfolding safe_change_def by meson

lemma safe_change_same:
  "objects mm' = objects mm \<Longrightarrow> nextAddr mm \<le> nextAddr mm' \<Longrightarrow> trace mm' = trace mm \<Longrightarrow> safe_change C B mm mm'"
  by (fastforce simp: safe_change_def mm_safe_def deref_def)

lemma safe_modify:
  assumes "\<And>m. deref a mm = Some m \<Longrightarrow> encrypted m \<Longrightarrow> encrypted (g m)"
    and "\<And>m. deref a mm = Some m \<Longrightarrow> encrypted (g m) \<Longrightarrow> mm_safe C B mm \<Longrightarrow> sealed_text C B (Text (g m))"
  shows "safe_change C B mm (modify a g mm)"
  using assms by (auto simp: safe_change_def mm_safe_def modify_def deref_def dict_simps split: option.splits)

lemma safe_modify_same:
  "(\<And>m. encrypted (g m) = encrypted m \<and> Text (g m) = Text m) \<Longrightarrow> safe_change C B mm (modify a g mm)"
  by (rule safe_modify) (auto simp: mm_safe_def)

lemma safe_emit: "(\<And>f m. e \<noteq> PacketSent f m) \<Longrightarrow> safe_change C B mm (emit e mm)"
  by (auto simp: safe_change_def mm_safe_def emit_def deref_def)

lemma safe_SetState: "safe_change C B mm (SetState a st mm)"
  unfolding SetState_def Let_def
  by (auto split: option.splits intro: safe_modify_same safe_change_trans [OF safe_modify_same safe_emit])

lemma safe_settle: "safe_change C B mm (settle a mm)"
  by (auto simp: settle_def split: option.splits intro: safe_SetState)

lemma safe_retry: "safe_change C B mm (retryMessage a mm)"
  unfolding retryMessage_def by (rule safe_modify_same) simp

lemma safe_cleanup_visits:
  "safe_change C B (snd st) (snd (fold cleanup_visit as st))"
proof (induction as arbitrary: st)
  case (Cons a as)
  have "safe_change C B (snd st) (snd (cleanup_visit a st))"
    by (cases st) (auto simp: cleanup_visit_def Let_def safe_retry)
  then show ?case using Cons.IH [of "cleanup_visit a st"] safe_change_trans by auto
qed simp

lemma safe_cleanup: "safe_change C B mm (cleanupProcessedMessages mm)"
proof -
  obtain kb mm1 where f: "fold cleanup_visit (pendingQueue mm) ([], mm) = (kb, mm1)" by fastforce
  have "safe_change C B mm mm1" using safe_cleanup_visits [of C B "([], mm)" "pendingQueue mm"] f by simp
  moreover have "safe_change C B mm1 (cleanupProcessedMessages mm)"
    by (rule safe_change_same) (simp_all add: cleanupProcessedMessages_def f)
  ultimately show ?thesis by (rule safe_change_trans)
qed

lemma safe_alloc:
  assumes "\<not> encrypted m" "objects mm' = mput (nextAddr mm) m (objects mm)" "nextAddr mm' = Suc (nextAddr mm)"
    "trace mm' = trace mm"
  shows "safe_change C B mm mm'"
  using assms by (fastforce simp: safe_change_def mm_safe_def deref_def dict_simps split: if_splits)

lemma if_both: "P x \<Longrightarrow> P y \<Longrightarrow> P (if b then x else y)"
  by simp

lemma safe_restore_one: "safe_change C B mm (restore_one j mm)"
proof (cases j)
  case (Some jm)
  let ?m = "UnmarshalJSON jm" and ?a = "nextAddr mm"
  let ?mm1 = "mm\<lparr>objects := mput ?a ?m (objects mm), nextAddr := ?a + 1, messages := mput (ID ?m) ?a (messages mm)\<rparr>"
  let ?mm2 = "modify ?a (\<lambda>m. m\<lparr>State := MessageStatePending\<rparr>) ?mm1"
  have 1: "safe_change C B mm ?mm1" by (rule safe_alloc [where m = ?m]) (simp_all add: UnmarshalJSON_def)
  have 2: "safe_change C B ?mm1 ?mm2" by (rule safe_modify_same) simp
  have eq: "restore_one j mm = (if shouldRestoreToPending ?m ?mm1
      then ?mm2\<lparr>pendingQueue := pendingQueue ?mm1 @ [?a]\<rparr> else ?mm1)"
    by (simp add: Some restore_one_def Let_def modify_def deref_def dict_simps)
  have "safe_change C B ?mm2 (?mm2\<lparr>pendingQueue := pendingQueue ?mm1 @ [?a]\<rparr>)"
    by (rule safe_change_same) simp_all
  from safe_change_trans [OF safe_change_trans [OF 1 2] this] 1 show ?thesis unfolding eq by (rule if_both)
qed (simp add: restore_one_def)

lemma safe_load:
  fixes mm :: "'f MessageManager"
  shows "safe_change C B mm (snd (LoadMessages r mm))"
proof -
  have all: "safe_change C B mm (fold restore_one js mm)" for js
    by (induction js arbitrary: mm) (auto intro: safe_change_trans [OF safe_restore_one])
  have "safe_change C B m1 (m1\<lparr>nextID := i\<rparr>)" for m1 :: "'f MessageManager" and i
    by (rule safe_change_same) simp_all
  from safe_change_trans [OF all this] have "safe_change C B mm (restoreMessagesFromSnapshot snap mm)" for snap
    using all by (simp add: restoreMessagesFromSnapshot_def Let_def)
  then show ?thesis by (simp add: LoadMessages_def split: sum.splits)
qed

lemma safe_receipt: "safe_change C B mm (HandleDeliveryReceipt f i ty mm)"
  by (auto simp: HandleDeliveryReceipt_def Let_def split: option.splits
      intro: safe_SetState safe_change_trans [OF safe_SetState safe_emit])

lemma safe_apply: "safe_change C B mm (mm_apply C B p mm)"
proof (cases p)
  case (OpOnDelivery a b)
  then show ?thesis by (auto simp: OnDeliveryStateChange_def intro: safe_modify_same)
next
  case (OpRetry a)
  then show ?thesis by (simp add: safe_retry)
next
  case (OpDelivered i)
  then show ?thesis by (auto simp: MarkMessageDelivered_def split: option.splits intro: safe_SetState)
next
  case (OpRead i)
  then show ?thesis by (auto simp: MarkMessageRead_def split: option.splits intro: safe_SetState)
next
  case (OpDelete i)
  then show ?thesis by (intro safe_change_same) (simp_all add: DeleteMessage_def Let_def split: option.splits)
qed (auto simp: safe_load safe_receipt safe_cleanup SetRetryConfig_def SetTransport_def SetKeyProvider_def
      SetRatchetSession_def SetStore_def SetGlobalDeliveryCallback_def DecryptMessage_def SetDisappearingConfig_def
      GetDisappearingConfig_def ScheduleMessageDeletion_def disappearingForFriend_def Close_def Let_def
      split: option.splits sum.splits prod.splits intro!: safe_change_same)

lemma ratchet_wire_sealed:
  assumes "ratchet_wire C rnd sa plain mm = (Ok w, mm')"
  shows "sealed_text C B w"
proof -
  obtain p s h ct s' where p: "encodeMessagePayload plain = Ok p" and r: "RatchetEncrypt C rnd p [] s = (Ok (h, ct), s')"
    and w: "w = EncodeToString (Header_Encode h @ ct)"
    using assms by (auto simp: ratchet_wire_def split: sum.splits option.splits prod.splits)
  obtain pre k n ad where "ct = pre @ Seal C k n p ad"
    using r by (fastforce simp: RatchetEncrypt_def encryptWithMsgKey_def Let_def split: if_splits sum.splits prod.splits)
  then have "w = EncodeToString ((Header_Encode h @ pre) @ Seal C k n p ad)" by (simp add: w)
  then show ?thesis unfolding sealed_text_def using payload_size [OF p] by blast
qed

lemma nacl_wire_sealed:
  assumes "nacl_wire B rnd f plain kp = Ok w"
  shows "sealed_text C B w"
proof -
  obtain p nonce pk sk c where p: "encodeMessagePayload plain = Ok p" and "Encrypt B p nonce pk sk = Ok c"
    and "w = EncodeToString (nonce @ c)"
    using assms by (auto simp: nacl_wire_def split: sum.splits option.splits)
  then have "w = EncodeToString (nonce @ box_Seal B p nonce pk sk)" by (simp add: Encrypt_def split: if_splits)
  then show ?thesis unfolding sealed_text_def using payload_size [OF p] by blast
qed

fun phase_ok :: "dr_crypto \<Rightarrow> nacl \<Rightarrow> 'f MessageManager \<Rightarrow> phase \<Rightarrow> bool" where
  "phase_ok C B mm (Wire a w) \<longleftrightarrow> sealed_text C B w \<and> deref a mm \<noteq> None"
| "phase_ok C B mm (Ready a) \<longleftrightarrow> (\<exists>m. deref a mm = Some m \<and> encrypted m)"
| "phase_ok C B mm (Loaded a f t s kp) \<longleftrightarrow> deref a mm \<noteq> None"
| "phase_ok C B mm _ \<longleftrightarrow> True"

definition sys_safe :: "dr_crypto \<Rightarrow> nacl \<Rightarrow> 'f system \<Rightarrow> bool" where
  "sys_safe C B s \<longleftrightarrow> mm_safe C B (manager s) \<and> list_all (phase_ok C B (manager s)) (routines s)"

lemma phase_ok_change:
  "safe_change C B mm mm' \<Longrightarrow> mm_safe C B mm \<Longrightarrow> phase_ok C B mm p \<Longrightarrow> phase_ok C B mm' p"
  by (cases p) (fastforce simp: safe_change_def)+

lemma safe_claim:
  "updateMessageSendingState now a mm = (b, mm') \<Longrightarrow> safe_change C B mm mm'"
  by (auto simp: updateMessageSendingState_def split: option.splits if_splits intro!: safe_modify_same)

lemma safe_packet:
  assumes "deref a mm = Some m" "encrypted m"
  shows "safe_change C B mm (SendMessagePacket a mm)"
  using assms by (auto simp: safe_change_def mm_safe_def SendMessagePacket_def emit_def deref_def)

lemma safe_store_wire:
  assumes "sealed_text C B w" "deref a mm \<noteq> None"
  shows "safe_change C B mm (store_wire a w mm)" "phase_ok C B (store_wire a w mm) (Ready a)"
proof -
  show "safe_change C B mm (store_wire a w mm)"
    unfolding store_wire_def by (rule safe_modify) (simp_all add: assms(1))
  show "phase_ok C B (store_wire a w mm) (Ready a)"
    using assms(2) by (auto simp: store_wire_def modify_def deref_def dict_simps)
qed

lemma safe_phase:
  assumes "mm_safe C B mm" "phase_ok C B mm p" "phase_step C B e p mm = (mm', next)"
  shows "safe_change C B mm mm' \<and> list_all (phase_ok C B mm') next"
proof (cases p)
  case (AtStart a)
  then show ?thesis using assms(3) by (auto split: if_splits prod.splits bool.splits dest: safe_claim)
next
  case (Claimed a)
  then show ?thesis using assms(3) by (auto split: option.splits if_splits)
next
  case (Loaded a f t sess kp)
  have s: "safe_change C B mm (snd (ratchet_wire C r sa t mm))" for r sa
    by (rule safe_change_same) (auto simp: ratchet_wire_def split: sum.splits option.splits prod.splits)
  have d: "deref a mm \<noteq> None" "deref a (snd (ratchet_wire C r sa t mm)) \<noteq> None" for r sa
    using assms(2) by (auto simp: Loaded ratchet_wire_def deref_def split: sum.splits option.splits prod.splits)
  show ?thesis
  proof (cases sess)
    case (Some sa)
    obtain q mm1 where q: "ratchet_wire C (header_rnd e) sa t mm = (q, mm1)" by fastforce
    have "sealed_text C B w" if "q = Ok w" for w using q that by (auto intro: ratchet_wire_sealed)
    then show ?thesis using assms(3) s [of "header_rnd e" sa] d(2) [of "header_rnd e" sa]
      by (cases q) (auto simp: Loaded Some q)
  next
    case None
    then show ?thesis using assms(3) d(1) nacl_wire_sealed
      by (auto simp: Loaded split: sum.splits)
  qed
next
  case (Failing a err)
  then show ?thesis using assms(3) by (auto simp: handleEncryptionError_def intro: safe_SetState safe_settle)
next
  case (Wire a w)
  then show ?thesis using assms(2,3) safe_store_wire [of C B w a mm] by auto
next
  case (Ready a)
  then show ?thesis using assms(2,3) safe_packet by (auto split: if_splits intro: safe_SetState)
next
  case (Handed a ok)
  then show ?thesis using assms(3) by (auto simp: handleSendResult_def intro: safe_SetState safe_settle)
qed

lemma safe_SendMessage:
  assumes "SendMessage now f t ty mm = (Ok a, mm')"
  shows "safe_change C B mm mm'"
proof -
  let ?m = "(newMessageWithTime f t ty now)\<lparr>ID := nextID mm\<rparr>"
  show ?thesis
    by (rule safe_alloc [where m = ?m])
      (use assms in \<open>auto simp: SendMessage_def newMessageWithTime_def Let_def split: if_splits\<close>)
qed

lemma sys_safe_change:
  assumes "sys_safe C B s" "safe_change C B (manager s) mm'" "list_all (phase_ok C B mm') new" "set ps \<subseteq> set (routines s)"
  shows "sys_safe C B (s\<lparr>manager := mm', routines := new @ ps\<rparr>)"
  using assms phase_ok_change [OF assms(2)] by (auto simp: sys_safe_def safe_change_def list_all_iff)

lemma sys_safe_step:
  assumes "sys_step C B F s s'" "sys_safe C B s"
  shows "sys_safe C B s'"
  using assms(1)
proof cases
  case (call p)
  then show ?thesis using sys_safe_change [OF assms(2) safe_apply, of p "[]" "routines s"] by simp
next
  case (send now f t ty a mm')
  then show ?thesis using sys_safe_change [OF assms(2) safe_SendMessage [OF send(2)], of "[AtStart a]" "routines s"] by simp
next
  case (batch now a)
  then show ?thesis using assms(2) by (simp add: sys_safe_def)
next
  case (phase ps p qs e mm' nx)
  have p: "mm_safe C B (manager s)" "phase_ok C B (manager s) p" using assms(2) phase(2) by (auto simp: sys_safe_def)
  note ch = safe_phase [OF p phase(3)]
  have "sys_safe C B (s\<lparr>manager := mm', routines := nx @ ps @ qs\<rparr>)"
    using ch phase(2) by (intro sys_safe_change [OF assms(2)]) auto
  then show ?thesis by (auto simp: phase(1) sys_safe_def)
qed

lemma initial_safe: "sys_safe C B (initial_system two)"
  by (simp add: sys_safe_def initial_system_def NewMessageManager_def mm_safe_def deref_def)

lemma reachable_safe: "(sys_step C B F)\<^sup>*\<^sup>* (initial_system two) s \<Longrightarrow> sys_safe C B s"
  by (induction rule: rtranclp_induct) (auto simp: initial_safe sys_safe_step)

section \<open>Schedules\<close>

text \<open>A schedule names the next call or lets the first goroutine run one phase.\<close>

datatype 'f label = LCall "'f mm_op" | LSend time u32 gostring | LStep attempt_env

fun sys_do :: "dr_crypto \<Rightarrow> nacl \<Rightarrow> 'f label \<Rightarrow> 'f system \<Rightarrow> 'f system" where
  "sys_do C B (LCall p) s = s\<lparr>manager := mm_apply C B p (manager s)\<rparr>"
| "sys_do C B (LSend now f t) s =
     (case SendMessage now f t 0 (manager s) of
        (Inr a, mm') \<Rightarrow> s\<lparr>manager := mm', routines := AtStart a # routines s\<rparr>
      | (Inl _, _) \<Rightarrow> s)"
| "sys_do C B (LStep e) s =
     (case routines s of
        [] \<Rightarrow> s
      | p # ps \<Rightarrow> (case phase_step C B e p (manager s) of (mm', nx) \<Rightarrow> s\<lparr>manager := mm', routines := nx @ ps\<rparr>))"

lemma sys_do_steps: "(sys_step C B F)\<^sup>*\<^sup>* s (sys_do C B l s)"
proof (cases l)
  case (LCall p)
  then show ?thesis by (auto intro: sys_step.call)
next
  case (LSend now f t)
  then show ?thesis by (auto split: prod.splits sum.splits intro: sys_step.send)
next
  case (LStep e)
  then show ?thesis using sys_step.phase [of s "[]"] by (auto split: list.splits prod.splits)
qed

lemma schedule_steps: "(sys_step C B F)\<^sup>*\<^sup>* s (fold (sys_do C B) ls s)"
proof (induction ls arbitrary: s)
  case (Cons l ls)
  from sys_do_steps [of C B F s l] Cons.IH [of "sys_do C B l s"] show ?case by simp
qed simp

text \<open>A message to friend 3 under a key provider, up to the point where the transport has the packet.\<close>

definition some_keys :: KeyProvider where
  "some_keys = \<lparr>GetFriendPublicKey = \<lambda>_. Some 7, GetSelfPrivateKey = 9\<rparr>"

definition until_handed :: "'f label list" where
  "until_handed = [LCall (OpTransport True), LCall (OpKeyProvider (Some some_keys)), LCall (OpGlobalCallback True),
     LSend 1 3 [104, 105], LStep sure_env, LStep sure_env, LStep sure_env, LStep sure_env, LStep sure_env]"

definition hi_wire :: "nacl \<Rightarrow> gostring" where
  "hi_wire B = EncodeToString (replicate 24 0 @ box_Seal B (padded [104, 105]) (replicate 24 0) 7 9)"

lemma hi_sendable: "sendable [104, 105]"
  by (simp add: sendable_def)

lemma hi_nacl_wire: "nacl_wire B (nonce_rnd sure_env) f [104, 105] (Some some_keys) = Ok (hi_wire B)"
proof -
  have "int (length (padded [104, 105])) \<le> MaxEncryptionBuffer"
    using payload_size [OF padded_Ok(1) [OF hi_sendable]] by (auto simp: PaddingSizes_def)
  then show ?thesis using padded_Ok(1,3) [OF hi_sendable]
    by (simp add: nacl_wire_def some_keys_def sure_env_def GenerateNonce_def Encrypt_total hi_wire_def)
qed

definition hi_message :: "nacl \<Rightarrow> Message" where
  "hi_message B =
     \<lparr>ID = 1, FriendID = 3, Type = 0, Text = hi_wire B, Timestamp = 1, State = MessageStateSending, Retries = 1,
      LastAttempt = Some 1, encrypted = True, deliveryCallback = False\<rparr>"

lemma until_handed_state:
  assumes s_def: "s = fold (sys_do C B) until_handed (initial_system two)"
  shows "routines s = [Handed 0 True]" "deref 0 (manager s) = Some (hi_message B)"
    "mget (messages (manager s)) 1 = Some 0" "trace (manager s) = [PacketSent 3 (hi_message B)]"
    "globalDeliveryCallback (manager s)"
proof -
  have e: "at_time sure_env = 1" "send_ok sure_env" by (simp_all add: sure_env_def)
  show "routines s = [Handed 0 True]" "deref 0 (manager s) = Some (hi_message B)"
    "mget (messages (manager s)) 1 = Some 0" "trace (manager s) = [PacketSent 3 (hi_message B)]"
    "globalDeliveryCallback (manager s)"
    unfolding s_def until_handed_def initial_system_def NewMessageManager_def
    by (simp_all add: SetTransport_def SetKeyProvider_def SetGlobalDeliveryCallback_def SendMessage_def Let_def
        newMessageWithTime_def updateMessageSendingState_def deref_def dict_simps modify_def hi_nacl_wire e store_wire_def
        SendMessagePacket_def emit_def hi_message_def)
qed

section \<open>Properties\<close>

text \<open>
  C6. However the calls of the application and the goroutines that send messages interleave, every packet
  handed to the transport carries a text in which a payload of one of the four padded sizes is sealed, by the
  ratchet or in a box: no plaintext leaves the manager.\<close>
theorem only_ciphertext_sent:
  assumes "(sys_step C B F)\<^sup>*\<^sup>* (initial_system two) s" and "PacketSent f m \<in> set (trace (manager s))"
  shows "encrypted m \<and> sealed_text C B (Text m)"
  using reachable_safe [OF assms(1)] assms(2) by (auto simp: sys_safe_def mm_safe_def)

definition int_floats :: "int float_ops" where
  "int_floats = \<lparr>float_one = 1, float_mul = (*), float_of_duration = (\<lambda>d. d),
     float_to_duration = (\<lambda>x. if x < 2 ^ 63 then x else - (2 ^ 63))\<rparr>"

lemma only_ciphertext_sent_witness:
  "\<exists>s m. (sys_step toy_crypto toy_nacl int_floats)\<^sup>*\<^sup>* (initial_system 2) s \<and> PacketSent 3 m \<in> set (trace (manager s)) \<and>
     encrypted m \<and> sealed_text toy_crypto toy_nacl (Text m)"
proof -
  let ?s = "fold (sys_do toy_crypto toy_nacl) until_handed (initial_system 2)"
  have "(sys_step toy_crypto toy_nacl int_floats)\<^sup>*\<^sup>* (initial_system 2) ?s"
    "PacketSent 3 (hi_message toy_nacl) \<in> set (trace (manager ?s))"
    by (simp_all add: schedule_steps until_handed_state [OF refl])
  with only_ciphertext_sent [OF this] show ?thesis by blast
qed

text \<open>
  A goroutine that runs its attempt without interruption does exactly what \<^verbatim>\<open>attemptMessageSend\<close> does as one
  function, in at most six phases.\<close>
theorem attempt_is_its_phases:
  assumes "deref a mm \<noteq> None"
  shows "run_phase 6 C B e [AtStart a] mm = (attemptMessageSend C B e a mm, [])"
proof -
  have six: "(6 :: nat) = Suc (Suc (Suc (Suc (Suc (Suc 0)))))" by simp
  obtain ok mm1 where u: "updateMessageSendingState (at_time e) a mm = (ok, mm1)" by fastforce
  have live: "\<exists>m. deref a mm1 = Some m"
    using assms u by (auto simp: updateMessageSendingState_def modify_def deref_def dict_simps split: if_splits)
  show ?thesis
  proof (cases "cancelled mm \<or> \<not> ok")
    case True
    then show ?thesis using u by (auto simp: six attemptMessageSend_def)
  next
    case False
    obtain m where m: "deref a mm1 = Some m" using live by blast
    show ?thesis using False u m
      by (auto simp: six attemptMessageSend_def encryptMessage_def encryptWithRatchet_def encryptWithNaCl_def
          sendThroughTransport_def split: option.splits prod.splits sum.splits)
  qed
qed

lemma attempt_is_its_phases_witness:
  "run_phase 6 toy_crypto toy_nacl sure_env [AtStart 0] (snd (SendMessage 1 3 [104] 0 (NewMessageManager (2 :: int)))) =
     (attemptMessageSend toy_crypto toy_nacl sure_env 0 (snd (SendMessage 1 3 [104] 0 (NewMessageManager (2 :: int)))), [])"
  by (rule attempt_is_its_phases) (simp add: SendMessage_def NewMessageManager_def Let_def deref_def dict_simps)

text \<open>
  A receipt that arrives before the goroutine has recorded the transport's success is lost: the
  application is told that the message was delivered, and then the message is back in the state of one that
  was only sent, with nothing left running.\<close>
theorem early_receipt_lost:
  "\<exists>s. (sys_step C B F)\<^sup>*\<^sup>* (initial_system two) s \<and> routines s = [] \<and>
     GlobalDeliveryCall 3 1 MessageStateDelivered \<in> set (trace (manager s)) \<and>
     GetDeliveryStatus 3 1 (manager s) = MessageStateSent"
proof -
  define s0 where "s0 = fold (sys_do C B) until_handed (initial_system two)"
  note st = until_handed_state [OF s0_def]
  let ?s = "fold (sys_do C B) [LCall (OpReceipt 3 1 0), LStep sure_env] s0"
  have f: "FriendID (hi_message B) = 3" "\<not> deliveryCallback (hi_message B)" by (simp_all add: hi_message_def)
  have "routines ?s = []" "GlobalDeliveryCall 3 1 MessageStateDelivered \<in> set (trace (manager ?s))"
    "GetDeliveryStatus 3 1 (manager ?s) = MessageStateSent"
    using st f by (simp_all add: HandleDeliveryReceipt_def GetFriendID_def resolveReceiptState_def SetState_def modify_def
        deref_def dict_simps emit_def handleSendResult_def GetDeliveryStatus_def Let_def)
  moreover have "(sys_step C B F)\<^sup>*\<^sup>* (initial_system two) ?s"
    using schedule_steps [of C B F "initial_system two" until_handed] schedule_steps [of C B F s0]
    unfolding s0_def by (rule rtranclp_trans)
  ultimately show ?thesis by blast
qed

end
