(* ===== verification/Message_Restart.thy ===== *)
theory Message_Restart
  imports Message_Goroutines
begin

text \<open>
  Retries and restarts of the message manager: how often a failing message is attempted, the backoff between
  attempts, and what saving and loading does to messages that were already encrypted.
\<close>

section \<open>Saved texts\<close>

lemma utf8_ascii: "a < 128 \<Longrightarrow> utf8_width (a # bs) = 1"
  by simp

lemma json_string_ascii: "\<forall>c \<in> set t. c < 128 \<Longrightarrow> json_string t = t"
  by (induction t) (simp_all del: utf8_width.simps add: utf8_ascii Let_def)

lemma b64_char_ascii: "n < 64 \<Longrightarrow> b64_char n < 128"
  by (auto simp: b64_char_def word_less_nat_alt unat_of_nat take_bit_nat_def)

lemma Encode_ascii: "\<forall>c \<in> set (EncodeToString bs). c < 128"
  by (induction bs rule: EncodeToString.induct) (auto simp: b64_char_ascii byte_parts)

lemma json_string_Encode [simp]: "json_string (EncodeToString bs) = EncodeToString bs"
  by (rule json_string_ascii [OF Encode_ascii])

lemma length_Encode: "length (EncodeToString bs) = 4 * ((length bs + 2) div 3)"
proof -
  have "(5 + n) div 3 = Suc (Suc (Suc n) div 3)" for n :: nat by presburger
  then show ?thesis by (induction bs rule: EncodeToString.induct) simp_all
qed

section \<open>One attempt under a key provider\<close>

definition nacl_text :: "nacl \<Rightarrow> bytes \<Rightarrow> KeyProvider \<Rightarrow> key32 \<Rightarrow> gostring \<Rightarrow> gostring" where
  "nacl_text B nonce p pk t = EncodeToString (nonce @ box_Seal B (padded t) nonce pk (GetSelfPrivateKey p))"

definition fits :: "gostring \<Rightarrow> bool" where
  "fits t \<longleftrightarrow> length t \<le> maxPaddedPayload"

lemma fits_padded:
  assumes "fits t"
  shows "encodeMessagePayload t = Ok (padded t)" "decodeMessagePayload (padded t) = Ok t" "padded t \<noteq> []"
    "length (padded t) \<in> set PaddingSizes"
proof -
  obtain p where p: "encodeMessagePayload t = Ok p" "length p \<in> set PaddingSizes" "4 + length t \<le> length p"
    by (rule encode_Ok [OF assms [unfolded fits_def]])
  then show "encodeMessagePayload t = Ok (padded t)" "decodeMessagePayload (padded t) = Ok t" "padded t \<noteq> []"
    "length (padded t) \<in> set PaddingSizes" using decode_encode by (auto simp: padded_def)
qed

lemma sendable_fits: "sendable t \<Longrightarrow> fits t"
  by (simp add: sendable_def fits_def)

lemma padded_short:
  assumes "sendable t"
  shows "length (padded t) \<le> 4096"
proof -
  have "pad_loop PaddingSizes (PutUint32 (of_nat (length t)) @ t) = Ok (padded t)"
    using padded_Ok(1) [OF assms] by (simp add: encodeMessagePayload_def padMessage_def split: if_splits)
  then show ?thesis
    by (rule pad_loop_least) (use assms in \<open>simp_all add: PaddingSizes_def sendable_def\<close>)
qed

lemma padded_buffer: "fits t \<Longrightarrow> int (length (padded t)) \<le> MaxEncryptionBuffer"
  using fits_padded(4) [of t] by (auto simp: PaddingSizes_def)

lemma nacl_text_opens:
  assumes "fits t" "box_opens B" "length nonce = NonceSize" "pk = box_public B (GetSelfPrivateKey q)"
    and "keyProvider mm = Some q" "GetFriendPublicKey q g = Some (box_public B (GetSelfPrivateKey p))"
    and "mget (ratchetSessions mm) g = None"
  shows "DecryptMessage C B rnd g (nacl_text B nonce p pk t) mm = (Ok t, mm)"
proof -
  have "Encrypt B (padded t) nonce pk (GetSelfPrivateKey p) = Ok (box_Seal B (padded t) nonce pk (GetSelfPrivateKey p))"
    using fits_padded(3) [OF assms(1)] padded_buffer [OF assms(1)] by (rule Encrypt_total)
  from Decrypt_Encrypt [OF assms(2) this [unfolded assms(4)]] show ?thesis
    using assms(3-7) fits_padded(2) [OF assms(1)] by (simp add: DecryptMessage_def decryptWithNaCl_def nacl_text_def)
qed

definition attempted :: "time \<Rightarrow> gostring \<Rightarrow> Message \<Rightarrow> Message" where
  "attempted now w m =
     m\<lparr>State := MessageStateSending, LastAttempt := Some now, Retries := Retries m + 1, Text := w, encrypted := True\<rparr>"

lemma transmit_any:
  assumes "deref a mm = Some m" "transport mm" "\<not> deliveryCallback m"
  shows "sendThroughTransport ok a mm =
    mm\<lparr>objects := mput a (m\<lparr>State := (if ok then MessageStateSent else if Retries m \<ge> maxRetries mm
        then MessageStateFailed else MessageStatePending)\<rparr>) (objects mm),
      trace := trace mm @ [PacketSent (FriendID m) m]\<rparr>"
  using assms
  by (cases ok) (simp_all add: sendThroughTransport_def SendMessagePacket_def emit_def handleSendResult_def settle_def
      GetRetries_def SetState_def modify_def deref_def Let_def dict_simps)

lemma attempt_nacl:
  assumes m: "deref a mm = Some m" "\<not> encrypted m" "\<not> deliveryCallback m"
      "State m \<notin> {MessageStateSent, MessageStateDelivered, MessageStateRead}" "fits (Text m)"
    and mm: "transport mm" "\<not> cancelled mm" "mget (ratchetSessions mm) (FriendID m) = None"
    and kp: "keyProvider mm = Some p" "GetFriendPublicKey p (FriendID m) = Some pk" and e: "nonce_rnd e = Some nonce"
  obtains os where "attemptMessageSend C B e a mm =
      mm\<lparr>objects := os, trace := trace mm @ [PacketSent (FriendID m) (attempted (at_time e) (nacl_text B nonce p pk (Text m)) m)]\<rparr>"
    "mget os a = Some ((attempted (at_time e) (nacl_text B nonce p pk (Text m)) m)\<lparr>State :=
       (if send_ok e then MessageStateSent else if Retries m + 1 \<ge> maxRetries mm then MessageStateFailed else MessageStatePending)\<rparr>)"
    "\<And>b. b \<noteq> a \<Longrightarrow> mget os b = mget (objects mm) b"
proof -
  let ?w = "nacl_text B nonce p pk (Text m)"
  let ?m1 = "m\<lparr>State := MessageStateSending, LastAttempt := Some (at_time e), Retries := Retries m + 1\<rparr>"
  let ?m2 = "attempted (at_time e) ?w m"
  let ?mm1 = "mm\<lparr>objects := mput a ?m1 (objects mm)\<rparr>"
  let ?mm2 = "mm\<lparr>objects := mput a ?m2 (mput a ?m1 (objects mm))\<rparr>"
  let ?m3 = "?m2\<lparr>State := (if send_ok e then MessageStateSent else if Retries ?m2 \<ge> maxRetries ?mm2
        then MessageStateFailed else MessageStatePending)\<rparr>"
  have w: "nacl_wire B (Some nonce) (FriendID m) (Text m) (Some p) = Ok ?w"
    using kp fits_padded [OF m(5)] padded_buffer [OF m(5)]
    by (simp add: nacl_wire_def GenerateNonce_def Encrypt_total nacl_text_def)
  have u: "updateMessageSendingState (at_time e) a mm = (True, ?mm1)"
    using m(1,4) by (simp add: updateMessageSendingState_def modify_def)
  have "encryptMessage C B (header_rnd e) (nonce_rnd e) a ?mm1 = (Ok (), ?mm2)"
    using m(2) mm(3) kp e w
    by (simp add: encryptMessage_def deref_def dict_simps encryptWithNaCl_def store_wire_def modify_def attempted_def)
  then have "attemptMessageSend C B e a mm = sendThroughTransport (send_ok e) a ?mm2"
    unfolding attemptMessageSend_def u using mm(2) by simp
  also have "\<dots> = ?mm2\<lparr>objects := mput a ?m3 (objects ?mm2), trace := trace ?mm2 @ [PacketSent (FriendID ?m2) ?m2]\<rparr>"
    by (rule transmit_any) (use m(3) mm(1) in \<open>simp_all add: deref_def dict_simps attempted_def\<close>)
  finally show thesis
    by (intro that [of "mput a ?m3 (objects ?mm2)"]) (simp_all add: attempted_def dict_simps)
qed


section \<open>Giving up\<close>








section \<open>Properties\<close>

text \<open>A new manager with a transport, a store, keys and its own retry settings.\<close>

definition nacl_mm :: "'f \<Rightarrow> KeyProvider \<Rightarrow> u8 \<Rightarrow> duration \<Rightarrow> duration \<Rightarrow> 'f MessageManager" where
  "nacl_mm two p retries initial maximum =
     SetStore True (SetTransport True (SetKeyProvider (Some p)
       (SetRetryConfig True retries initial maximum two (NewMessageManager two))))"

lemmas nacl_mm_defs = nacl_mm_def SetStore_def SetTransport_def SetKeyProvider_def SetRetryConfig_def NewMessageManager_def

lemma nacl_mm_sent:
  assumes "sendable t"
  obtains m where "deref 0 (snd (SendMessage now f t ty (nacl_mm two p r i x))) = Some m" "FriendID m = f" "Text m = t"
    "\<not> encrypted m" "\<not> deliveryCallback m" "State m = MessageStatePending" "Retries m = 0" "ID m = 1"
  using that [of "(newMessageWithTime f t ty now)\<lparr>ID := 1\<rparr>"] assms
  by (simp add: SendMessage_def sendable_def nacl_mm_defs deref_def dict_simps newMessageWithTime_def Let_def)

lemma nacl_mm_sent_parts:
  assumes "sendable t"
  shows "pendingQueue (snd (SendMessage now f t ty (nacl_mm two p r i x))) = [0]"
    "messages (snd (SendMessage now f t ty (nacl_mm two p r i x))) = mput 1 0 []"
    "transport (snd (SendMessage now f t ty (nacl_mm two p r i x)))"
    "\<not> cancelled (snd (SendMessage now f t ty (nacl_mm two p r i x)))"
    "retryEnabled (snd (SendMessage now f t ty (nacl_mm two p r i x)))"
    "ratchetSessions (snd (SendMessage now f t ty (nacl_mm two p r i x))) = []"
    "keyProvider (snd (SendMessage now f t ty (nacl_mm two p r i x))) = Some p"
    "trace (snd (SendMessage now f t ty (nacl_mm two p r i x))) = []"
    "maxRetries (snd (SendMessage now f t ty (nacl_mm two p r i x))) = r"
    "initialDelay (snd (SendMessage now f t ty (nacl_mm two p r i x))) = i"
    "maxDelay (snd (SendMessage now f t ty (nacl_mm two p r i x))) = x"
    "storeSet (snd (SendMessage now f t ty (nacl_mm two p r i x)))"
  using assms by (simp_all add: SendMessage_def sendable_def nacl_mm_defs newMessageWithTime_def Let_def)


definition bad_env :: "time \<Rightarrow> attempt_env" where
  "bad_env now = \<lparr>at_time = now, header_rnd = None, nonce_rnd = Some (replicate 24 0), send_ok = False\<rparr>"


text \<open>
  C16. Saving does not record that a text is already encrypted. A message whose first transmission failed is
  loaded again as plaintext, so its ciphertext is encrypted a second time: the friend decrypts the packet sent
  before the restart to the text, and the one sent after it to the first ciphertext.\<close>
theorem reload_encrypts_twice:
  assumes "box_opens B" "sendable t" "length nonce = NonceSize" "length nonce' = NonceSize" "1 < r"
    and keys: "GetFriendPublicKey p f = Some (box_public B (GetSelfPrivateKey q))"
      "GetFriendPublicKey q g = Some (box_public B (GetSelfPrivateKey p))"
    and e: "nonce_rnd e = Some nonce" "\<not> send_ok e" "nonce_rnd e' = Some nonce'"
    and mm1: "mm1 = attemptMessageSend C B e 0 (snd (SendMessage now f t ty (nacl_mm two p r i x)))"
    and snap: "SaveMessages True mm1 = Ok snapshot"
    and mm2: "mm2 = attemptMessageSend C B e' 0 (snd (LoadMessages (LoadData snapshot) (nacl_mm two p r i x)))"
  shows "\<exists>w w'. packet_texts (trace mm1) = [w] \<and> packet_texts (trace mm2) = [w'] \<and>
    fst (DecryptMessage C B rnd g w (nacl_mm two q r i x)) = Ok t \<and>
    fst (DecryptMessage C B rnd g w' (nacl_mm two q r i x)) = Ok w"
proof -
  let ?pk = "box_public B (GetSelfPrivateKey q)" and ?w = "nacl_text B nonce p (box_public B (GetSelfPrivateKey q)) t"
  let ?mm = "snd (SendMessage now f t ty (nacl_mm two p r i x))"
  note parts = nacl_mm_sent_parts [OF assms(2), of now f ty two p r i x]
  obtain m where m: "deref 0 ?mm = Some m" "FriendID m = f" "Text m = t" "\<not> encrypted m" "\<not> deliveryCallback m"
    "State m = MessageStatePending" "Retries m = 0" "ID m = 1" by (rule nacl_mm_sent [OF assms(2)])
  let ?m = "(attempted (at_time e) ?w m)\<lparr>State := MessageStatePending\<rparr>"
  have small: "\<not> Retries m + 1 \<ge> r" using assms(5) m(7) by (simp add: not_le)
  obtain os where a: "mm1 = ?mm\<lparr>objects := os, trace := trace ?mm @ [PacketSent (FriendID m) (attempted (at_time e) ?w m)]\<rparr>"
    "mget os 0 = Some ?m"
    by (rule attempt_nacl [OF m(1,4,5) _ _ _ _ _ parts(7) _ e(1), of ?pk C B])
      (use m parts keys(1) e(2) small sendable_fits [OF assms(2)] in \<open>simp_all add: mm1\<close>)
  have sent: "packet_texts (trace mm1) = [?w]" by (simp add: a(1) parts attempted_def)
  have "snapshot = \<lparr>Messages = [Some (MarshalJSON ?m)], NextID = nextID mm1\<rparr>"
    using snap a(2) by (simp add: SaveMessages_def a(1) parts Let_def deref_def mput_def mdel_def)
  then obtain mm' m' where mm': "snd (LoadMessages (LoadData snapshot) (nacl_mm two p r i x)) = mm'" "deref 0 mm' = Some m'"
    "Text m' = ?w" "FriendID m' = f" "\<not> encrypted m'" "\<not> deliveryCallback m'" "State m' = MessageStatePending"
    "transport mm'" "\<not> cancelled mm'" "ratchetSessions mm' = []" "keyProvider mm' = Some p" "trace mm' = []"
    using m(2) by (simp add: LoadMessages_def loadAndDeserialize_def restoreMessagesFromSnapshot_def restore_one_def
        nacl_mm_defs Let_def shouldRestoreToPending_def UnmarshalJSON_def MarshalJSON_def attempted_def nacl_text_def
        deref_def dict_simps)
  have "length ?w \<le> maxPaddedPayload"
    using fits_padded(4) [OF sendable_fits [OF assms(2)]] assms(1,2,3) padded_short [OF assms(2)]
    by (simp add: nacl_text_def length_Encode box_opens_def)
  then have fw: "fits ?w" by (simp add: fits_def)
  obtain os' where a': "mm2 = mm'\<lparr>objects := os', trace := trace mm' @ [PacketSent (FriendID m')
        (attempted (at_time e') (nacl_text B nonce' p ?pk (Text m')) m')]\<rparr>"
    by (rule attempt_nacl [OF mm'(2,5,6) _ _ mm'(8,9) _ mm'(11) _ e(3), of ?pk C B])
      (use mm' keys(1) fw in \<open>simp_all add: mm2\<close>)
  have "packet_texts (trace mm2) = [nacl_text B nonce' p ?pk ?w]" by (simp add: a' mm' attempted_def)
  then show ?thesis
    using sent nacl_text_opens [OF sendable_fits [OF assms(2)] assms(1,3) refl _ keys(2), of "nacl_mm two q r i x" C rnd]
      nacl_text_opens [OF fw assms(1,4) refl _ keys(2), of "nacl_mm two q r i x" C rnd]
    by (simp add: nacl_mm_defs)
qed

lemma reload_encrypts_twice_witness:
  "\<exists>snapshot w w' mm1 mm2.
     mm1 = attemptMessageSend toy_crypto toy_nacl (bad_env 1) 0 (snd (SendMessage 0 3 [104] 0 (nacl_mm (2 :: int) some_keys 2 5 10))) \<and>
     SaveMessages True mm1 = Ok snapshot \<and>
     mm2 = attemptMessageSend toy_crypto toy_nacl (bad_env 9) 0
       (snd (LoadMessages (LoadData snapshot) (nacl_mm (2 :: int) some_keys 2 5 10))) \<and>
     packet_texts (trace mm1) = [w] \<and> packet_texts (trace mm2) = [w'] \<and>
     fst (DecryptMessage toy_crypto toy_nacl None 4 w
       (nacl_mm (2 :: int) \<lparr>GetFriendPublicKey = \<lambda>_. Some 9, GetSelfPrivateKey = 7\<rparr> 2 5 10)) = Ok [104] \<and>
     fst (DecryptMessage toy_crypto toy_nacl None 4 w'
       (nacl_mm (2 :: int) \<lparr>GetFriendPublicKey = \<lambda>_. Some 9, GetSelfPrivateKey = 7\<rparr> 2 5 10)) = Ok w"
proof -
  let ?mm1 = "attemptMessageSend toy_crypto toy_nacl (bad_env 1) 0 (snd (SendMessage 0 3 [104] 0 (nacl_mm (2 :: int) some_keys 2 5 10)))"
  have t: "sendable [104]" by (simp add: sendable_def)
  let ?mm = "snd (SendMessage 0 3 [104] 0 (nacl_mm (2 :: int) some_keys 2 5 10))"
  obtain m where m: "deref 0 ?mm = Some m" "FriendID m = 3" "Text m = [104]" "\<not> encrypted m" "\<not> deliveryCallback m"
    "State m = MessageStatePending" by (rule nacl_mm_sent [OF t])
  note parts = nacl_mm_sent_parts [OF t, of 0 3 0 "2 :: int" some_keys 2 5 10]
  have keys: "GetFriendPublicKey some_keys f = Some 7" for f by (simp add: some_keys_def)
  obtain os tr where "?mm1 = ?mm\<lparr>objects := os, trace := tr\<rparr>"
    by (rule attempt_nacl [OF m(1,4,5), where pk = 7 and p = some_keys and nonce = "replicate 24 0" and e = "bad_env 1"])
      (use m parts sendable_fits [OF t] keys in \<open>simp_all add: bad_env_def\<close>)
  then obtain snapshot where snap: "SaveMessages True ?mm1 = Ok snapshot"
    using parts(12) by (simp add: SaveMessages_def Let_def)
  have "\<exists>w w'. packet_texts (trace ?mm1) = [w] \<and>
     packet_texts (trace (attemptMessageSend toy_crypto toy_nacl (bad_env 9) 0
       (snd (LoadMessages (LoadData snapshot) (nacl_mm (2 :: int) some_keys 2 5 10))))) = [w'] \<and>
     fst (DecryptMessage toy_crypto toy_nacl None 4 w
       (nacl_mm (2 :: int) \<lparr>GetFriendPublicKey = \<lambda>_. Some 9, GetSelfPrivateKey = 7\<rparr> 2 5 10)) = Ok [104] \<and>
     fst (DecryptMessage toy_crypto toy_nacl None 4 w'
       (nacl_mm (2 :: int) \<lparr>GetFriendPublicKey = \<lambda>_. Some 9, GetSelfPrivateKey = 7\<rparr> 2 5 10)) = Ok w"
    by (rule reload_encrypts_twice [OF toy_nacl_opens(1) t, where nonce = "replicate 24 0" and nonce' = "replicate 24 0"
          and snapshot = snapshot, OF _ _ _ _ _ _ _ _ refl snap refl])
      (simp_all add: bad_env_def some_keys_def toy_nacl_def)
  then show ?thesis using snap by blast
qed

end
