(* ===== verification/Dht_Node.thy ===== *)
theory Dht_Node
  imports Tox_Id
begin

text \<open>
  Nodes of the distributed hash table, \<^verbatim>\<open>dht/node.go\<close>, and the distance between them, with the loops of
  \<^verbatim>\<open>Distance\<close>, \<^verbatim>\<open>lessDistance\<close> and \<^verbatim>\<open>getBucketIndex\<close> (\<^verbatim>\<open>dht/routing.go\<close>) over the 32 bytes of a key. The loops
  are the XOR metric: the exclusive or of the keys as numbers, the order of numbers, and the position of the
  highest bit.
\<close>

unbundle bit_operations_syntax

section \<open>Nodes\<close>

text \<open>
  A node is the value of the struct; the address is \<open>None\<close> where the interface is nil, and the zero time is 0.
\<close>

datatype NodeStatus = StatusUnknown | StatusBad | StatusGood

record PingStats =
  LastPingSent :: time
  LastPingReceived :: time
  PingCount :: u32
  SuccessCount :: u32
  FailureCount :: u32

record 'a Node =
  NodeID :: ToxID
  Address :: "'a option"
  LastSeen :: time
  Status :: NodeStatus
  NodeKey :: key32
  Pings :: PingStats

definition noPings :: PingStats where
  "noPings = \<lparr>LastPingSent = 0, LastPingReceived = 0, PingCount = 0, SuccessCount = 0, FailureCount = 0\<rparr>"

definition NewNode :: "time \<Rightarrow> ToxID \<Rightarrow> 'a option \<Rightarrow> 'a Node" where
  "NewNode now tid addr =
     \<lparr>NodeID = tid, Address = addr, LastSeen = now, Status = StatusUnknown, NodeKey = PublicKey tid, Pings = noPings\<rparr>"

definition IsActive :: "time \<Rightarrow> duration \<Rightarrow> 'a Node \<Rightarrow> bool" where
  "IsActive now timeout n \<longleftrightarrow> now - LastSeen n < timeout"

definition Update :: "time \<Rightarrow> NodeStatus \<Rightarrow> 'a Node \<Rightarrow> 'a Node" where
  "Update now status n = n\<lparr>LastSeen := now, Status := status\<rparr>"

definition RecordPingSent :: "time \<Rightarrow> 'a Node \<Rightarrow> 'a Node" where
  "RecordPingSent now n = n\<lparr>Pings := (Pings n)\<lparr>LastPingSent := now, PingCount := PingCount (Pings n) + 1\<rparr>\<rparr>"

definition RecordPingResponse :: "time \<Rightarrow> bool \<Rightarrow> 'a Node \<Rightarrow> 'a Node" where
  "RecordPingResponse now success n =
     (if success then
        n\<lparr>Pings := (Pings n)\<lparr>LastPingReceived := now, SuccessCount := SuccessCount (Pings n) + 1\<rparr>,
          LastSeen := now, Status := StatusGood\<rparr>
      else
        let n1 = n\<lparr>Pings := (Pings n)\<lparr>FailureCount := FailureCount (Pings n) + 1\<rparr>\<rparr>
        in if FailureCount (Pings n1) > SuccessCount (Pings n1)
           then n1\<lparr>LastSeen := now, Status := StatusBad\<rparr> else n1)"

definition SetStatus :: "NodeStatus \<Rightarrow> 'a Node \<Rightarrow> 'a Node" where
  "SetStatus status n = n\<lparr>Status := status\<rparr>"

section \<open>Distance\<close>

definition Distance :: "'a Node \<Rightarrow> 'b Node \<Rightarrow> key32" where
  "Distance n other = bytes_key (map2 (XOR) (key_bytes (NodeKey n)) (key_bytes (NodeKey other)))"

fun less_loop :: "bytes \<Rightarrow> bytes \<Rightarrow> bool" where
  "less_loop (a # as) (b # bs) = (if a < b then True else if a > b then False else less_loop as bs)"
| "less_loop _ _ = False"

definition lessDistance :: "key32 \<Rightarrow> key32 \<Rightarrow> bool" where
  "lessDistance a b = less_loop (key_bytes a) (key_bytes b)"

text \<open>The inner loop looks for the first set bit of a byte, from the most significant one.\<close>

fun bit_loop :: "nat \<Rightarrow> nat \<Rightarrow> byte \<Rightarrow> nat option" where
  "bit_loop 0 j b = None"
| "bit_loop (Suc k) j b = (if drop_bit (7 - j) b AND 1 = 1 then Some j else bit_loop k (Suc j) b)"

fun index_loop :: "nat \<Rightarrow> bytes \<Rightarrow> nat" where
  "index_loop i [] = 255"
| "index_loop i (b # bs) =
     (if b = 0 then index_loop (Suc i) bs
      else case bit_loop 8 0 b of Some j \<Rightarrow> i * 8 + j | None \<Rightarrow> index_loop (Suc i) bs)"

definition getBucketIndex :: "key32 \<Rightarrow> nat" where
  "getBucketIndex distance = index_loop 0 (key_bytes distance)"

definition createTargetNode :: "ToxID \<Rightarrow> 'a Node" where
  "createTargetNode targetID =
     \<lparr>NodeID = targetID, Address = None, LastSeen = 0, Status = StatusUnknown, NodeKey = PublicKey targetID,
      Pings = noPings\<rparr>"

definition computeBucketIndex :: "ToxID \<Rightarrow> 'a Node \<Rightarrow> nat" where
  "computeBucketIndex selfID node =
     (let selfNode = createTargetNode selfID :: 'a Node; dist = Distance node selfNode in getBucketIndex dist)"

section \<open>The loops are arithmetic\<close>

lemma be_val_Cons: "be_val (b # bs) = unat b * 256 ^ length bs + be_val bs"
proof (induction bs rule: rev_induct)
  case Nil
  show ?case by (simp add: be_val_def)
next
  case (snoc c bs)
  then show ?case using be_val_snoc [of "b # bs" c] by (simp add: algebra_simps)
qed

lemma digits_less:
  fixes a b x y p :: nat
  assumes "x < p" "y < p"
  shows "a * p + x < b * p + y \<longleftrightarrow> a < b \<or> a = b \<and> x < y"
proof (cases a b rule: linorder_cases)
  case less
  then have "Suc a * p \<le> b * p" by (intro mult_le_mono1) simp
  then show ?thesis using less assms by simp
next
  case greater
  then have "Suc b * p \<le> a * p" by (intro mult_le_mono1) simp
  then show ?thesis using greater assms by simp
qed simp

lemma less_loop_val: "length as = length bs \<Longrightarrow> less_loop as bs \<longleftrightarrow> be_val as < be_val bs"
proof (induction as bs rule: less_loop.induct)
  case (1 a as b bs)
  have "be_val as < 256 ^ length bs" "be_val bs < 256 ^ length bs"
    using 1 be_val_less [of as] be_val_less [of bs] by simp_all
  from digits_less [OF this] show ?case
    using 1 by (auto simp: be_val_Cons word_less_nat_alt word_unat_eq_iff)
qed auto

lemma be_val_key_bytes [simp]: "be_val (key_bytes k) = unat k"
proof -
  have "unat k < 2 ^ 256" using unsigned_less [of k] by simp
  then show ?thesis by (simp add: key_bytes_def be_val_be_bytes)
qed

theorem lessDistance_is_less: "lessDistance a b \<longleftrightarrow> a < b"
  by (simp add: lessDistance_def less_loop_val word_less_nat_alt)

lemma be_bytes_xor: "be_bytes k (m XOR n) = map2 (XOR) (be_bytes k m) (be_bytes k n)"
proof (induction k arbitrary: m n)
  case (Suc k)
  have "(m XOR n) div 256 = m div 256 XOR n div 256" using drop_bit_xor [of 8 m n] by (simp add: drop_bit_eq_div)
  then show ?case by (simp add: Suc.IH of_nat_xor_eq)
qed simp

lemma key_bytes_xor: "key_bytes (a XOR b) = map2 (XOR) (key_bytes a) (key_bytes b)"
  by (simp add: key_bytes_def unsigned_xor_eq be_bytes_xor)

lemma bytes_key_xor: "bytes_key (map2 (XOR) (key_bytes a) (key_bytes b)) = a XOR b"
  by (simp flip: key_bytes_xor)

lemma Distance_xor: "Distance n other = NodeKey n XOR NodeKey other"
  by (simp add: Distance_def bytes_key_xor)

lemma bit_loop_top:
  "k \<le> 8 \<Longrightarrow> unat b < 2 ^ k \<Longrightarrow> b \<noteq> 0 \<Longrightarrow>
     \<exists>j<8. bit_loop k (8 - k) b = Some j \<and> 2 ^ (7 - j) \<le> unat b \<and> unat b < 2 ^ (8 - j)"
proof (induction k)
  case 0
  then show ?case by (simp add: unat_eq_zero)
next
  case (Suc k)
  have "drop_bit k b AND 1 = 1 \<longleftrightarrow> bit b k"
    by (simp add: and_one_eq bit_iff_odd_drop_bit mod_2_eq_odd)
  also have "\<dots> \<longleftrightarrow> odd (unat b div 2 ^ k)"
    using Suc.prems(1) by (simp add: bit_unsigned_iff flip: bit_iff_odd)
  also have "\<dots> \<longleftrightarrow> 2 ^ k \<le> unat b"
  proof (cases "2 ^ k \<le> unat b")
    case True
    then have "unat b div 2 ^ k = 1" using Suc.prems(2) by (simp add: div_nat_eqI)
    then show ?thesis using True by simp
  qed simp
  finally have top: "drop_bit k b AND 1 = 1 \<longleftrightarrow> 2 ^ k \<le> unat b" .
  show ?case
  proof (cases "2 ^ k \<le> unat b")
    case True
    then show ?thesis using Suc.prems top by (intro exI [of _ "7 - k"]) (simp add: Suc_diff_le)
  next
    case False
    moreover have "Suc (7 - k) = 8 - k" using Suc.prems(1) by simp
    ultimately show ?thesis using Suc top by simp
  qed
qed

lemma index_loop_top:
  "be_val bs \<noteq> 0 \<Longrightarrow>
     \<exists>k<8 * length bs. index_loop i bs = i * 8 + k \<and>
       2 ^ (8 * length bs - Suc k) \<le> be_val bs \<and> be_val bs < 2 ^ (8 * length bs - k)"
proof (induction i bs rule: index_loop.induct)
  case (2 i b bs)
  show ?case
  proof (cases "b = 0")
    case True
    then obtain k where "k < 8 * length bs" "index_loop (Suc i) bs = Suc i * 8 + k"
        "2 ^ (8 * length bs - Suc k) \<le> be_val bs" "be_val bs < 2 ^ (8 * length bs - k)"
      using 2 by (auto simp: be_val_Cons)
    then show ?thesis using True by (intro exI [of _ "8 + k"]) (simp add: be_val_Cons)
  next
    case False
    obtain j where j: "j < 8" "bit_loop 8 0 b = Some j" "2 ^ (7 - j) \<le> unat b" "unat b < 2 ^ (8 - j)"
      using bit_loop_top [of 8 b] unat_byte_less [of b] False by auto
    let ?p = "256 ^ length bs :: nat"
    have p: "?p = 2 ^ (8 * length bs)" by (simp add: power_mult)
    have r: "be_val bs < ?p" by (rule be_val_less)
    have "2 ^ (7 - j) * ?p \<le> unat b * ?p" using j(3) by (rule mult_le_mono1)
    moreover have "Suc (unat b) * ?p \<le> 2 ^ (8 - j) * ?p" using j(4) by (intro mult_le_mono1) simp
    moreover have "7 - j + 8 * length bs = 8 * length (b # bs) - Suc j" "8 - j + 8 * length bs = 8 * length (b # bs) - j"
      using j(1) by simp_all
    ultimately show ?thesis
      using r j(1,2) False unfolding p power_add [symmetric]
      by (intro exI [of _ j]) (simp add: be_val_Cons p)
  qed
qed simp

lemma bucket_range:
  assumes "d \<noteq> 0"
  shows "getBucketIndex d < 256" "2 ^ (255 - getBucketIndex d) \<le> unat d" "unat d < 2 ^ (256 - getBucketIndex d)"
proof -
  have "be_val (key_bytes d) \<noteq> 0" using assms by (simp add: unat_eq_zero)
  from index_loop_top [OF this, of 0] show "getBucketIndex d < 256"
      "2 ^ (255 - getBucketIndex d) \<le> unat d" "unat d < 2 ^ (256 - getBucketIndex d)"
    by (auto simp: getBucketIndex_def)
qed

lemma bucket_zero: "getBucketIndex 0 = 255"
  by code_simp

lemma bucket_less [simp]: "getBucketIndex d < 256"
  using bucket_range(1) [of d] bucket_zero by (cases "d = 0") simp_all

lemma xor_zero_iff: "a XOR b = 0 \<longleftrightarrow> a = (b :: 'a :: len word)"
proof
  assume "a XOR b = 0"
  then have "(a XOR b) XOR b = 0 XOR b" by simp
  then show "a = b" by (simp add: xor.assoc)
qed simp

lemma xor_right_inject: "a XOR t = b XOR t \<longleftrightarrow> a = (b :: 'a :: len word)"
proof
  assume "a XOR t = b XOR t"
  then have "(a XOR t) XOR t = (b XOR t) XOR t" by simp
  then show "a = b" by (simp add: xor.assoc)
qed simp

lemma power_interval_unique:
  fixes v :: nat
  assumes "2 ^ m \<le> v" "v < 2 ^ Suc m" "2 ^ n \<le> v" "v < 2 ^ Suc n"
  shows "m = n"
proof -
  have "(2 :: nat) ^ m < 2 ^ Suc n" "(2 :: nat) ^ n < 2 ^ Suc m" using assms by linarith+
  then have "m < Suc n" "n < Suc m" by (simp_all only: power_strict_increasing_iff one_less_numeral_iff semiring_norm)
  then show ?thesis by simp
qed

text \<open>
  A node whose key differs from the local one goes into the bucket of the highest bit of their distance:
  bucket \<open>i\<close> is exactly the set of the nodes at distance \<open>2 ^ (255 - i)\<close> up to \<open>2 ^ (256 - i)\<close>, exclusive,
  where the distance is the exclusive or of the keys.
\<close>

theorem bucket_is_distance_range:
  assumes "NodeKey n \<noteq> PublicKey selfID"
  shows "computeBucketIndex selfID n = i \<longleftrightarrow>
    i < 256 \<and> 2 ^ (255 - i) \<le> unat (NodeKey n XOR PublicKey selfID) \<and>
    unat (NodeKey n XOR PublicKey selfID) < 2 ^ (256 - i)"
proof -
  let ?d = "NodeKey n XOR PublicKey selfID"
  have ne: "?d \<noteq> 0" using assms by (simp add: xor_zero_iff)
  have ix: "computeBucketIndex selfID n = getBucketIndex ?d"
    by (simp add: computeBucketIndex_def Distance_xor createTargetNode_def)
  have "getBucketIndex ?d = i" if i: "i < 256" "2 ^ (255 - i) \<le> unat ?d" "unat ?d < 2 ^ (256 - i)"
  proof -
    have "Suc (255 - i) = 256 - i" "Suc (255 - getBucketIndex ?d) = 256 - getBucketIndex ?d"
      using i(1) bucket_range(1) [OF ne] by linarith+
    then have "255 - i = 255 - getBucketIndex ?d"
      using bucket_range(2,3) [OF ne] i(2,3) by (intro power_interval_unique [of _ "unat ?d"]) (simp_all only:)
    then show ?thesis using i(1) bucket_range(1) [OF ne] by linarith
  qed
  then show ?thesis using bucket_range [OF ne] unfolding ix by blast
qed

theorem bucket_is_distance_range_witness:
  "computeBucketIndex \<lparr>PublicKey = 0, Nospam = 0, Checksum = 0\<rparr>
     (NewNode 0 \<lparr>PublicKey = 2 ^ 255, Nospam = 0, Checksum = 0\<rparr> (None :: nat option)) = 0"
proof -
  let ?self = "\<lparr>PublicKey = 0, Nospam = 0, Checksum = 0\<rparr> :: ToxID"
  let ?n = "NewNode 0 \<lparr>PublicKey = 2 ^ 255, Nospam = 0, Checksum = 0\<rparr> (None :: nat option)"
  have "NodeKey ?n \<noteq> PublicKey ?self" "unat (NodeKey ?n XOR PublicKey ?self) = 2 ^ 255"
    by (simp_all add: NewNode_def)
  then show ?thesis using bucket_is_distance_range [of ?n ?self 0] by simp
qed

end
