(* ===== verification/Container_List.thy ===== *)
theory Container_List
  imports Tox_Prelude
begin

text \<open>
  Go's \<^verbatim>\<open>container/list\<close> as the caches use it, and the pattern they all share: a list of entries in the order of
  their last use, and a map from the key of an entry to its list element. An element is named by a number that is
  unique in the list. The two structures are related by \<open>indexed\<close>, every step of a cache keeps the relation, and
  its effect on the list of entries is that of the textbook least-recently-used list.
\<close>

section \<open>Doubly linked lists\<close>

record 'v golist =
  cells :: "(nat \<times> 'v) list"
  fresh :: nat

definition list_New :: "'v golist" where
  "list_New = \<lparr>cells = [], fresh = 0\<rparr>"

definition list_Len :: "'v golist \<Rightarrow> nat" where
  "list_Len l = length (cells l)"

definition PushFront :: "'v \<Rightarrow> 'v golist \<Rightarrow> nat \<times> 'v golist" where
  "PushFront v l = (fresh l, l\<lparr>cells := (fresh l, v) # cells l, fresh := Suc (fresh l)\<rparr>)"

definition elem_Value :: "'v golist \<Rightarrow> nat \<Rightarrow> 'v option" where
  "elem_Value l e = map_of (cells l) e"

definition list_Remove :: "nat \<Rightarrow> 'v golist \<Rightarrow> 'v golist" where
  "list_Remove e l = l\<lparr>cells := filter (\<lambda>c. fst c \<noteq> e) (cells l)\<rparr>"

definition MoveToFront :: "nat \<Rightarrow> 'v golist \<Rightarrow> 'v golist" where
  "MoveToFront e l =
     (case elem_Value l e of
        None \<Rightarrow> l
      | Some v \<Rightarrow> l\<lparr>cells := (e, v) # filter (\<lambda>c. fst c \<noteq> e) (cells l)\<rparr>)"

definition Back :: "'v golist \<Rightarrow> (nat \<times> 'v) option" where
  "Back l = (if cells l = [] then None else Some (List.last (cells l)))"

text \<open>An assignment through the pointer that an element holds.\<close>

definition set_Value :: "nat \<Rightarrow> 'v \<Rightarrow> 'v golist \<Rightarrow> 'v golist" where
  "set_Value e v l = l\<lparr>cells := map (\<lambda>c. if fst c = e then (e, v) else c) (cells l)\<rparr>"

section \<open>A list with an index\<close>

definition entries_of :: "'v golist \<Rightarrow> 'v list" where
  "entries_of l = map snd (cells l)"

definition indexed :: "('v \<Rightarrow> 'k) \<Rightarrow> ('k, nat) gomap \<Rightarrow> 'v golist \<Rightarrow> bool" where
  "indexed keyof m l \<longleftrightarrow>
     wf_map m \<and> distinct (map fst (cells l)) \<and> (\<forall>e\<in>fst ` set (cells l). e < fresh l) \<and>
     distinct (map (keyof \<circ> snd) (cells l)) \<and>
     (\<forall>k e. mget m k = Some e \<longleftrightarrow> (\<exists>v. (e, v) \<in> set (cells l) \<and> keyof v = k))"

lemma indexedD:
  assumes "indexed keyof m l"
  shows "wf_map m" "distinct (map fst (cells l))" "e \<in> fst ` set (cells l) \<Longrightarrow> e < fresh l"
    "distinct (map (keyof \<circ> snd) (cells l))"
    "mget m k = Some e \<longleftrightarrow> (\<exists>v. (e, v) \<in> set (cells l) \<and> keyof v = k)"
  using assms by (auto simp: indexed_def)

lemma indexed_New: "indexed keyof [] list_New"
  by (simp add: indexed_def list_New_def wf_map_def mget_def)

lemma entries_New [simp]: "entries_of list_New = []"
  by (simp add: entries_of_def list_New_def)

lemma list_Len_New [simp]: "list_Len list_New = 0"
  by (simp add: list_Len_def list_New_def)

lemma length_entries [simp]: "length (entries_of l) = list_Len l"
  by (simp add: entries_of_def list_Len_def)

lemma indexed_distinct: "indexed keyof m l \<Longrightarrow> distinct (map keyof (entries_of l))"
  by (simp add: indexed_def entries_of_def)

lemma elem_Value_iff: "indexed keyof m l \<Longrightarrow> elem_Value l e = Some v \<longleftrightarrow> (e, v) \<in> set (cells l)"
  by (simp add: indexed_def elem_Value_def)

lemma indexed_lookup:
  assumes "indexed keyof m l" "mget m k = Some e"
  shows "\<exists>v. elem_Value l e = Some v \<and> keyof v = k \<and> v \<in> set (entries_of l)"
  using assms by (force simp: elem_Value_iff indexedD(5) entries_of_def)

lemma indexed_none: "indexed keyof m l \<Longrightarrow> mget m k = None \<longleftrightarrow> k \<notin> keyof ` set (entries_of l)"
  by (force simp: indexed_def entries_of_def simp flip: not_Some_eq)

lemma same_cell:
  assumes "indexed keyof m l" "mget m k = Some e" "c \<in> set (cells l)"
  shows "fst c = e \<longleftrightarrow> keyof (snd c) = k"
proof -
  obtain v where v: "(e, v) \<in> set (cells l)" "keyof v = k" using indexedD(5) [OF assms(1)] assms(2) by blast
  have "inj_on fst (set (cells l))" "inj_on (keyof \<circ> snd) (set (cells l))"
    using indexedD(2,4) [OF assms(1)] by (simp_all add: distinct_map)
  from inj_on_eq_iff [OF this(1) assms(3) v(1)] inj_on_eq_iff [OF this(2) assms(3) v(1)]
  show ?thesis using v(2) by simp
qed

lemma filter_cells:
  assumes "indexed keyof m l" "mget m k = Some e"
  shows "map snd (filter (\<lambda>c. fst c \<noteq> e) (cells l)) = filter (\<lambda>v. keyof v \<noteq> k) (entries_of l)"
proof -
  have "filter (\<lambda>c. fst c \<noteq> e) (cells l) = filter (\<lambda>c. keyof (snd c) \<noteq> k) (cells l)"
    using same_cell [OF assms] by (intro filter_cong) auto
  then show ?thesis by (simp add: entries_of_def filter_map comp_def)
qed

lemma indexed_Remove:
  assumes ix: "indexed keyof m l" and k: "mget m k = Some e"
  shows "indexed keyof (mdel k m) (list_Remove e l)"
    "entries_of (list_Remove e l) = filter (\<lambda>v. keyof v \<noteq> k) (entries_of l)"
proof -
  show "entries_of (list_Remove e l) = filter (\<lambda>v. keyof v \<noteq> k) (entries_of l)"
    using filter_cells [OF assms] by (simp add: list_Remove_def entries_of_def)
  have "mget (mdel k m) k' = Some e' \<longleftrightarrow> (\<exists>v. (e', v) \<in> set (cells l) \<and> e' \<noteq> e \<and> keyof v = k')" for k' e'
    using same_cell [OF assms, of "(e', _)"] indexedD(5) [OF ix, of k' e'] by (auto simp: dict_simps)
  then show "indexed keyof (mdel k m) (list_Remove e l)"
    using indexedD(1-4) [OF ix] by (auto simp: indexed_def list_Remove_def dict_simps distinct_map_filter)
qed

lemma indexed_MoveToFront:
  assumes ix: "indexed keyof m l" and k: "mget m k = Some e" and v: "elem_Value l e = Some v"
  shows "indexed keyof m (MoveToFront e l)"
    "entries_of (MoveToFront e l) = v # filter (\<lambda>v. keyof v \<noteq> k) (entries_of l)"
    "elem_Value (MoveToFront e l) e = Some v"
proof -
  have mem: "(e, v) \<in> set (cells l)" and kv: "keyof v = k"
    using v ix k same_cell [OF ix k, of "(e, v)"] by (simp_all add: elem_Value_iff)
  show "entries_of (MoveToFront e l) = v # filter (\<lambda>v. keyof v \<noteq> k) (entries_of l)"
    using filter_cells [OF ix k] v by (simp add: MoveToFront_def entries_of_def)
  show "elem_Value (MoveToFront e l) e = Some v" using v by (simp add: MoveToFront_def elem_Value_def)
  have st: "set ((e, v) # filter (\<lambda>c. fst c \<noteq> e) (cells l)) = set (cells l)"
    using mem eq_key_imp_eq_value [OF indexedD(2) [OF ix]] by auto
  have "keyof v \<noteq> keyof w" if "(e', w) \<in> set (cells l)" "e' \<noteq> e" for e' w
    using same_cell [OF ix k that(1)] that(2) kv by auto
  then have "distinct (map (keyof \<circ> snd) ((e, v) # filter (\<lambda>c. fst c \<noteq> e) (cells l)))"
    using indexedD(4) [OF ix] by (fastforce simp: distinct_map_filter)
  moreover have "distinct (map fst ((e, v) # filter (\<lambda>c. fst c \<noteq> e) (cells l)))"
    using indexedD(2) [OF ix] by (auto simp: distinct_map_filter)
  ultimately show "indexed keyof m (MoveToFront e l)"
    using ix v st unfolding indexed_def MoveToFront_def by simp
qed

lemma indexed_set_Value:
  assumes ix: "indexed keyof m l" and k: "mget m k = Some e" and w: "keyof w = k"
  shows "indexed keyof m (set_Value e w l)"
    "entries_of (set_Value e w l) = map (\<lambda>v. if keyof v = k then w else v) (entries_of l)"
proof -
  let ?f = "\<lambda>c. if fst c = e then (e, w) else c"
  have fstf: "map fst (map ?f (cells l)) = map fst (cells l)" by simp
  have keyf: "map (keyof \<circ> snd) (map ?f (cells l)) = map (keyof \<circ> snd) (cells l)"
    using same_cell [OF ix k] w by auto
  have cs: "cells (set_Value e w l) = map ?f (cells l)" "fresh (set_Value e w l) = fresh l"
    by (simp_all add: set_Value_def)
  have pairs: "map (\<lambda>c. (fst c, keyof (snd c))) (map ?f (cells l)) = map (\<lambda>c. (fst c, keyof (snd c))) (cells l)"
    using same_cell [OF ix k] w by auto
  have mem: "(\<exists>v. (e', v) \<in> set cs \<and> keyof v = k') \<longleftrightarrow> (e', k') \<in> set (map (\<lambda>c. (fst c, keyof (snd c))) cs)" for e' k' cs
    by force
  show "indexed keyof m (set_Value e w l)"
    using ix by (simp only: indexed_def cs set_map [symmetric] mem fstf keyf pairs) blast
  show "entries_of (set_Value e w l) = map (\<lambda>v. if keyof v = k then w else v) (entries_of l)"
    using same_cell [OF ix k] by (auto simp: set_Value_def entries_of_def)
qed

lemma indexed_PushFront:
  assumes ix: "indexed keyof m l" and k: "mget m (keyof v) = None" and p: "PushFront v l = (e, l')"
  shows "indexed keyof (mput (keyof v) e m) l'" "entries_of l' = v # entries_of l"
proof -
  have l': "cells l' = (e, v) # cells l" "fresh l' = Suc e" "e = fresh l"
    using p by (auto simp: PushFront_def)
  show "entries_of l' = v # entries_of l" by (simp add: entries_of_def l')
  have new: "e \<notin> fst ` set (cells l)" using indexedD(3) [OF ix, of e] l'(3) by auto
  have nk: "keyof v \<notin> (keyof \<circ> snd) ` set (cells l)"
    using k indexed_none [OF ix] by (auto simp: entries_of_def)
  show "indexed keyof (mput (keyof v) e m) l'"
    unfolding indexed_def l'(1,2)
  proof (intro conjI)
    show "wf_map (mput (keyof v) e m)" using indexedD(1) [OF ix] by (simp add: dict_simps)
    show "\<forall>k e'. mget (mput (keyof v) e m) k = Some e' \<longleftrightarrow> (\<exists>w. (e', w) \<in> set ((e, v) # cells l) \<and> keyof w = k)"
    proof (intro allI)
      fix k e'
      show "mget (mput (keyof v) e m) k = Some e' \<longleftrightarrow> (\<exists>w. (e', w) \<in> set ((e, v) # cells l) \<and> keyof w = k)"
        using indexedD(5) [OF ix, of k e'] nk by (cases "k = keyof v") (auto simp: dict_simps image_iff)
    qed
  qed (use ix new nk l'(3) in \<open>auto simp: indexed_def dest: less_SucI\<close>)
qed

lemma indexed_Back:
  assumes ix: "indexed keyof m l" and b: "Back l = Some (e, v)"
  shows "mget m (keyof v) = Some e" "entries_of l \<noteq> []"
    "filter (\<lambda>w. keyof w \<noteq> keyof v) (entries_of l) = butlast (entries_of l)"
proof -
  obtain cs where c: "cells l = cs @ [(e, v)]"
    using b by (cases "cells l" rule: rev_cases) (auto simp: Back_def)
  show "mget m (keyof v) = Some e" using indexedD(5) [OF ix] c by auto
  show "entries_of l \<noteq> []" using c by (simp add: entries_of_def)
  have "keyof w \<noteq> keyof v" if "w \<in> snd ` set cs" for w
    using indexedD(4) [OF ix] c that by (force simp: image_iff)
  then show "filter (\<lambda>w. keyof w \<noteq> keyof v) (entries_of l) = butlast (entries_of l)"
    by (simp add: c entries_of_def butlast_append)
qed

lemma Back_None: "Back l = None \<longleftrightarrow> entries_of l = []"
  by (simp add: Back_def entries_of_def)

lemma indexed_size:
  assumes ix: "indexed keyof m l"
  shows "length m = list_Len l"
proof -
  have "k \<notin> fst ` set m \<longleftrightarrow> k \<notin> keyof ` set (entries_of l)" for k
    using indexed_none [OF ix, of k] by (simp add: mget_def map_of_eq_None_iff)
  then have "fst ` set m = keyof ` set (entries_of l)" by blast
  then show ?thesis
    using distinct_card [of "map fst m"] distinct_card [OF indexed_distinct [OF ix]] indexedD(1) [OF ix]
    by (simp add: wf_map_def)
qed

end
