(* ===== verification/Dht_Routing.thy ===== *)
theory Dht_Routing
  imports Dht_Node Container_Heap Container_List
begin

text \<open>
  The routing table, \<^verbatim>\<open>dht/routing.go\<close>: the lookup cache, the k-buckets, the table of 256 buckets, the search for
  the closest nodes with its bounded max-heap, and the pruning of dead nodes that \<^verbatim>\<open>dht/maintenance.go\<close> does on
  the table. Nodes are shared by pointer between the buckets, the cache and the results of searches; a pointer is a
  number and the nodes are a store from pointers to nodes, so that a change of a node's status is seen through every
  pointer to it.
\<close>

unbundle bit_operations_syntax

type_synonym nptr = nat
type_synonym 'a nodes = "nptr \<Rightarrow> 'a Node"

section \<open>The lookup cache\<close>

record lookupCacheEntry =
  ekey :: key32
  enodes :: "nptr list"
  timestamp :: time

record LookupCache =
  entries :: "(key32, nat) gomap"
  order :: "lookupCacheEntry golist"
  ttl :: duration
  cmaxSize :: int
  hits :: u64
  misses :: u64
  evictions :: u64

abbreviation (input) DefaultLookupCacheTTL :: duration where "DefaultLookupCacheTTL \<equiv> 30 * 10 ^ 9"
abbreviation (input) DefaultLookupCacheMaxSize :: int where "DefaultLookupCacheMaxSize \<equiv> 256"

definition NewLookupCache :: "duration \<Rightarrow> int \<Rightarrow> LookupCache" where
  "NewLookupCache ttl0 maxSize =
     \<lparr>entries = [], order = list_New,
      ttl = (if ttl0 \<le> 0 then DefaultLookupCacheTTL else ttl0),
      cmaxSize = (if maxSize \<le> 0 then DefaultLookupCacheMaxSize else maxSize),
      hits = 0, misses = 0, evictions = 0\<rparr>"

text \<open>A nil slice is \<open>None\<close>.\<close>

definition lc_Get :: "time \<Rightarrow> key32 \<Rightarrow> LookupCache \<Rightarrow> nptr list option \<times> LookupCache" where
  "lc_Get now targetKey lc =
     (case mget (entries lc) targetKey of
        None \<Rightarrow> (None, lc\<lparr>misses := misses lc + 1\<rparr>)
      | Some elem \<Rightarrow>
          (case elem_Value (order lc) elem of
             None \<Rightarrow> (None, lc)
           | Some entry \<Rightarrow>
               if now - timestamp entry > ttl lc
               then (None, lc\<lparr>order := list_Remove elem (order lc), entries := mdel targetKey (entries lc),
                              misses := misses lc + 1\<rparr>)
               else (Some (enodes entry), lc\<lparr>order := MoveToFront elem (order lc), hits := hits lc + 1\<rparr>)))"

definition evictLRULocked :: "LookupCache \<Rightarrow> LookupCache" where
  "evictLRULocked lc =
     (case Back (order lc) of
        None \<Rightarrow> lc
      | Some (back, entry) \<Rightarrow>
          lc\<lparr>entries := mdel (ekey entry) (entries lc), order := list_Remove back (order lc),
             evictions := evictions lc + 1\<rparr>)"

definition lc_Put :: "time \<Rightarrow> key32 \<Rightarrow> nptr list \<Rightarrow> LookupCache \<Rightarrow> LookupCache" where
  "lc_Put now targetKey ns lc =
     (case mget (entries lc) targetKey of
        Some elem \<Rightarrow>
          (let l = MoveToFront elem (order lc)
           in case elem_Value l elem of
                None \<Rightarrow> lc\<lparr>order := l\<rparr>
              | Some entry \<Rightarrow> lc\<lparr>order := set_Value elem (entry\<lparr>enodes := ns, timestamp := now\<rparr>) l\<rparr>)
      | None \<Rightarrow>
          (let lc1 = (if int (list_Len (order lc)) \<ge> cmaxSize lc then evictLRULocked lc else lc);
               (elem, l) = PushFront \<lparr>ekey = targetKey, enodes = ns, timestamp = now\<rparr> (order lc1)
           in lc1\<lparr>order := l, entries := mput targetKey elem (entries lc1)\<rparr>))"

definition lc_Clear :: "LookupCache \<Rightarrow> LookupCache" where
  "lc_Clear lc = lc\<lparr>entries := [], order := list_New\<rparr>"

section \<open>K-buckets\<close>

record KBucket =
  knodes :: "nptr list"
  maxSize :: int

definition NewKBucket :: "int \<Rightarrow> KBucket" where
  "NewKBucket limit = \<lparr>knodes = [], maxSize = limit\<rparr>"

text \<open>The index at which a \<^verbatim>\<open>for\<close> loop over a slice first finds what it looks for.\<close>

fun find_index :: "('x \<Rightarrow> bool) \<Rightarrow> 'x list \<Rightarrow> nat option" where
  "find_index P [] = None"
| "find_index P (x # xs) = (if P x then Some 0 else map_option Suc (find_index P xs))"

abbreviation id_key :: "'a Node \<Rightarrow> key32" where "id_key n \<equiv> PublicKey (NodeID n)"

definition addNodeLocked :: "'a nodes \<Rightarrow> nptr \<Rightarrow> KBucket \<Rightarrow> bool \<times> KBucket" where
  "addNodeLocked H node kb =
     (case find_index (\<lambda>p. id_key (H p) = id_key (H node)) (knodes kb) of
        Some i \<Rightarrow> (True, kb\<lparr>knodes := (take i (knodes kb) @ drop (Suc i) (knodes kb)) @ [node]\<rparr>)
      | None \<Rightarrow>
          if int (length (knodes kb)) < maxSize kb then (True, kb\<lparr>knodes := knodes kb @ [node]\<rparr>)
          else (case find_index (\<lambda>p. Status (H p) = StatusBad) (knodes kb) of
                  Some i \<Rightarrow> (True, kb\<lparr>knodes := (knodes kb)[i := node]\<rparr>)
                | None \<Rightarrow> (False, kb)))"

definition kb_RemoveNode :: "'a nodes \<Rightarrow> key32 \<Rightarrow> KBucket \<Rightarrow> bool \<times> KBucket" where
  "kb_RemoveNode H publicKey kb =
     (case find_index (\<lambda>p. id_key (H p) = publicKey) (knodes kb) of
        None \<Rightarrow> (False, kb)
      | Some i \<Rightarrow>
          (let lastIndex = length (knodes kb) - 1;
               ns = (if i \<noteq> lastIndex then (knodes kb)[i := knodes kb ! lastIndex] else knodes kb)
           in (True, kb\<lparr>knodes := take lastIndex ns\<rparr>)))"

section \<open>The routing table\<close>

record RoutingTable =
  kBuckets :: "KBucket list"
  selfID :: ToxID
  maxNodes :: int
  lookupCache :: "LookupCache option"

definition NewRoutingTable :: "ToxID \<Rightarrow> int \<Rightarrow> RoutingTable" where
  "NewRoutingTable self maxBucketSize =
     \<lparr>kBuckets = map (\<lambda>i. NewKBucket maxBucketSize) [0..<256], selfID = self, maxNodes = maxBucketSize * 256,
      lookupCache = Some (NewLookupCache DefaultLookupCacheTTL DefaultLookupCacheMaxSize)\<rparr>"

definition ClearLookupCache :: "RoutingTable \<Rightarrow> RoutingTable" where
  "ClearLookupCache rt = rt\<lparr>lookupCache := map_option lc_Clear (lookupCache rt)\<rparr>"

definition addNodeWithFn ::
  "'a nodes \<Rightarrow> nptr \<Rightarrow> (nat \<Rightarrow> RoutingTable \<Rightarrow> bool \<times> RoutingTable) \<Rightarrow> RoutingTable \<Rightarrow> bool \<times> RoutingTable" where
  "addNodeWithFn H node addFn rt =
     (if id_key (H node) = PublicKey (selfID rt) then (False, rt)
      else let bucketIndex = computeBucketIndex (selfID rt) (H node);
               (added, rt1) = addFn bucketIndex rt
           in if added then (added, ClearLookupCache rt1) else (added, rt1))"

definition AddNode :: "'a nodes \<Rightarrow> nptr \<Rightarrow> RoutingTable \<Rightarrow> bool \<times> RoutingTable" where
  "AddNode H node rt =
     addNodeWithFn H node
       (\<lambda>bucketIndex rt. let (added, kb) = addNodeLocked H node (kBuckets rt ! bucketIndex)
                         in (added, rt\<lparr>kBuckets := (kBuckets rt)[bucketIndex := kb]\<rparr>)) rt"

definition GetAllNodes :: "RoutingTable \<Rightarrow> nptr list" where
  "GetAllNodes rt = concat (map knodes (kBuckets rt))"

section \<open>Finding the closest nodes\<close>

text \<open>
  The two parallel slices of the heap, nodes and distances, are changed together; a cell is the pair. \<^verbatim>\<open>Push\<close> appends
  the node with its distance to the target.
\<close>

type_synonym heap_cell = "nptr \<times> key32"

definition node_Less :: "heap_cell \<Rightarrow> heap_cell \<Rightarrow> bool" where
  "node_Less x y \<longleftrightarrow> \<not> lessDistance (snd x) (snd y)"

definition node_Push :: "'a nodes \<Rightarrow> 'a Node \<Rightarrow> nptr \<Rightarrow> heap_cell list \<Rightarrow> heap_cell list" where
  "node_Push H target node h = heap_Push node_Less (node, Distance (H node) target) h"

definition node_Pop :: "heap_cell list \<Rightarrow> nptr \<times> heap_cell list" where
  "node_Pop h = (let (c, h1) = heap_Pop node_Less h in (fst c, h1))"

definition replaceIfCloser :: "'a nodes \<Rightarrow> 'a Node \<Rightarrow> nptr \<Rightarrow> heap_cell list \<Rightarrow> heap_cell list" where
  "replaceIfCloser H target node h =
     (let dist = Distance (H node) target
      in if lessDistance dist (snd (h ! 0)) then node_Push H target node (snd (node_Pop h)) else h)"

definition addNodeToHeap :: "'a nodes \<Rightarrow> 'a Node \<Rightarrow> int \<Rightarrow> nptr \<Rightarrow> heap_cell list \<Rightarrow> heap_cell list" where
  "addNodeToHeap H target cnt node h =
     (if int (length h) < cnt then node_Push H target node h else replaceIfCloser H target node h)"

definition processNodesInBucket ::
  "'a nodes \<Rightarrow> 'a Node \<Rightarrow> int \<Rightarrow> KBucket \<Rightarrow> heap_cell list \<Rightarrow> heap_cell list" where
  "processNodesInBucket H target cnt bucket h = fold (addNodeToHeap H target cnt) (knodes bucket) h"

function expand_loop ::
  "'a nodes \<Rightarrow> RoutingTable \<Rightarrow> 'a Node \<Rightarrow> int \<Rightarrow> nat \<Rightarrow> nat \<Rightarrow> heap_cell list \<Rightarrow> heap_cell list" where
  "expand_loop H rt target cnt targetBucket offset h =
     (if offset < 256 then
        let lo = int targetBucket - int offset; hi = targetBucket + offset
        in if lo < 0 \<and> hi \<ge> 256 then h
           else let h1 = (if lo \<ge> 0 then processNodesInBucket H target cnt (kBuckets rt ! nat lo) h else h);
                    h2 = (if hi < 256 then processNodesInBucket H target cnt (kBuckets rt ! hi) h1 else h1)
                in expand_loop H rt target cnt targetBucket (Suc offset) h2
      else h)"
  by pat_completeness auto
termination by (relation "measure (\<lambda>(_, _, _, _, _, offset, _). 256 - offset)") auto

declare expand_loop.simps [simp del]

definition buildNodeHeap :: "'a nodes \<Rightarrow> RoutingTable \<Rightarrow> 'a Node \<Rightarrow> int \<Rightarrow> heap_cell list" where
  "buildNodeHeap H rt target cnt =
     (let dist = bytes_key (map2 (XOR) (key_bytes (NodeKey target)) (key_bytes (PublicKey (selfID rt))));
          targetBucket = getBucketIndex dist;
          h = processNodesInBucket H target cnt (kBuckets rt ! targetBucket) []
      in expand_loop H rt target cnt targetBucket 1 h)"

text \<open>The result slice is filled from its last index down to 0.\<close>

primrec extract_loop :: "nat \<Rightarrow> heap_cell list \<Rightarrow> nptr list \<Rightarrow> nptr list" where
  "extract_loop 0 h result = result"
| "extract_loop (Suc i) h result = (let (node, h1) = node_Pop h in extract_loop i h1 (node # result))"

definition extractSortedNodes :: "heap_cell list \<Rightarrow> nptr list" where
  "extractSortedNodes h = extract_loop (length h) h []"

definition FindClosestNodesNoCache :: "'a nodes \<Rightarrow> ToxID \<Rightarrow> int \<Rightarrow> RoutingTable \<Rightarrow> nptr list" where
  "FindClosestNodesNoCache H targetID cnt rt =
     (if cnt \<le> 0 then []
      else extractSortedNodes (buildNodeHeap H rt (createTargetNode targetID) cnt))"

definition getCachedClosestNodes ::
  "time \<Rightarrow> key32 \<Rightarrow> int \<Rightarrow> RoutingTable \<Rightarrow> nptr list option \<times> RoutingTable" where
  "getCachedClosestNodes now targetKey cnt rt =
     (case lookupCache rt of
        None \<Rightarrow> (None, rt)
      | Some lc \<Rightarrow>
          (let (cached, lc1) = lc_Get now targetKey lc; rt1 = rt\<lparr>lookupCache := Some lc1\<rparr>
           in case cached of
                None \<Rightarrow> (None, rt1)
              | Some ns \<Rightarrow> (Some (if int (length ns) > cnt then take (nat cnt) ns else ns), rt1)))"

definition cacheClosestNodes :: "time \<Rightarrow> key32 \<Rightarrow> nptr list \<Rightarrow> RoutingTable \<Rightarrow> RoutingTable" where
  "cacheClosestNodes now targetKey ns rt =
     (case lookupCache rt of
        None \<Rightarrow> rt
      | Some lc \<Rightarrow> if length ns > 0 then rt\<lparr>lookupCache := Some (lc_Put now targetKey ns lc)\<rparr> else rt)"

definition FindClosestNodes ::
  "'a nodes \<Rightarrow> time \<Rightarrow> ToxID \<Rightarrow> int \<Rightarrow> RoutingTable \<Rightarrow> nptr list \<times> RoutingTable" where
  "FindClosestNodes H now targetID cnt rt =
     (if cnt \<le> 0 then ([], rt)
      else case getCachedClosestNodes now (PublicKey targetID) cnt rt of
             (Some cached, rt1) \<Rightarrow> (cached, rt1)
           | (None, rt1) \<Rightarrow>
               (let result = extractSortedNodes (buildNodeHeap H rt1 (createTargetNode targetID) cnt)
                in (result, cacheClosestNodes now (PublicKey targetID) result rt1)))"

section \<open>Pruning\<close>

definition updateNodeStatus :: "duration \<Rightarrow> time \<Rightarrow> nptr \<Rightarrow> 'a nodes \<Rightarrow> 'a nodes" where
  "updateNodeStatus NodeTimeout now node H =
     (if Status (H node) = StatusGood \<and> now - LastSeen (H node) > NodeTimeout
      then H(node := SetStatus StatusBad (H node)) else H)"

fun prune_loop ::
  "duration \<Rightarrow> duration \<Rightarrow> time \<Rightarrow> nptr list \<Rightarrow> 'a nodes \<Rightarrow> KBucket \<Rightarrow> 'a nodes \<times> KBucket" where
  "prune_loop NodeTimeout PruneTimeout now [] H bucket = (H, bucket)"
| "prune_loop NodeTimeout PruneTimeout now (node # ns) H bucket =
     (let H1 = updateNodeStatus NodeTimeout now node H
      in prune_loop NodeTimeout PruneTimeout now ns H1
           (if Status (H1 node) = StatusBad \<and> now - LastSeen (H1 node) > PruneTimeout
            then snd (kb_RemoveNode H1 (id_key (H1 node)) bucket) else bucket))"

definition pruneNodesInBucket ::
  "duration \<Rightarrow> duration \<Rightarrow> time \<Rightarrow> 'a nodes \<Rightarrow> KBucket \<Rightarrow> 'a nodes \<times> KBucket" where
  "pruneNodesInBucket NodeTimeout PruneTimeout now H bucket =
     prune_loop NodeTimeout PruneTimeout now (knodes bucket) H bucket"

definition pruneDeadNodes ::
  "duration \<Rightarrow> duration \<Rightarrow> time \<Rightarrow> 'a nodes \<times> RoutingTable \<Rightarrow> 'a nodes \<times> RoutingTable" where
  "pruneDeadNodes NodeTimeout PruneTimeout now =
     fold (\<lambda>i (H, rt). let (H1, kb) = pruneNodesInBucket NodeTimeout PruneTimeout now H (kBuckets rt ! i)
                       in (H1, rt\<lparr>kBuckets := (kBuckets rt)[i := kb]\<rparr>)) [0..<256]"

definition collectInactiveNodes :: "duration \<Rightarrow> time \<Rightarrow> 'a nodes \<Rightarrow> RoutingTable \<Rightarrow> nptr list" where
  "collectInactiveNodes NodeTimeout now H rt =
     filter (\<lambda>p. \<not> IsActive now (go_quot NodeTimeout 2) (H p)) (GetAllNodes rt)"

end
