(* ===== verification/Dht_Table.thy ===== *)
theory Dht_Table
  imports Dht_Closest
begin

text \<open>
  What holds of the routing table as it is used: its invariant in every state that additions, searches, status
  changes and pruning reach, what pruning removes, and when the lookup cache agrees with the table.
\<close>

unbundle bit_operations_syntax

section \<open>Buckets\<close>

lemma find_index_Some:
  "find_index P xs = Some i \<Longrightarrow> i < length xs \<and> P (xs ! i)"
  by (induction xs arbitrary: i) (auto split: if_splits)

lemma find_index_None: "find_index P xs = None \<longleftrightarrow> (\<forall>x\<in>set xs. \<not> P x)"
  by (induction xs) auto

lemma mset_without: "i < length xs \<Longrightarrow> mset (take i xs @ drop (Suc i) xs) = mset xs - {#xs ! i#}"
  using arg_cong [OF id_take_nth_drop [of i xs], of mset] by simp

lemma mset_swap_remove:
  assumes "i < length xs"
  shows "mset (take (length xs - 1) (if i \<noteq> length xs - 1 then xs[i := xs ! (length xs - 1)] else xs)) =
    mset xs - {#xs ! i#}"
proof -
  obtain ys y where xs: "xs = ys @ [y]" using assms by (cases xs rule: rev_cases) auto
  show ?thesis
  proof (cases "i = length ys")
    case True
    then show ?thesis by (simp add: xs)
  next
    case False
    then have i: "i < length ys" using assms by (simp add: xs)
    then show ?thesis by (simp add: xs list_update_append nth_append mset_update)
  qed
qed

lemma distinct_iff_count: "distinct xs \<longleftrightarrow> (\<forall>a. count (mset xs) a \<le> 1)"
proof
  show "distinct xs \<Longrightarrow> \<forall>a. count (mset xs) a \<le> 1" by (simp add: distinct_count_atmost_1)
  show "\<forall>a. count (mset xs) a \<le> 1 \<Longrightarrow> distinct xs"
    unfolding distinct_count_atmost_1
    by (metis One_nat_def count_greater_zero_iff le_antisym less_eq_Suc_le not_gr_zero set_mset_mset)
qed

lemma distinct_submset: "distinct xs \<Longrightarrow> mset ys \<subseteq># mset xs \<Longrightarrow> distinct ys"
  unfolding distinct_iff_count subseteq_mset_def by (meson order_trans)

lemma distinct_mset_remove: "distinct xs \<Longrightarrow> mset ys = mset xs - {#x#} \<Longrightarrow> x \<notin> set ys"
proof -
  assume d: "distinct xs" and "mset ys = mset xs - {#x#}"
  then have "mset ys = mset (remove1 x xs)" by simp
  then have "set ys = set (remove1 x xs)" by (rule mset_eq_setD)
  then show ?thesis using d by simp
qed

definition node_ok :: "'a nodes \<Rightarrow> ToxID \<Rightarrow> nat \<Rightarrow> nptr \<Rightarrow> bool" where
  "node_ok H self i p \<longleftrightarrow>
     id_key (H p) = NodeKey (H p) \<and> NodeKey (H p) \<noteq> PublicKey self \<and> computeBucketIndex self (H p) = i"

lemma bucket_ok_iff:
  "bucket_ok H self i kb \<longleftrightarrow>
     int (length (knodes kb)) \<le> maxSize kb \<and> distinct (map (\<lambda>p. NodeKey (H p)) (knodes kb)) \<and>
     (\<forall>p\<in>set (knodes kb). node_ok H self i p)"
  by (simp add: bucket_ok_def node_ok_def)

lemma bucket_ok_subset:
  assumes "bucket_ok H self i kb" "mset ns \<subseteq># mset (knodes kb)"
  shows "bucket_ok H self i (kb\<lparr>knodes := ns\<rparr>)"
proof -
  have "length ns \<le> length (knodes kb)" using size_mset_mono [OF assms(2)] by simp
  moreover have "set ns \<subseteq> set (knodes kb)" using set_mset_mono [OF assms(2)] by simp
  moreover have "distinct (map (\<lambda>p. NodeKey (H p)) ns)"
  proof -
    let ?f = "image_mset (\<lambda>p. NodeKey (H p))"
    have "?f (mset ns) \<subseteq># ?f (mset (knodes kb))" using assms(2) by (rule image_mset_subseteq_mono)
    moreover have "distinct (map (\<lambda>p. NodeKey (H p)) (knodes kb))" using assms(1) by (simp add: bucket_ok_def)
    ultimately show ?thesis 
      using distinct_submset [of "map (\<lambda>p. NodeKey (H p)) (knodes kb)" "map (\<lambda>p. NodeKey (H p)) ns"] by simp
  qed
  ultimately show ?thesis using assms(1) by (auto simp: bucket_ok_def)
qed

lemma addNodeLocked_ok:
  assumes ok: "bucket_ok H self i kb" and n: "node_ok H self i p"
  shows "bucket_ok H self i (snd (addNodeLocked H p kb))"
proof -
  let ?k = "\<lambda>p. NodeKey (H p)" and ?ns = "knodes kb"
  have ids: "id_key (H q) = ?k q" if "q \<in> set ?ns" for q using ok that by (simp add: bucket_ok_def)
  have idp: "id_key (H p) = ?k p" using n by (simp add: node_ok_def)
  show ?thesis
  proof (cases "find_index (\<lambda>q. id_key (H q) = id_key (H p)) ?ns")
    case (Some j)
    then have j: "j < length ?ns" "?k (?ns ! j) = ?k p"
      using find_index_Some [OF Some] ids idp by auto
    let ?r = "take j ?ns @ drop (Suc j) ?ns"
    have m: "mset (map ?k ?r) = mset (map ?k ?ns) - {#?k p#}"
      using arg_cong [OF mset_without [OF j(1)], of "image_mset ?k"] j
      by (simp add: image_mset_Diff)
    have d: "distinct (map ?k ?ns)" using ok by (simp add: bucket_ok_def)
    have "distinct (map ?k ?r)" using distinct_submset [OF d] m by (metis diff_subset_eq_self)
    moreover have "?k p \<notin> set (map ?k ?r)" by (rule distinct_mset_remove [OF d m])
    ultimately have "distinct (map ?k (?r @ [p]))" by simp
    then show ?thesis
      using Some ok n j(1) by (auto simp: addNodeLocked_def bucket_ok_iff dest: in_set_takeD in_set_dropD)
  next
    case None
    then have new: "?k p \<notin> ?k ` set ?ns" using ids idp by (auto simp: find_index_None)
    show ?thesis
    proof (cases "int (length ?ns) < maxSize kb")
      case True
      then show ?thesis using None ok n new by (auto simp: addNodeLocked_def bucket_ok_iff)
    next
      case False
      show ?thesis
      proof (cases "find_index (\<lambda>q. Status (H q) = StatusBad) ?ns")
        case (Some j)
        have "distinct (map ?k (?ns[j := p]))"
          using ok new by (auto simp: map_update bucket_ok_def intro!: distinct_list_update)
        then show ?thesis using None False Some ok n set_update_subset_insert [of ?ns j p]
          by (auto simp: addNodeLocked_def bucket_ok_iff)
      qed (use None False ok in \<open>simp add: addNodeLocked_def\<close>)
    qed
  qed
qed

lemma filter_mset_key:
  "distinct (map f xs) \<Longrightarrow> x \<in> set xs \<Longrightarrow> filter_mset (\<lambda>p. f p \<noteq> f x) (mset xs) = mset xs - {#x#}"
proof (induction xs)
  case (Cons y xs)
  show ?case
  proof (cases "y = x")
    case True
    then have "filter_mset (\<lambda>p. f p \<noteq> f x) (mset xs) = mset xs"
      using Cons.prems(1) by (force simp: filter_mset_eq_conv image_iff)
    then show ?thesis using True by simp
  next
    case False
    then have "x \<in> set xs" "f y \<noteq> f x" using Cons.prems by auto
    moreover have "distinct (map f xs)" using Cons.prems(1) by simp
    ultimately show ?thesis using Cons.IH diff_union_swap [of x y "mset xs"] False by simp
  qed
qed simp

lemma kb_RemoveNode_mset:
  assumes "bucket_ok H self i kb"
  shows "mset (knodes (snd (kb_RemoveNode H k kb))) = filter_mset (\<lambda>p. NodeKey (H p) \<noteq> k) (mset (knodes kb))"
    "maxSize (snd (kb_RemoveNode H k kb)) = maxSize kb"
proof -
  have ids: "id_key (H p) = NodeKey (H p)" if "p \<in> set (knodes kb)" for p using assms that by (simp add: bucket_ok_def)
  have d: "distinct (map (\<lambda>p. NodeKey (H p)) (knodes kb))" using assms by (simp add: bucket_ok_def)
  show "maxSize (snd (kb_RemoveNode H k kb)) = maxSize kb"
    by (simp add: kb_RemoveNode_def Let_def split: option.splits)
  show "mset (knodes (snd (kb_RemoveNode H k kb))) = filter_mset (\<lambda>p. NodeKey (H p) \<noteq> k) (mset (knodes kb))"
  proof (cases "find_index (\<lambda>p. id_key (H p) = k) (knodes kb)")
    case None
    then have "filter_mset (\<lambda>p. NodeKey (H p) \<noteq> k) (mset (knodes kb)) = mset (knodes kb)"
      using ids by (simp add: find_index_None filter_mset_eq_conv)
    then show ?thesis using None by (simp add: kb_RemoveNode_def)
  next
    case (Some j)
    then have j: "j < length (knodes kb)" "NodeKey (H (knodes kb ! j)) = k"
      using find_index_Some [OF Some] ids by auto
    have "mset (knodes (snd (kb_RemoveNode H k kb))) = mset (knodes kb) - {#knodes kb ! j#}"
      using mset_swap_remove [OF j(1)] Some by (simp add: kb_RemoveNode_def Let_def split: if_splits)
    also have "\<dots> = filter_mset (\<lambda>p. NodeKey (H p) \<noteq> k) (mset (knodes kb))"
      using filter_mset_key [OF d, of "knodes kb ! j"] j by simp
    finally show ?thesis .
  qed
qed

lemma bucket_ok_RemoveNode:
  assumes "bucket_ok H self i kb"
  shows "bucket_ok H self i (snd (kb_RemoveNode H k kb))"
proof -
  have "snd (kb_RemoveNode H k kb) = kb\<lparr>knodes := knodes (snd (kb_RemoveNode H k kb))\<rparr>"
    using kb_RemoveNode_mset(2) [OF assms, of k] by (cases kb; cases "snd (kb_RemoveNode H k kb)") simp
  then show ?thesis using bucket_ok_subset [OF assms] kb_RemoveNode_mset(1) [OF assms] by (metis multiset_filter_subset)
qed

section \<open>Status changes and pruning\<close>

definition same_ids :: "'a nodes \<Rightarrow> 'a nodes \<Rightarrow> bool" where
  "same_ids H H' \<longleftrightarrow> (\<forall>p. NodeID (H' p) = NodeID (H p) \<and> NodeKey (H' p) = NodeKey (H p))"

lemma same_ids_refl [simp]: "same_ids H H"
  by (simp add: same_ids_def)

lemma same_ids_trans [trans]: "same_ids H H1 \<Longrightarrow> same_ids H1 H2 \<Longrightarrow> same_ids H H2"
  by (simp add: same_ids_def)

lemma bucket_ok_same: "same_ids H H' \<Longrightarrow> bucket_ok H' self i kb = bucket_ok H self i kb"
  by (simp add: same_ids_def bucket_ok_def bucket_of_key)

lemma same_ids_ops:
  "same_ids H (H(p := Update now st (H p)))"
  "same_ids H (H(p := RecordPingSent now (H p)))"
  "same_ids H (H(p := RecordPingResponse now ok (H p)))"
  "same_ids H (updateNodeStatus nt now q H)"
  by (simp_all add: same_ids_def Update_def RecordPingSent_def RecordPingResponse_def Let_def updateNodeStatus_def
      SetStatus_def)

text \<open>The nodes that pruning takes for dead.\<close>

definition dead :: "duration \<Rightarrow> duration \<Rightarrow> time \<Rightarrow> 'a Node \<Rightarrow> bool" where
  "dead NodeTimeout PruneTimeout now n \<longleftrightarrow>
     (Status n = StatusBad \<or> Status n = StatusGood \<and> now - LastSeen n > NodeTimeout) \<and>
     now - LastSeen n > PruneTimeout"

lemma dead_updateNodeStatus:
  "dead nt pt now (updateNodeStatus nt now q H p) = dead nt pt now (H p)"
  "Status (updateNodeStatus nt now p H p) = StatusBad \<and> now - LastSeen (updateNodeStatus nt now p H p) > pt \<longleftrightarrow>
     dead nt pt now (H p)"
  by (auto simp: dead_def updateNodeStatus_def SetStatus_def)

lemma prune_loop_effect:
  assumes "bucket_ok H self i kb" "inj_on (\<lambda>p. NodeKey (H p)) (set ns \<union> set (knodes kb))"
    "\<And>p. p \<in> set ns \<Longrightarrow> id_key (H p) = NodeKey (H p)"
    and "prune_loop nt pt now ns H kb = (H', kb')"
  shows "mset (knodes kb') = filter_mset (\<lambda>p. p \<in> set ns \<longrightarrow> \<not> dead nt pt now (H p)) (mset (knodes kb)) \<and>
    same_ids H H' \<and> bucket_ok H' self i kb' \<and> (\<forall>p. dead nt pt now (H' p) = dead nt pt now (H p))"
  using assms
proof (induction ns arbitrary: H kb)
  case (Cons q ns)
  let ?H = "updateNodeStatus nt now q H"
  let ?kb = "if dead nt pt now (H q) then snd (kb_RemoveNode ?H (id_key (?H q)) kb) else kb"
  have same: "same_ids H ?H" by (rule same_ids_ops)
  have keys: "NodeKey (?H p) = NodeKey (H p)" "id_key (?H p) = id_key (H p)" for p
    using same by (simp_all add: same_ids_def)
  have ok: "bucket_ok ?H self i kb" using Cons.prems(1) bucket_ok_same [OF same] by simp
  have idq: "id_key (H q) = NodeKey (H q)" using Cons.prems(3) by simp
  have m: "mset (knodes ?kb) = filter_mset (\<lambda>p. p = q \<longrightarrow> \<not> dead nt pt now (H q)) (mset (knodes kb))"
  proof (cases "dead nt pt now (H q)")
    case True
    have "NodeKey (H p) = NodeKey (H q) \<longleftrightarrow> p = q" if "p \<in> set (knodes kb)" for p
      using Cons.prems(2) that by (auto simp: inj_on_def)
    then have "filter_mset (\<lambda>p. NodeKey (H p) \<noteq> NodeKey (H q)) (mset (knodes kb)) =
        filter_mset (\<lambda>p. p \<noteq> q) (mset (knodes kb))"
      by (intro filter_mset_cong) auto
    then show ?thesis using True kb_RemoveNode_mset(1) [OF ok, of "id_key (?H q)"] by (simp add: keys idq)
  qed (simp add: filter_mset_True)
  have sub: "set (knodes ?kb) \<subseteq> set (knodes kb)" using arg_cong [OF m, of set_mset] by auto
  have step: "prune_loop nt pt now ns ?H ?kb = (H', kb')"
    using Cons.prems(4) by (simp add: Let_def dead_updateNodeStatus(2))
  have "mset (knodes kb') = filter_mset (\<lambda>p. p \<in> set ns \<longrightarrow> \<not> dead nt pt now (?H p)) (mset (knodes ?kb)) \<and>
    same_ids ?H H' \<and> bucket_ok H' self i kb' \<and> (\<forall>p. dead nt pt now (H' p) = dead nt pt now (?H p))"
  proof (rule Cons.IH [OF _ _ _ step])
    show "bucket_ok ?H self i ?kb" using ok bucket_ok_RemoveNode [OF ok] by simp
    show "inj_on (\<lambda>p. NodeKey (?H p)) (set ns \<union> set (knodes ?kb))"
      unfolding keys by (rule inj_on_subset [OF Cons.prems(2)]) (use sub in \<open>auto simp: keys\<close>)
    show "id_key (?H p) = NodeKey (?H p)" if "p \<in> set ns" for p using Cons.prems(3) that by (simp add: keys)
  qed
  then show ?case
    using same by (auto simp: m dead_updateNodeStatus filter_filter_mset intro: same_ids_trans filter_mset_cong)
qed (simp add: filter_mset_True)

lemma rt_inv_bucket: "rt_inv H rt \<Longrightarrow> i < 256 \<Longrightarrow> bucket_ok H (selfID rt) i (kBuckets rt ! i)"
  by (simp add: rt_inv_def)

lemma rt_inv_same: "same_ids H H' \<Longrightarrow> rt_inv H' rt = rt_inv H rt"
  by (simp add: rt_inv_def bucket_ok_same)

lemma prune_bucket_effect:
  assumes "bucket_ok H self i kb" "pruneNodesInBucket nt pt now H kb = (H', kb')"
  shows "mset (knodes kb') = filter_mset (\<lambda>p. \<not> dead nt pt now (H p)) (mset (knodes kb))"
    "same_ids H H'" "bucket_ok H' self i kb'" "dead nt pt now (H' p) = dead nt pt now (H p)"
proof -
  have "inj_on (\<lambda>p. NodeKey (H p)) (set (knodes kb) \<union> set (knodes kb))"
    using assms(1) by (simp add: bucket_ok_def distinct_map)
  then have e: "mset (knodes kb') = filter_mset (\<lambda>p. p \<in> set (knodes kb) \<longrightarrow> \<not> dead nt pt now (H p)) (mset (knodes kb)) \<and>
      same_ids H H' \<and> bucket_ok H' self i kb' \<and> (\<forall>p. dead nt pt now (H' p) = dead nt pt now (H p))"
    using assms by (intro prune_loop_effect) (auto simp: bucket_ok_def pruneNodesInBucket_def)
  then show "same_ids H H'" "bucket_ok H' self i kb'" "dead nt pt now (H' p) = dead nt pt now (H p)" by simp_all
  show "mset (knodes kb') = filter_mset (\<lambda>p. \<not> dead nt pt now (H p)) (mset (knodes kb))"
    using e by (auto intro: filter_mset_cong)
qed

definition prune_step :: "duration \<Rightarrow> duration \<Rightarrow> time \<Rightarrow> nat \<Rightarrow> 'a nodes \<times> RoutingTable \<Rightarrow> 'a nodes \<times> RoutingTable" where
  "prune_step nt pt now i = (\<lambda>(H, rt). let (H1, kb) = pruneNodesInBucket nt pt now H (kBuckets rt ! i)
     in (H1, rt\<lparr>kBuckets := (kBuckets rt)[i := kb]\<rparr>))"

lemma prune_steps_effect:
  assumes inv: "rt_inv H rt" and n: "n \<le> 256"
    and "fold (prune_step nt pt now) [0..<n] (H, rt) = (H', rt')"
  shows "rt_inv H' rt' \<and> same_ids H H' \<and> (\<forall>p. dead nt pt now (H' p) = dead nt pt now (H p)) \<and>
    selfID rt' = selfID rt \<and> lookupCache rt' = lookupCache rt \<and> length (kBuckets rt') = length (kBuckets rt) \<and>
    (\<forall>i<n. mset (bucket_nodes rt' i) = filter_mset (\<lambda>p. \<not> dead nt pt now (H p)) (mset (bucket_nodes rt i))) \<and>
    (\<forall>i\<ge>n. kBuckets rt' ! i = kBuckets rt ! i)"
  using n assms(3)
proof (induction n arbitrary: H' rt')
  case 0
  then show ?case using inv by simp
next
  case (Suc n)
  obtain H1 rt1 where f: "fold (prune_step nt pt now) [0..<n] (H, rt) = (H1, rt1)"
    by (cases "fold (prune_step nt pt now) [0..<n] (H, rt)")
  have ih: "rt_inv H1 rt1" "same_ids H H1" "\<And>p. dead nt pt now (H1 p) = dead nt pt now (H p)"
      "selfID rt1 = selfID rt" "lookupCache rt1 = lookupCache rt" "length (kBuckets rt1) = length (kBuckets rt)"
      "\<And>i. i < n \<Longrightarrow> mset (bucket_nodes rt1 i) = filter_mset (\<lambda>p. \<not> dead nt pt now (H p)) (mset (bucket_nodes rt i))"
      "\<And>i. n \<le> i \<Longrightarrow> kBuckets rt1 ! i = kBuckets rt ! i"
    using Suc.IH [OF _ f] Suc.prems(1) by simp_all
  obtain kb where p: "pruneNodesInBucket nt pt now H1 (kBuckets rt1 ! n) = (H', kb)"
      and rt': "rt' = rt1\<lparr>kBuckets := (kBuckets rt1)[n := kb]\<rparr>"
  proof -
    have "prune_step nt pt now n (H1, rt1) = (H', rt')" using Suc.prems(2) f by simp
    then show ?thesis using that by (auto simp: prune_step_def split: prod.splits)
  qed
  have ok: "bucket_ok H1 (selfID rt1) n (kBuckets rt1 ! n)" using ih(1) Suc.prems(1) by (simp add: rt_inv_def)
  note e = prune_bucket_effect [OF ok p]
  have l: "n < length (kBuckets rt1)" using ih(1) Suc.prems(1) by (simp add: rt_inv_def)
  have "rt_inv H' rt'"
    using ih(1) e(3) l by (auto simp: rt_inv_def rt' nth_list_update bucket_ok_same [OF e(2)])
  moreover have "mset (bucket_nodes rt' i) = filter_mset (\<lambda>p. \<not> dead nt pt now (H p)) (mset (bucket_nodes rt i))"
    if "i < Suc n" for i
    using that ih(3,7,8) l e(1) by (cases "i = n") (simp_all add: rt')
  ultimately show ?case
    using ih same_ids_trans [OF ih(2) e(2)] e(4) by (simp add: rt')
qed

lemma filter_concat_mset:
  "(\<And>x. x \<in> set xs \<Longrightarrow> mset (f x) = filter_mset P (mset (g x))) \<Longrightarrow>
     mset (concat (map f xs)) = filter_mset P (mset (concat (map g xs)))"
  by (induction xs) simp_all

lemma pruneDeadNodes_effect:
  assumes inv: "rt_inv H rt" and p: "pruneDeadNodes nt pt now (H, rt) = (H', rt')"
  shows "rt_inv H' rt'" "same_ids H H'" "selfID rt' = selfID rt" "lookupCache rt' = lookupCache rt"
    "mset (GetAllNodes rt') = filter_mset (\<lambda>p. \<not> dead nt pt now (H p)) (mset (GetAllNodes rt))"
proof -
  have "fold (prune_step nt pt now) [0..<256] (H, rt) = (H', rt')"
    using p unfolding pruneDeadNodes_def prune_step_def .
  note e = prune_steps_effect [OF inv order_refl this]
  then show "rt_inv H' rt'" "same_ids H H'" "selfID rt' = selfID rt" "lookupCache rt' = lookupCache rt" by blast+
  have l: "length (kBuckets rt') = length (kBuckets rt)" "length (kBuckets rt) = 256"
    using e inv by (simp_all only: rt_inv_def)
  show "mset (GetAllNodes rt') = filter_mset (\<lambda>p. \<not> dead nt pt now (H p)) (mset (GetAllNodes rt))"
    unfolding GetAllNodes_nth l(1)
    by (rule filter_concat_mset) (use e l(2) in \<open>simp only: set_upt atLeastLessThan_iff\<close>)
qed

section \<open>Additions\<close>

lemma lookupCache_update [simp]:
  "rt_inv H (rt\<lparr>lookupCache := c\<rparr>) = rt_inv H rt" "GetAllNodes (rt\<lparr>lookupCache := c\<rparr>) = GetAllNodes rt"
  by (simp_all add: rt_inv_def GetAllNodes_def)

lemma AddNode_inv:
  assumes inv: "rt_inv H rt" and id: "id_key (H p) = NodeKey (H p)"
  shows "rt_inv H (snd (AddNode H p rt))"
proof (cases "id_key (H p) = PublicKey (selfID rt)")
  case True
  then show ?thesis using inv by (simp add: AddNode_def addNodeWithFn_def)
next
  case False
  let ?i = "computeBucketIndex (selfID rt) (H p)"
  have i: "?i < 256" by (simp add: bucket_of_key)
  have "bucket_ok H (selfID rt) ?i (snd (addNodeLocked H p (kBuckets rt ! ?i)))"
    using inv i False id by (intro addNodeLocked_ok) (auto simp: rt_inv_def node_ok_def)
  then have "rt_inv H (rt\<lparr>kBuckets := (kBuckets rt)[?i := snd (addNodeLocked H p (kBuckets rt ! ?i))]\<rparr>)"
    using inv i by (auto simp: rt_inv_def nth_list_update)
  then show ?thesis
    using False by (auto simp: AddNode_def addNodeWithFn_def ClearLookupCache_def Let_def split: prod.splits)
qed

section \<open>The cache is a least-recently-used list\<close>

abbreviation cached :: "LookupCache \<Rightarrow> lookupCacheEntry list" where
  "cached lc \<equiv> entries_of (order lc)"

definition cache_inv :: "LookupCache \<Rightarrow> bool" where
  "cache_inv lc \<longleftrightarrow> indexed ekey (entries lc) (order lc) \<and> int (list_Len (order lc)) \<le> cmaxSize lc \<and> 0 < cmaxSize lc"

lemma cache_inv_New: "cache_inv (NewLookupCache t n)" "cached (NewLookupCache t n) = []"
  by (simp_all add: cache_inv_def NewLookupCache_def indexed_New)

lemma cache_inv_Clear: "cache_inv lc \<Longrightarrow> cache_inv (lc_Clear lc)" "cached (lc_Clear lc) = []"
  by (simp_all add: cache_inv_def lc_Clear_def indexed_New)

lemma length_filter_node:
  assumes "distinct (map f xs)" "x \<in> set xs"
  shows "Suc (length (filter (\<lambda>y. f y \<noteq> f x) xs)) = length xs"
proof -
  have "mset (filter (\<lambda>y. f y \<noteq> f x) xs) = mset (remove1 x xs)" using filter_mset_key [OF assms] by simp
  then have "length (filter (\<lambda>y. f y \<noteq> f x) xs) = length (remove1 x xs)" by (rule mset_eq_length)
  then show ?thesis using assms(2) length_pos_if_in_set [OF assms(2)] by (simp add: length_remove1)
qed

lemma lc_Get_miss:
  assumes "cache_inv lc" "k \<notin> ekey ` set (cached lc)"
  shows "lc_Get now k lc = (None, lc\<lparr>misses := misses lc + 1\<rparr>)"
  using assms indexed_none [of ekey "entries lc" "order lc" k] by (simp add: lc_Get_def cache_inv_def)

lemma lc_Get_entry:
  assumes inv: "cache_inv lc" and e: "e \<in> set (cached lc)" and g: "lc_Get now (ekey e) lc = (r, lc')"
  shows "cache_inv lc'" "ttl lc' = ttl lc"
    "r = (if now - timestamp e > ttl lc then None else Some (enodes e))"
    "cached lc' = (if now - timestamp e > ttl lc then [] else [e]) @ filter (\<lambda>x. ekey x \<noteq> ekey e) (cached lc)"
proof -
  have ix: "indexed ekey (entries lc) (order lc)" using inv by (simp add: cache_inv_def)
  obtain c where c: "mget (entries lc) (ekey e) = Some c"
    using indexed_none [OF ix, of "ekey e"] e by (cases "mget (entries lc) (ekey e)") auto
  obtain v where v: "elem_Value (order lc) c = Some v" "ekey v = ekey e" "v \<in> set (cached lc)"
    using indexed_lookup [OF ix c] by blast
  have "v = e" using inj_onD [of ekey "set (cached lc)" v e] indexed_distinct [OF ix] v e by (simp add: distinct_map)
  note v = v(1) [unfolded this]
  note rm = indexed_Remove [OF ix c] and mv = indexed_MoveToFront [OF ix c v]
  have le: "Suc (length (filter (\<lambda>x. ekey x \<noteq> ekey e) (cached lc))) = list_Len (order lc)"
    using length_filter_node [OF indexed_distinct [OF ix] e] by simp
  show "ttl lc' = ttl lc" "r = (if now - timestamp e > ttl lc then None else Some (enodes e))"
    "cached lc' = (if now - timestamp e > ttl lc then [] else [e]) @ filter (\<lambda>x. ekey x \<noteq> ekey e) (cached lc)"
    using g c v rm(2) mv(2) by (auto simp: lc_Get_def split: if_splits)
  show "cache_inv lc'"
  proof (cases "now - timestamp e > ttl lc")
    case True
    then show ?thesis
      using g c v rm inv le length_entries [of "list_Remove c (order lc)"] by (auto simp: lc_Get_def cache_inv_def)
  next
    case False
    then show ?thesis
      using g c v mv inv le length_entries [of "MoveToFront c (order lc)"] by (auto simp: lc_Get_def cache_inv_def)
  qed
qed

lemma evictLRULocked_list:
  assumes "cache_inv lc" "cached lc \<noteq> []"
  shows "indexed ekey (entries (evictLRULocked lc)) (order (evictLRULocked lc))"
    "cached (evictLRULocked lc) = butlast (cached lc)" "cmaxSize (evictLRULocked lc) = cmaxSize lc"
    "ttl (evictLRULocked lc) = ttl lc"
proof -
  have ix: "indexed ekey (entries lc) (order lc)" using assms(1) by (simp add: cache_inv_def)
  obtain c v where b: "Back (order lc) = Some (c, v)" using assms(2) Back_None [of "order lc"] by (cases "Back (order lc)") auto
  note bk = indexed_Back [OF ix b]
  show "indexed ekey (entries (evictLRULocked lc)) (order (evictLRULocked lc))"
    "cached (evictLRULocked lc) = butlast (cached lc)" "cmaxSize (evictLRULocked lc) = cmaxSize lc"
    "ttl (evictLRULocked lc) = ttl lc"
    using indexed_Remove [OF ix bk(1)] bk(3) b by (simp_all add: evictLRULocked_def)
qed

lemma take_push:
  "int (length xs) \<le> m \<Longrightarrow> 0 < m \<Longrightarrow>
     x # (if int (length xs) \<ge> m then butlast xs else xs) = take (nat m) (x # xs)"
  by (cases "nat m") (auto simp: butlast_conv_take)

lemma lc_Put_list:
  assumes inv: "cache_inv lc" and e_def: "e = \<lparr>ekey = k, enodes = ns, timestamp = now\<rparr>"
  shows "cache_inv (lc_Put now k ns lc)" "ttl (lc_Put now k ns lc) = ttl lc" "cmaxSize (lc_Put now k ns lc) = cmaxSize lc"
    "cached (lc_Put now k ns lc) = take (nat (cmaxSize lc)) (e # filter (\<lambda>x. ekey x \<noteq> k) (cached lc))"
proof -
  have ix: "indexed ekey (entries lc) (order lc)" using inv by (simp add: cache_inv_def)
  have e: "ekey e = k" by (simp add: e_def)
  have "cache_inv (lc_Put now k ns lc) \<and> ttl (lc_Put now k ns lc) = ttl lc \<and> cmaxSize (lc_Put now k ns lc) = cmaxSize lc \<and>
    cached (lc_Put now k ns lc) = take (nat (cmaxSize lc)) (e # filter (\<lambda>x. ekey x \<noteq> k) (cached lc))"
  proof (cases "mget (entries lc) k")
    case (Some c)
    obtain v where v: "elem_Value (order lc) c = Some v" "ekey v = k" "v \<in> set (cached lc)"
      using indexed_lookup [OF ix Some] by blast
    note mv = indexed_MoveToFront [OF ix Some v(1)]
    note st = indexed_set_Value [OF mv(1) Some e]
    have ev: "v\<lparr>enodes := ns, timestamp := now\<rparr> = e" using v(2) by (simp add: e_def)
    have lc': "lc_Put now k ns lc = lc\<lparr>order := set_Value c e (MoveToFront c (order lc))\<rparr>"
      using Some mv(3) ev by (simp add: lc_Put_def)
    have le: "Suc (length (filter (\<lambda>x. ekey x \<noteq> k) (cached lc))) = list_Len (order lc)"
      using length_filter_node [OF indexed_distinct [OF ix] v(3)] v(2) by simp
    have "map (\<lambda>x. if ekey x = k then e else x) (filter (\<lambda>x. ekey x \<noteq> k) (cached lc)) = filter (\<lambda>x. ekey x \<noteq> k) (cached lc)"
      by (rule map_idI) auto
    then have c: "cached (lc_Put now k ns lc) = e # filter (\<lambda>x. ekey x \<noteq> k) (cached lc)"
      by (simp add: lc' st(2) mv(2) v(2))
    moreover have "list_Len (order (lc_Put now k ns lc)) = list_Len (order lc)"
      using arg_cong [OF c, of length] le by simp
    moreover have "take (nat (cmaxSize lc)) (e # filter (\<lambda>x. ekey x \<noteq> k) (cached lc)) = e # filter (\<lambda>x. ekey x \<noteq> k) (cached lc)"
      by (rule take_all) (use le inv in \<open>auto simp: cache_inv_def\<close>)
    ultimately show ?thesis using st(1) inv by (simp add: lc' cache_inv_def)
  next
    case None
    define lc1 where "lc1 = (if int (list_Len (order lc)) \<ge> cmaxSize lc then evictLRULocked lc else lc)"
    have ne: "cached lc \<noteq> []" if "int (list_Len (order lc)) \<ge> cmaxSize lc"
      using that inv by (auto simp: cache_inv_def simp flip: length_entries)
    have l1: "indexed ekey (entries lc1) (order lc1)" "cmaxSize lc1 = cmaxSize lc" "ttl lc1 = ttl lc"
        "cached lc1 = (if int (length (cached lc)) \<ge> cmaxSize lc then butlast (cached lc) else cached lc)"
      using evictLRULocked_list [OF inv] ne ix by (auto simp: lc1_def)
    have kf: "filter (\<lambda>x. ekey x \<noteq> k) (cached lc) = cached lc" "k \<notin> ekey ` set (cached lc)"
      using None indexed_none [OF ix, of k] by (force intro: filter_True)+
    then have "k \<notin> ekey ` set (cached lc1)" by (auto simp: l1(4) dest: in_set_butlastD)
    then have n1: "mget (entries lc1) (ekey e) = None" using indexed_none [OF l1(1), of k] e by simp
    obtain c l where p: "PushFront e (order lc1) = (c, l)" by (cases "PushFront e (order lc1)")
    have lc': "lc_Put now k ns lc = lc1\<lparr>order := l, entries := mput k c (entries lc1)\<rparr>"
      using None p by (simp add: lc_Put_def Let_def lc1_def [symmetric] e_def [symmetric])
    have c: "cached (lc_Put now k ns lc) = take (nat (cmaxSize lc)) (e # cached lc)"
    proof -
      have "cached (lc_Put now k ns lc) =
          e # (if int (length (cached lc)) \<ge> cmaxSize lc then butlast (cached lc) else cached lc)"
        using indexed_PushFront(2) [OF l1(1) n1 p] by (simp add: lc' l1(4))
      also have "\<dots> = take (nat (cmaxSize lc)) (e # cached lc)"
        by (rule take_push) (use inv in \<open>simp_all add: cache_inv_def\<close>)
      finally show ?thesis .
    qed
    moreover have "int (list_Len (order (lc_Put now k ns lc))) \<le> cmaxSize lc"
      using arg_cong [OF c, of length] inv by (simp add: cache_inv_def min_def) linarith
    ultimately show ?thesis using indexed_PushFront(1) [OF l1(1) n1 p] inv kf(1) by (simp add: lc' cache_inv_def e l1)
  qed
  then show "cache_inv (lc_Put now k ns lc)" "ttl (lc_Put now k ns lc) = ttl lc" "cmaxSize (lc_Put now k ns lc) = cmaxSize lc"
    "cached (lc_Put now k ns lc) = take (nat (cmaxSize lc)) (e # filter (\<lambda>x. ekey x \<noteq> k) (cached lc))" by simp_all
qed

section \<open>Searches\<close>

definition table_inv :: "'a nodes \<Rightarrow> RoutingTable \<Rightarrow> bool" where
  "table_inv H rt \<longleftrightarrow> rt_inv H rt \<and> (\<forall>lc. lookupCache rt = Some lc \<longrightarrow> cache_inv lc)"

text \<open>Every cached result is a beginning of the present ranking.\<close>

definition cache_true :: "'a nodes \<Rightarrow> RoutingTable \<Rightarrow> bool" where
  "cache_true H rt \<longleftrightarrow>
     (\<forall>lc. lookupCache rt = Some lc \<longrightarrow> (\<forall>e\<in>set (cached lc). \<exists>c>0. enodes e = take c (ranking H (ekey e) rt)))"

lemma ranking_same: "same_ids H H' \<Longrightarrow> ranking H' t rt = ranking H t rt"
  by (simp add: same_ids_def)

lemma table_inv_same: "same_ids H H' \<Longrightarrow> table_inv H' rt = table_inv H rt"
  by (simp add: table_inv_def rt_inv_same)

lemma cache_true_same: "same_ids H H' \<Longrightarrow> cache_true H' rt = cache_true H rt"
  by (simp add: cache_true_def ranking_same)

lemma getCached_cases:
  assumes inv: "table_inv H rt" and g: "getCachedClosestNodes now k cnt rt = (r, rt')"
  shows "table_inv H rt'" "\<exists>c. rt' = rt\<lparr>lookupCache := c\<rparr>" "cache_true H rt \<Longrightarrow> cache_true H rt'"
    "cache_true H rt \<Longrightarrow> 0 < cnt \<Longrightarrow> r = Some ns \<Longrightarrow> \<exists>c. 0 < c \<and> c \<le> nat cnt \<and> ns = take c (ranking H k rt)"
proof -
  have "table_inv H rt' \<and> (\<exists>c. rt' = rt\<lparr>lookupCache := c\<rparr>) \<and> (cache_true H rt \<longrightarrow> cache_true H rt') \<and>
    (cache_true H rt \<longrightarrow> 0 < cnt \<longrightarrow> r = Some ns \<longrightarrow> (\<exists>c. 0 < c \<and> c \<le> nat cnt \<and> ns = take c (ranking H k rt)))"
  proof (cases "lookupCache rt")
    case None
    then have "rt' = rt\<lparr>lookupCache := None\<rparr>" "rt' = rt" "r = None" using g by (simp_all add: getCachedClosestNodes_def)
    then show ?thesis using inv by auto
  next
    case (Some lc)
    have ci: "cache_inv lc" using inv Some by (simp add: table_inv_def)
    obtain r1 lc1 where get: "lc_Get now k lc = (r1, lc1)" by (cases "lc_Get now k lc")
    have rt': "rt' = rt\<lparr>lookupCache := Some lc1\<rparr>"
      and r: "r = map_option (\<lambda>ns. if int (length ns) > cnt then take (nat cnt) ns else ns) r1"
      using g Some get by (auto simp: getCachedClosestNodes_def Let_def split: option.splits)
    have "cache_inv lc1 \<and> set (cached lc1) \<subseteq> set (cached lc) \<and>
        (\<forall>ns. r1 = Some ns \<longrightarrow> (\<exists>e\<in>set (cached lc). ekey e = k \<and> enodes e = ns))"
    proof (cases "k \<in> ekey ` set (cached lc)")
      case True
      then obtain e where e: "e \<in> set (cached lc)" "k = ekey e" by blast
      show ?thesis using lc_Get_entry [OF ci e(1) get [unfolded e(2)]] e by auto
    next
      case False
      then have "lc1 = lc\<lparr>misses := misses lc + 1\<rparr>" "r1 = None" using lc_Get_miss [OF ci False, of now] get by simp_all
      then show ?thesis using ci by (simp add: cache_inv_def)
    qed
    then have lc1: "cache_inv lc1" "set (cached lc1) \<subseteq> set (cached lc)"
        "\<And>ns. r1 = Some ns \<Longrightarrow> \<exists>e\<in>set (cached lc). ekey e = k \<and> enodes e = ns" by blast+
    have "\<exists>c. 0 < c \<and> c \<le> nat cnt \<and> ns = take c (ranking H k rt)" if t: "cache_true H rt" "0 < cnt" "r = Some ns"
    proof -
      obtain ms where ms: "r1 = Some ms" "ns = (if int (length ms) > cnt then take (nat cnt) ms else ms)"
        using t(3) r by auto
      then obtain c where c: "0 < c" "ms = take c (ranking H k rt)"
        using lc1(3) t(1) Some by (fastforce simp: cache_true_def)
      show ?thesis
      proof (cases "int (length ms) > cnt")
        case True
        then show ?thesis using ms(2) c t(2) by (intro exI [of _ "min (nat cnt) c"]) simp
      next
        case False
        have "take (nat cnt) ms = ms" using False by simp
        then show ?thesis using False ms(2) c t(2) by (intro exI [of _ "min (nat cnt) c"]) simp
      qed
    qed
    moreover have "cache_true H rt \<longrightarrow> cache_true H rt'" using lc1(2) Some by (auto simp: cache_true_def rt')
    moreover have "table_inv H rt'" using inv lc1(1) by (simp add: table_inv_def rt')
    ultimately show ?thesis using rt' by blast
  qed
  then show "table_inv H rt'" "\<exists>c. rt' = rt\<lparr>lookupCache := c\<rparr>" "cache_true H rt \<Longrightarrow> cache_true H rt'"
    "cache_true H rt \<Longrightarrow> 0 < cnt \<Longrightarrow> r = Some ns \<Longrightarrow> \<exists>c. 0 < c \<and> c \<le> nat cnt \<and> ns = take c (ranking H k rt)" by blast+
qed

lemma cacheClosest_keeps:
  assumes inv: "table_inv H rt"
  shows "table_inv H (cacheClosestNodes now k ns rt)" "\<exists>c. cacheClosestNodes now k ns rt = rt\<lparr>lookupCache := c\<rparr>"
    "cache_true H rt \<Longrightarrow> ns = take c (ranking H k rt) \<Longrightarrow> cache_true H (cacheClosestNodes now k ns rt)"
proof -
  have "table_inv H (cacheClosestNodes now k ns rt) \<and> (\<exists>c. cacheClosestNodes now k ns rt = rt\<lparr>lookupCache := c\<rparr>) \<and>
    (cache_true H rt \<longrightarrow> ns = take c (ranking H k rt) \<longrightarrow> cache_true H (cacheClosestNodes now k ns rt))"
  proof (cases "lookupCache rt = None \<or> ns = []")
    case True
    then have "cacheClosestNodes now k ns rt = rt" by (auto simp: cacheClosestNodes_def split: option.splits)
    then show ?thesis using inv by (auto intro: exI [of _ "lookupCache rt"])
  next
    case False
    then obtain lc where lc: "lookupCache rt = Some lc" by auto
    have ci: "cache_inv lc" using inv lc by (simp add: table_inv_def)
    note put = lc_Put_list [OF ci refl, of now k ns]
    have rt': "cacheClosestNodes now k ns rt = rt\<lparr>lookupCache := Some (lc_Put now k ns lc)\<rparr>"
      using lc False by (simp add: cacheClosestNodes_def)
    have sub: "e = \<lparr>ekey = k, enodes = ns, timestamp = now\<rparr> \<or> e \<in> set (cached lc)"
      if "e \<in> set (cached (lc_Put now k ns lc))" for e
      using that put(4) by (auto dest: in_set_takeD)
    have "cache_true H (cacheClosestNodes now k ns rt)" if t: "cache_true H rt" "ns = take c (ranking H k rt)"
    proof -
      have "0 < c" using t(2) False by (cases c) auto
      then have "\<exists>c>0. enodes e = take c (ranking H (ekey e) rt)" if "e \<in> set (cached (lc_Put now k ns lc))" for e
        using sub [OF that] t lc unfolding cache_true_def by (elim disjE) (rule exI [of _ c], simp, blast)
      then show ?thesis by (simp add: cache_true_def rt')
    qed
    moreover have "table_inv H (cacheClosestNodes now k ns rt)" using inv put(1) by (simp add: rt' table_inv_def)
    ultimately show ?thesis using rt' by blast
  qed
  then show "table_inv H (cacheClosestNodes now k ns rt)" "\<exists>c. cacheClosestNodes now k ns rt = rt\<lparr>lookupCache := c\<rparr>"
    "cache_true H rt \<Longrightarrow> ns = take c (ranking H k rt) \<Longrightarrow> cache_true H (cacheClosestNodes now k ns rt)" by blast+
qed

lemma FindClosest_keeps:
  assumes inv: "table_inv H rt" and f: "FindClosestNodes H now tid cnt rt = (ns, rt')"
  shows "table_inv H rt' \<and> (\<exists>c. rt' = rt\<lparr>lookupCache := c\<rparr>) \<and> (cache_true H rt \<longrightarrow> cache_true H rt')"
    "cache_true H rt \<Longrightarrow> 0 < cnt \<Longrightarrow> \<exists>c. 0 < c \<and> c \<le> nat cnt \<and> ns = take c (ranking H (PublicKey tid) rt)"
proof -
  have "table_inv H rt' \<and> (\<exists>c. rt' = rt\<lparr>lookupCache := c\<rparr>) \<and> (cache_true H rt \<longrightarrow> cache_true H rt') \<and>
    (cache_true H rt \<longrightarrow> 0 < cnt \<longrightarrow> (\<exists>c. 0 < c \<and> c \<le> nat cnt \<and> ns = take c (ranking H (PublicKey tid) rt)))"
  proof (cases "cnt \<le> 0")
    case True
    then show ?thesis using inv f by (auto simp: FindClosestNodes_def intro: exI [of _ "lookupCache rt"])
  next
    case False
    let ?k = "PublicKey tid"
    obtain r rt1 where g: "getCachedClosestNodes now ?k cnt rt = (r, rt1)" by (cases "getCachedClosestNodes now ?k cnt rt")
    note gc = getCached_cases [OF inv g]
    show ?thesis
    proof (cases r)
      case (Some cs)
      then have "ns = cs" "rt' = rt1" using f g False by (simp_all add: FindClosestNodes_def)
      then show ?thesis using gc False Some by simp
    next
      case None
      have rk: "ranking H ?k rt1 = ranking H ?k rt" using gc(2) by auto
      have r1: "rt_inv H rt1" using gc(1) by (simp add: table_inv_def)
      have ns: "ns = take (nat cnt) (ranking H ?k rt1)" and rt': "rt' = cacheClosestNodes now ?k ns rt1"
        using f g False None found_is_prefix [OF r1, of cnt tid] by (auto simp: FindClosestNodes_def Let_def)
      note cc = cacheClosest_keeps [OF gc(1), where now = now and k = ?k and ns = ns]
      have "\<exists>c. rt' = rt\<lparr>lookupCache := c\<rparr>" using cc(2) gc(2) rt' by auto
      moreover have "\<exists>c. 0 < c \<and> c \<le> nat cnt \<and> ns = take c (ranking H ?k rt)"
        using ns rk False by (intro exI [of _ "nat cnt"]) simp
      moreover have "cache_true H rt \<Longrightarrow> cache_true H rt'" using cc(3) [OF gc(3) ns] rt' by simp
      moreover have "table_inv H rt'" using cc(1) rt' by simp
      ultimately show ?thesis by simp
    qed
  qed
  then show "table_inv H rt' \<and> (\<exists>c. rt' = rt\<lparr>lookupCache := c\<rparr>) \<and> (cache_true H rt \<longrightarrow> cache_true H rt')"
    "cache_true H rt \<Longrightarrow> 0 < cnt \<Longrightarrow> \<exists>c. 0 < c \<and> c \<le> nat cnt \<and> ns = take c (ranking H (PublicKey tid) rt)" by blast+
qed

end
