(* ===== verification/Dht_Lookup.thy ===== *)
theory Dht_Lookup
  imports Dht_Table
begin

text \<open>
  The iterative lookup of a node, \<^verbatim>\<open>dht/iterative_lookup.go\<close>: the candidate set sorted by distance, the rounds of
  at most \<open>Alpha\<close> queries, and the table of pending answers. The answers of the queried nodes, in the order of their arrival,
  the moments at which the context is found cancelled and the clock are arguments. Nodes are pointers as in the routing
  table; only the keys of the nodes are read, which never change.
\<close>

unbundle bit_operations_syntax

section \<open>The candidate set\<close>

record 'a nodeSet =
  nstarget :: "'a Node"
  snodes :: "nptr list"
  capacity :: int

definition newNodeSet :: "'a Node \<Rightarrow> int \<Rightarrow> 'a nodeSet" where
  "newNodeSet target cap = \<lparr>nstarget = target, snodes = [], capacity = cap\<rparr>"

definition containsNode :: "'a nodes \<Rightarrow> key32 \<Rightarrow> 'a nodeSet \<Rightarrow> bool" where
  "containsNode H publicKey ns = list_ex (\<lambda>p. NodeKey (H p) = publicKey) (snodes ns)"

fun insertion_loop :: "'a nodes \<Rightarrow> 'a Node \<Rightarrow> key32 \<Rightarrow> nat \<Rightarrow> nptr list \<Rightarrow> nat" where
  "insertion_loop H target dist i [] = i"
| "insertion_loop H target dist i (p # ps) =
     (if lessDistance dist (Distance (H p) target) then i else insertion_loop H target dist (Suc i) ps)"

definition findInsertionPoint :: "'a nodes \<Rightarrow> nptr \<Rightarrow> 'a nodeSet \<Rightarrow> nat" where
  "findInsertionPoint H node ns =
     insertion_loop H (nstarget ns) (Distance (H node) (nstarget ns)) 0 (snodes ns)"

definition insertNodeAt :: "nptr \<Rightarrow> nat \<Rightarrow> 'a nodeSet \<Rightarrow> 'a nodeSet" where
  "insertNodeAt node idx ns =
     (let xs = take idx (snodes ns) @ [node] @ drop idx (snodes ns)
      in ns\<lparr>snodes := (if int (length xs) > capacity ns then take (nat (capacity ns)) xs else xs)\<rparr>)"

definition ns_add :: "'a nodes \<Rightarrow> nptr \<Rightarrow> 'a nodeSet \<Rightarrow> bool \<times> 'a nodeSet" where
  "ns_add H node ns =
     (if containsNode H (NodeKey (H node)) ns then (False, ns)
      else let insertIdx = findInsertionPoint H node ns
           in if int insertIdx \<ge> capacity ns then (False, ns) else (True, insertNodeAt node insertIdx ns))"

fun select_loop :: "'a nodes \<Rightarrow> int \<Rightarrow> key32 set \<Rightarrow> nptr list \<Rightarrow> nptr list \<Rightarrow> nptr list" where
  "select_loop H n queried [] result = result"
| "select_loop H n queried (p # ps) result =
     (if NodeKey (H p) \<notin> queried then
        let result1 = result @ [p]
        in if int (length result1) \<ge> n then result1 else select_loop H n queried ps result1
      else select_loop H n queried ps result)"

definition selectUnqueried :: "'a nodes \<Rightarrow> int \<Rightarrow> key32 set \<Rightarrow> 'a nodeSet \<Rightarrow> nptr list" where
  "selectUnqueried H n queried ns = select_loop H n queried (snodes ns) []"

definition closestDistance :: "'a nodes \<Rightarrow> 'a nodeSet \<Rightarrow> key32" where
  "closestDistance H ns =
     (case snodes ns of [] \<Rightarrow> bytes_key (replicate 32 0xFF) | p # _ \<Rightarrow> Distance (H p) (nstarget ns))"

definition getClosest :: "int \<Rightarrow> 'a nodeSet \<Rightarrow> nptr list" where
  "getClosest k ns = (if int (length (snodes ns)) \<le> k then snodes ns else take (nat k) (snodes ns))"

section \<open>The lookup\<close>

datatype lookup_error = ErrNoNodesAvailable | ErrQueryTimeout | ErrSend | ErrContext

record LookupConfig =
  Alpha :: int
  K :: int
  Timeout :: duration
  ResponseTimeout :: duration
  MaxIterations :: int

definition DefaultLookupConfig :: LookupConfig where
  "DefaultLookupConfig =
     \<lparr>Alpha = 3, K = 8, Timeout = 30 * 10 ^ 9, ResponseTimeout = 3 * 10 ^ 9, MaxIterations = 10\<rparr>"

record IterativeLookupResult =
  ClosestNodes :: "nptr list"
  QueriedNodes :: "key32 set"
  Iterations :: int
  Duration :: duration
  Success :: bool
  LookupError :: "lookup_error option"

text \<open>
  An answer is what \<^verbatim>\<open>queryNode\<close> returns: the nodes of the first response that reaches the query's channel, or the
  error of the send, of the response timer or of the context. \<open>answers i ps\<close> are the answers in round \<open>i\<close> to the queries to
  \<open>ps\<close>, in the order in which they arrive.
\<close>

type_synonym answers = "nat \<Rightarrow> nptr list \<Rightarrow> (lookup_error + nptr list) list"

definition initializeCandidates ::
  "'a nodes \<Rightarrow> LookupConfig \<Rightarrow> time \<Rightarrow> key32 \<Rightarrow> RoutingTable \<Rightarrow>
    (lookup_error + 'a Node \<times> 'a nodeSet) \<times> RoutingTable" where
  "initializeCandidates H config now targetKey rt =
     (let targetID = NewToxID targetKey 0;
          (initialNodes, rt1) = FindClosestNodes H now targetID (K config) rt
      in if length initialNodes = 0 then (Err ErrNoNodesAvailable, rt1)
         else let targetNode = (createTargetNode targetID)\<lparr>NodeKey := targetKey\<rparr>;
                  candidates = newNodeSet targetNode (K config * 3)
              in (Ok (targetNode, fold (\<lambda>n ns. snd (ns_add H n ns)) initialNodes candidates), rt1))"

definition shouldSkipNode :: "'a nodes \<Rightarrow> ToxID \<Rightarrow> nptr \<Rightarrow> key32 set \<Rightarrow> bool" where
  "shouldSkipNode H self node queriedNodes =
     (if NodeKey (H node) \<in> queriedNodes then True else NodeKey (H node) = PublicKey self)"

fun addDiscoveredNodes ::
  "'a nodes \<Rightarrow> ToxID \<Rightarrow> nptr list \<Rightarrow> 'a Node \<Rightarrow> key32 set \<Rightarrow> key32 \<Rightarrow> 'a nodeSet \<Rightarrow> bool \<times> 'a nodeSet" where
  "addDiscoveredNodes H self [] target queried closestBefore candidates = (False, candidates)"
| "addDiscoveredNodes H self (discovered # ns) target queried closestBefore candidates =
     (if shouldSkipNode H self discovered queried
      then addDiscoveredNodes H self ns target queried closestBefore candidates
      else let (added, candidates1) = ns_add H discovered candidates;
               closer = (added \<and> lessDistance (Distance (H discovered) target) closestBefore);
               (foundCloser, candidates2) = addDiscoveredNodes H self ns target queried closestBefore candidates1
           in (closer \<or> foundCloser, candidates2))"

fun process_loop ::
  "'a nodes \<Rightarrow> ToxID \<Rightarrow> (lookup_error + nptr list) list \<Rightarrow> 'a Node \<Rightarrow> key32 set \<Rightarrow> key32 \<Rightarrow> 'a nodeSet \<Rightarrow> bool \<times> 'a nodeSet" where
  "process_loop H self [] target queried closestBefore candidates = (False, candidates)"
| "process_loop H self (Inl err # rs) target queried closestBefore candidates =
     process_loop H self rs target queried closestBefore candidates"
| "process_loop H self (Inr responses # rs) target queried closestBefore candidates =
     (let (closer, candidates1) = addDiscoveredNodes H self responses target queried closestBefore candidates;
          (foundCloser, candidates2) = process_loop H self rs target queried closestBefore candidates1
      in (closer \<or> foundCloser, candidates2))"

definition processDiscoveredNodes ::
  "'a nodes \<Rightarrow> ToxID \<Rightarrow> (lookup_error + nptr list) list \<Rightarrow> 'a Node \<Rightarrow> key32 set \<Rightarrow> 'a nodeSet \<Rightarrow> bool \<times> 'a nodeSet" where
  "processDiscoveredNodes H self rs target queried candidates =
     process_loop H self rs target queried (closestDistance H candidates) candidates"

text \<open>The queries that a round sends are logged; every node is marked before its answer can arrive.\<close>

definition queryAndProcessResponses ::
  "'a nodes \<Rightarrow> ToxID \<Rightarrow> (nptr list \<Rightarrow> (lookup_error + nptr list) list) \<Rightarrow> nptr list \<Rightarrow> 'a Node \<Rightarrow>
    key32 set \<Rightarrow> 'a nodeSet \<Rightarrow> nptr list \<Rightarrow> bool \<times> key32 set \<times> 'a nodeSet \<times> nptr list" where
  "queryAndProcessResponses H self answer nodesToQuery target queried candidates sent =
     (let queried1 = fold (\<lambda>p q. insert (NodeKey (H p)) q) nodesToQuery queried;
          (foundCloser, candidates1) = processDiscoveredNodes H self (answer nodesToQuery) target queried1 candidates
      in (foundCloser, queried1, candidates1, sent @ nodesToQuery))"

record 'a lookup_state =
  rounds :: int
  cands :: "'a nodeSet"
  asked :: "key32 set"
  sentq :: "nptr list"
  stopped :: "lookup_error option"

function find_loop ::
  "'a nodes \<Rightarrow> ToxID \<Rightarrow> LookupConfig \<Rightarrow> answers \<Rightarrow> (nat \<Rightarrow> bool) \<Rightarrow> 'a Node \<Rightarrow> nat \<Rightarrow> 'a lookup_state \<Rightarrow> 'a lookup_state" where
  "find_loop H self config answer cancelled target iteration st =
     (if int iteration < MaxIterations config then
        let st1 = st\<lparr>rounds := int iteration + 1\<rparr>;
            nodesToQuery = selectUnqueried H (Alpha config) (asked st1) (cands st1)
        in if length nodesToQuery = 0 then st1
           else let (foundCloser, queried, candidates, sent) =
                      queryAndProcessResponses H self (answer iteration) nodesToQuery target (asked st1) (cands st1) (sentq st1);
                    st2 = st1\<lparr>asked := queried, cands := candidates, sentq := sent\<rparr>
                in if \<not> foundCloser then st2
                   else if cancelled iteration then st2\<lparr>stopped := Some ErrContext\<rparr>
                   else find_loop H self config answer cancelled target (Suc iteration) st2
      else st)"
  by pat_completeness auto
termination
  by (relation "measure (\<lambda>(H, self, config, answer, cancelled, target, iteration, st). nat (MaxIterations config) - iteration)")
    auto

declare find_loop.simps [simp del]

definition FindNode ::
  "'a nodes \<Rightarrow> ToxID \<Rightarrow> LookupConfig \<Rightarrow> answers \<Rightarrow> (nat \<Rightarrow> bool) \<Rightarrow> time \<Rightarrow> time \<Rightarrow> key32 \<Rightarrow> RoutingTable \<Rightarrow>
    IterativeLookupResult \<times> nptr list \<times> RoutingTable" where
  "FindNode H self config answer cancelled startTime endTime targetKey rt =
     (case initializeCandidates H config startTime targetKey rt of
        (Inl err, rt1) \<Rightarrow>
          (\<lparr>ClosestNodes = [], QueriedNodes = {}, Iterations = 0, Duration = endTime - startTime, Success = False,
            LookupError = Some err\<rparr>, [], rt1)
      | (Inr (targetNode, candidates), rt1) \<Rightarrow>
          (let st = find_loop H self config answer cancelled targetNode 0
                      \<lparr>rounds = 0, cands = candidates, asked = {}, sentq = [], stopped = None\<rparr>;
               closest = getClosest (K config) (cands st)
           in (\<lparr>ClosestNodes = closest, QueriedNodes = asked st, Iterations = rounds st,
                Duration = endTime - startTime,
                Success = (case stopped st of Some _ \<Rightarrow> False | None \<Rightarrow> length closest > 0),
                LookupError = stopped st\<rparr>, sentq st, rt1)))"

section \<open>Pending answers\<close>

record queryKey =
  qnode :: key32
  qtarget :: key32

text \<open>
  The pending queries with the contents of their channels, which hold one response. The packet of a query is the local
  key followed by the key of the target.
\<close>

type_synonym pending = "(queryKey, nptr list option) gomap"

definition query_packet :: "ToxID \<Rightarrow> key32 \<Rightarrow> bytes" where
  "query_packet self targetKey = key_bytes (PublicKey self) @ key_bytes targetKey"

definition query_register :: "key32 \<Rightarrow> key32 \<Rightarrow> pending \<Rightarrow> pending" where
  "query_register node target pend = mput \<lparr>qnode = node, qtarget = target\<rparr> None pend"

definition query_done :: "key32 \<Rightarrow> key32 \<Rightarrow> pending \<Rightarrow> pending" where
  "query_done node target pend = mdel \<lparr>qnode = node, qtarget = target\<rparr> pend"

definition deliverPendingResponse :: "queryKey \<Rightarrow> nptr list option \<Rightarrow> key32 \<Rightarrow> nptr list \<Rightarrow> nptr list option" where
  "deliverPendingResponse key ch fromKey ns =
     (if qnode key \<noteq> fromKey then ch else case ch of None \<Rightarrow> Some ns | Some _ \<Rightarrow> ch)"

definition HandleNodesResponse :: "key32 \<Rightarrow> nptr list \<Rightarrow> pending \<Rightarrow> pending" where
  "HandleNodesResponse fromKey ns pend = map (\<lambda>(key, ch). (key, deliverPendingResponse key ch fromKey ns)) pend"

end
