(* ===== verification/Dht_Properties.thy ===== *)
theory Dht_Properties
  imports Dht_Table
begin

text \<open>
  The routing table in use: nodes are added, searched for, marked by the answers to pings and pruned in any order.
  The properties of the table over all such sequences, and the two ways in which a cached search result departs from
  the table.
\<close>

unbundle bit_operations_syntax

section \<open>The table in use\<close>

datatype 'a rt_op =
    AddNew ToxID "'a option" time
  | AddAgain nptr
  | Search time ToxID int
  | PingResult nptr time bool
  | Mark nptr time NodeStatus
  | Prune duration duration time

record 'a rt_state =
  hp :: "'a nodes"
  nextp :: nptr
  table :: RoutingTable

fun rt_step :: "'a rt_op \<Rightarrow> 'a rt_state \<Rightarrow> 'a rt_state" where
  "rt_step (AddNew tid addr now) s =
     (let H = (hp s)(nextp s := NewNode now tid addr)
      in s\<lparr>hp := H, nextp := Suc (nextp s), table := snd (AddNode H (nextp s) (table s))\<rparr>)"
| "rt_step (AddAgain p) s = (if p < nextp s then s\<lparr>table := snd (AddNode (hp s) p (table s))\<rparr> else s)"
| "rt_step (Search now tid cnt) s = s\<lparr>table := snd (FindClosestNodes (hp s) now tid cnt (table s))\<rparr>"
| "rt_step (PingResult p now ok) s = s\<lparr>hp := (hp s)(p := RecordPingResponse now ok (hp s p))\<rparr>"
| "rt_step (Mark p now st) s = s\<lparr>hp := (hp s)(p := Update now st (hp s p))\<rparr>"
| "rt_step (Prune nt pt now) s =
     (let (H, rt) = pruneDeadNodes nt pt now (hp s, table s) in s\<lparr>hp := H, table := rt\<rparr>)"

definition rt_start :: "'a nodes \<Rightarrow> ToxID \<Rightarrow> int \<Rightarrow> 'a rt_state" where
  "rt_start H self sz = \<lparr>hp = H, nextp = 0, table = NewRoutingTable self sz\<rparr>"

definition sys_inv :: "'a rt_state \<Rightarrow> bool" where
  "sys_inv s \<longleftrightarrow>
     table_inv (hp s) (table s) \<and> (\<forall>p<nextp s. id_key (hp s p) = NodeKey (hp s p)) \<and>
     (\<forall>p\<in>set (GetAllNodes (table s)). p < nextp s)"

lemma new_table:
  "length (kBuckets (NewRoutingTable self sz)) = 256"
  "i < 256 \<Longrightarrow> kBuckets (NewRoutingTable self sz) ! i = NewKBucket sz"
  "selfID (NewRoutingTable self sz) = self"
  "lookupCache (NewRoutingTable self sz) = Some (NewLookupCache DefaultLookupCacheTTL DefaultLookupCacheMaxSize)"
  by (simp_all add: NewRoutingTable_def del: upt_rec_numeral)

lemma new_table_empty: "GetAllNodes (NewRoutingTable self sz) = []"
  by (simp add: GetAllNodes_nth new_table NewKBucket_def del: upt_rec_numeral)

lemma sys_inv_start: "0 \<le> sz \<Longrightarrow> sys_inv (rt_start H self sz)"
  by (simp add: sys_inv_def rt_start_def table_inv_def rt_inv_def new_table new_table_empty bucket_ok_def NewKBucket_def
      cache_inv_New)

lemma cache_true_start: "cache_true H (NewRoutingTable self sz)"
  by (simp add: cache_true_def new_table cache_inv_New)

lemma addNodeLocked_False: "addNodeLocked H p kb = (False, kb') \<Longrightarrow> kb' = kb"
  by (auto simp: addNodeLocked_def split: option.splits if_splits)

lemma addNodeLocked_set: "set (knodes (snd (addNodeLocked H p kb))) \<subseteq> insert p (set (knodes kb))"
  by (auto simp: addNodeLocked_def split: option.splits dest: in_set_takeD in_set_dropD
      set_update_subset_insert [THEN subsetD])

lemma GetAllNodes_update:
  "set (GetAllNodes (rt\<lparr>kBuckets := (kBuckets rt)[i := kb]\<rparr>)) \<subseteq> set (knodes kb) \<union> set (GetAllNodes rt)"
  using set_update_subset_insert [of "kBuckets rt" i kb] by (auto simp: GetAllNodes_def)

lemma AddNode_cases:
  assumes "AddNode H p rt = (added, rt')"
  obtains "rt' = rt"
  | i kb where "i = computeBucketIndex (selfID rt) (H p)" "addNodeLocked H p (kBuckets rt ! i) = (True, kb)"
      "rt' = ClearLookupCache (rt\<lparr>kBuckets := (kBuckets rt)[i := kb]\<rparr>)"
proof (cases "id_key (H p) = PublicKey (selfID rt)")
  case True
  then show ?thesis using assms that(1) by (simp add: AddNode_def addNodeWithFn_def)
next
  case False
  obtain a kb where l: "addNodeLocked H p (kBuckets rt ! computeBucketIndex (selfID rt) (H p)) = (a, kb)"
    by (cases "addNodeLocked H p (kBuckets rt ! computeBucketIndex (selfID rt) (H p))")
  have rt': "rt' = (let rt1 = rt\<lparr>kBuckets := (kBuckets rt)[computeBucketIndex (selfID rt) (H p) := kb]\<rparr>
      in if a then ClearLookupCache rt1 else rt1)"
    using assms False l by (auto simp: AddNode_def addNodeWithFn_def Let_def split: if_splits)
  show ?thesis
  proof (cases a)
    case True
    then show ?thesis using that(2) [OF refl] l rt' by simp
  next
    case False
    then have "kb = kBuckets rt ! computeBucketIndex (selfID rt) (H p)" using addNodeLocked_False l by simp
    then show ?thesis using that(1) False rt' by simp
  qed
qed

lemma AddNode_keeps:
  assumes t: "table_inv H rt" and id: "id_key (H p) = NodeKey (H p)" and a: "AddNode H p rt = (added, rt')"
  shows "table_inv H rt'" "set (GetAllNodes rt') \<subseteq> insert p (set (GetAllNodes rt))"
    "cache_true H rt \<Longrightarrow> cache_true H rt'"
proof -
  have ri: "rt_inv H rt'" using AddNode_inv [of H rt p] t id a by (simp add: table_inv_def)
  have "table_inv H rt' \<and> set (GetAllNodes rt') \<subseteq> insert p (set (GetAllNodes rt)) \<and> (cache_true H rt \<longrightarrow> cache_true H rt')"
    using a
  proof (cases rule: AddNode_cases)
    case 1
    then show ?thesis using t by auto
  next
    case (2 i kb)
    have i: "i < length (kBuckets rt)" using t by (simp add: table_inv_def rt_inv_def bucket_of_key 2(1))
    have "set (knodes kb) \<subseteq> insert p (set (bucket_nodes rt i))" using addNodeLocked_set [of H p "kBuckets rt ! i"] 2(2) by simp
    then have "set (knodes kb) \<subseteq> insert p (set (GetAllNodes rt))" using nth_mem [OF i] by (auto simp: GetAllNodes_def)
    moreover have "set (GetAllNodes rt') \<subseteq> set (knodes kb) \<union> set (GetAllNodes rt)"
      unfolding 2(3) ClearLookupCache_def lookupCache_update by (rule GetAllNodes_update)
    moreover have "lookupCache rt' = map_option lc_Clear (lookupCache rt)" by (simp add: 2(3) ClearLookupCache_def)
    then have "table_inv H rt'" "cache_true H rt'"
      using ri t by (auto simp: table_inv_def cache_true_def cache_inv_Clear)
    ultimately show ?thesis by blast
  qed
  then show "table_inv H rt'" "set (GetAllNodes rt') \<subseteq> insert p (set (GetAllNodes rt))"
    "cache_true H rt \<Longrightarrow> cache_true H rt'" by blast+
qed

lemma insort_key_same: "(\<And>y. y \<in> insert x (set ys) \<Longrightarrow> f y = g y) \<Longrightarrow> insort_key f x ys = insort_key g x ys"
  by (induction ys) auto

lemma sort_key_same: "(\<And>y. y \<in> set ys \<Longrightarrow> f y = g y) \<Longrightarrow> sort_key f ys = sort_key g ys"
proof (induction ys)
  case (Cons y ys)
  have "insort_key f y (sort_key g ys) = insort_key g y (sort_key g ys)"
    by (rule insort_key_same) (use Cons.prems in auto)
  then show ?case using Cons by simp
qed simp

lemma ranking_fresh:
  assumes "\<forall>p\<in>set (GetAllNodes rt). p < q"
  shows "table_inv (H(q := n)) rt = table_inv H rt" "ranking (H(q := n)) t rt = ranking H t rt"
proof -
  have eq: "(H(q := n)) p = H p" if "p \<in> set (GetAllNodes rt)" for p using assms that by auto
  have "bucket_ok (H(q := n)) self i (kBuckets rt ! i) = bucket_ok H self i (kBuckets rt ! i)"
    if "i < 256" "length (kBuckets rt) = 256" for i self
  proof -
    have e: "(H(q := n)) p = H p" if "p \<in> set (bucket_nodes rt i)" for p
      using \<open>i < 256\<close> \<open>length (kBuckets rt) = 256\<close> that by (intro eq) (auto simp: GetAllNodes_def)
    have "map (\<lambda>p. NodeKey ((H(q := n)) p)) (bucket_nodes rt i) = map (\<lambda>p. NodeKey (H p)) (bucket_nodes rt i)"
      using e by (intro map_cong) auto
    then show ?thesis using e by (simp only: bucket_ok_def) (metis (no_types, lifting))
  qed
  then show "table_inv (H(q := n)) rt = table_inv H rt" by (auto simp: table_inv_def rt_inv_def)
  show "ranking (H(q := n)) t rt = ranking H t rt" using eq by (intro sort_key_same) auto
qed

lemma step_keeps:
  assumes s: "sys_inv s"
  shows "sys_inv (rt_step p s)"
    "(\<And>nt pt now. p \<noteq> Prune nt pt now) \<Longrightarrow> cache_true (hp s) (table s) \<Longrightarrow> cache_true (hp (rt_step p s)) (table (rt_step p s))"
proof -
  have t: "table_inv (hp s) (table s)" and ids: "\<And>p. p < nextp s \<Longrightarrow> id_key (hp s p) = NodeKey (hp s p)"
    and ptr: "\<forall>p\<in>set (GetAllNodes (table s)). p < nextp s"
    using s by (auto simp: sys_inv_def)
  have marked: "sys_inv (s\<lparr>hp := H\<rparr>) \<and> (cache_true (hp s) (table s) \<longrightarrow> cache_true H (table s))" if "same_ids (hp s) H" for H
    using s that by (simp add: sys_inv_def table_inv_same cache_true_same) (simp add: same_ids_def)
  have "sys_inv (rt_step p s) \<and> ((\<forall>nt pt now. p \<noteq> Prune nt pt now) \<longrightarrow> cache_true (hp s) (table s) \<longrightarrow>
      cache_true (hp (rt_step p s)) (table (rt_step p s)))"
  proof (cases p)
    case (AddNew tid addr now)
    let ?H = "(hp s)(nextp s := NewNode now tid addr)"
    obtain added rt' where a: "AddNode ?H (nextp s) (table s) = (added, rt')" by (cases "AddNode ?H (nextp s) (table s)")
    have t1: "table_inv ?H (table s)" using t by (simp add: ranking_fresh(1) [OF ptr])
    have id: "id_key (?H (nextp s)) = NodeKey (?H (nextp s))" by (simp add: NewNode_def)
    note k = AddNode_keeps [OF t1 id a]
    have c: "cache_true (hp s) (table s) \<Longrightarrow> cache_true ?H (table s)"
      unfolding cache_true_def ranking_fresh(2) [OF ptr] .
    have "rt_step p s = s\<lparr>hp := ?H, nextp := Suc (nextp s), table := rt'\<rparr>" using a AddNew by simp
    moreover have "sys_inv (s\<lparr>hp := ?H, nextp := Suc (nextp s), table := rt'\<rparr>)"
      using k(1,2) id ids ptr by (auto simp: sys_inv_def less_Suc_eq)
    ultimately show ?thesis using k(3) c by simp
  next
    case (AddAgain q)
    show ?thesis
    proof (cases "q < nextp s")
      case True
      obtain added rt' where a: "AddNode (hp s) q (table s) = (added, rt')" by (cases "AddNode (hp s) q (table s)")
      note k = AddNode_keeps [OF t ids [OF True] a]
      then show ?thesis using True AddAgain a ids ptr by (auto simp: sys_inv_def)
    qed (use AddAgain s in simp)
  next
    case (Search now tid cnt)
    obtain ns rt' where f: "FindClosestNodes (hp s) now tid cnt (table s) = (ns, rt')"
      by (cases "FindClosestNodes (hp s) now tid cnt (table s)")
    show ?thesis using FindClosest_keeps(1) [OF t f] Search f ids ptr by (auto simp: sys_inv_def)
  next
    case (PingResult q now ok)
    then show ?thesis using marked [OF same_ids_ops(3)] by simp
  next
    case (Mark q now st)
    then show ?thesis using marked [OF same_ids_ops(1)] by simp
  next
    case (Prune nt pt now)
    obtain H' rt' where pr: "pruneDeadNodes nt pt now (hp s, table s) = (H', rt')"
      by (cases "pruneDeadNodes nt pt now (hp s, table s)")
    have "rt_inv (hp s) (table s)" using t by (simp add: table_inv_def)
    note e = pruneDeadNodes_effect [OF this pr]
    have "set (GetAllNodes rt') \<subseteq> set (GetAllNodes (table s))" using arg_cong [OF e(5), of set_mset] by auto
    moreover have "rt_step p s = s\<lparr>hp := H', table := rt'\<rparr>" using Prune pr by simp
    ultimately show ?thesis
      using e(1,2,4) t ids ptr Prune by (auto simp: sys_inv_def table_inv_def same_ids_def)
  qed
  then show "sys_inv (rt_step p s)"
    "(\<And>nt pt now. p \<noteq> Prune nt pt now) \<Longrightarrow> cache_true (hp s) (table s) \<Longrightarrow> cache_true (hp (rt_step p s)) (table (rt_step p s))"
    by blast+
qed

interpretation rts: op_system rt_step sys_inv
  by unfold_locales (rule step_keeps(1))

lemma reach_inv: "0 \<le> sz \<Longrightarrow> sys_inv (fold rt_step ops (rt_start H self sz))"
  by (intro rts.inv_run sys_inv_start)

lemma reach_table:
  assumes "0 \<le> sz" "s = fold rt_step ops (rt_start H self sz)"
  shows "table_inv (hp s) (table s)" "rt_inv (hp s) (table s)"
  using reach_inv [OF assms(1), of ops H self] by (simp_all add: assms(2) sys_inv_def table_inv_def)

text \<open>The configuration of a table does not change.\<close>

definition configured :: "ToxID \<Rightarrow> int \<Rightarrow> RoutingTable \<Rightarrow> bool" where
  "configured self sz rt \<longleftrightarrow> selfID rt = self \<and> (\<forall>kb\<in>set (kBuckets rt). maxSize kb = sz)"

lemma configured_update:
  "configured self sz rt \<Longrightarrow> i < length (kBuckets rt) \<Longrightarrow> maxSize kb = maxSize (kBuckets rt ! i) \<Longrightarrow>
     configured self sz (rt\<lparr>kBuckets := (kBuckets rt)[i := kb]\<rparr>)"
  using set_update_subset_insert [of "kBuckets rt" i kb] by (auto simp: configured_def)

lemma configured_cache [simp]:
  "configured self sz (rt\<lparr>lookupCache := c\<rparr>) = configured self sz rt"
  "configured self sz (ClearLookupCache rt) = configured self sz rt"
  by (simp_all add: configured_def ClearLookupCache_def)

lemma maxSize_kept:
  "maxSize (snd (addNodeLocked H p kb)) = maxSize kb"
  "maxSize (snd (prune_loop nt pt now ns H kb)) = maxSize kb"
proof -
  show "maxSize (snd (addNodeLocked H p kb)) = maxSize kb" by (simp add: addNodeLocked_def split: option.splits)
  have r: "maxSize (snd (kb_RemoveNode H k kb)) = maxSize kb" for H :: "'a nodes" and k kb
    by (simp add: kb_RemoveNode_def Let_def split: option.splits)
  show "maxSize (snd (prune_loop nt pt now ns H kb)) = maxSize kb"
    by (induction ns arbitrary: H kb) (simp_all add: Let_def r)
qed

lemma prune_steps_configured:
  assumes "configured self sz rt" "n \<le> length (kBuckets rt)"
  shows "configured self sz (snd (fold (prune_step nt pt now) [0..<n] (H, rt))) \<and>
    length (kBuckets (snd (fold (prune_step nt pt now) [0..<n] (H, rt)))) = length (kBuckets rt)"
  using assms(2)
proof (induction n)
  case (Suc n)
  obtain H1 rt1 where f: "fold (prune_step nt pt now) [0..<n] (H, rt) = (H1, rt1)"
    by (cases "fold (prune_step nt pt now) [0..<n] (H, rt)")
  then have "configured self sz rt1" "length (kBuckets rt1) = length (kBuckets rt)" using Suc by simp_all
  moreover obtain H2 kb where p: "pruneNodesInBucket nt pt now H1 (kBuckets rt1 ! n) = (H2, kb)"
    by (cases "pruneNodesInBucket nt pt now H1 (kBuckets rt1 ! n)")
  moreover have "prune_step nt pt now n (H1, rt1) = (H2, rt1\<lparr>kBuckets := (kBuckets rt1)[n := kb]\<rparr>)"
    using p by (simp add: prune_step_def)
  then have "snd (fold (prune_step nt pt now) [0..<Suc n] (H, rt)) = rt1\<lparr>kBuckets := (kBuckets rt1)[n := kb]\<rparr>" using f by simp
  moreover have "maxSize kb = maxSize (kBuckets rt1 ! n)"
    using maxSize_kept(2) [of nt pt now "bucket_nodes rt1 n" H1 "kBuckets rt1 ! n"] p by (simp add: pruneNodesInBucket_def)
  ultimately show ?case using Suc.prems configured_update [of self sz rt1 n kb] by (simp del: upt_Suc)
qed (use assms(1) in simp)

lemma step_configured:
  assumes s: "sys_inv s" and c: "configured self sz (table s)"
  shows "configured self sz (table (rt_step p s))"
proof -
  have l: "length (kBuckets (table s)) = 256" using s by (simp add: sys_inv_def table_inv_def rt_inv_def)
  have add: "configured self sz rt'" if "AddNode H q (table s) = (a, rt')" for H :: "'a nodes" and q a rt'
    using that
  proof (cases rule: AddNode_cases)
    case (2 i kb)
    have "i < length (kBuckets (table s))" by (simp add: 2(1) l bucket_of_key)
    then show ?thesis using configured_update [OF c, of i kb] 2(2,3) maxSize_kept(1) [of H q "kBuckets (table s) ! i"] by simp
  qed (use c in simp)
  show ?thesis
  proof (cases p)
    case (AddNew tid addr now)
    then show ?thesis using add [OF surjective_pairing] by (simp add: Let_def)
  next
    case (AddAgain q)
    then show ?thesis using add [OF surjective_pairing] c by simp
  next
    case (Search now tid cnt)
    have "table_inv (hp s) (table s)" using s by (simp add: sys_inv_def)
    from FindClosest_keeps(1) [OF this surjective_pairing, of now tid cnt]
    obtain lc where "snd (FindClosestNodes (hp s) now tid cnt (table s)) = (table s)\<lparr>lookupCache := lc\<rparr>" by blast
    then show ?thesis using c Search by simp
  next
    case (Prune nt pt now)
    have "pruneDeadNodes nt pt now (hp s, table s) = fold (prune_step nt pt now) [0..<256] (hp s, table s)"
      unfolding pruneDeadNodes_def prune_step_def ..
    then show ?thesis
      using prune_steps_configured [OF c, of 256 nt pt now "hp s"] l Prune by (simp add: case_prod_beta)
  qed (use c in simp_all)
qed

lemma configured_start: "configured self sz (table (rt_start H self sz))"
  by (auto simp: rt_start_def configured_def NewRoutingTable_def NewKBucket_def simp del: upt_rec_numeral)

lemma reach_configured: "0 \<le> sz \<Longrightarrow> configured self sz (table (fold rt_step ops (rt_start H self sz)))"
  by (rule rts.stable_run [where P = "\<lambda>s. configured self sz (table s)", OF step_configured])
    (simp_all add: sys_inv_start configured_start)

definition is_Prune :: "'a rt_op \<Rightarrow> bool" where
  "is_Prune p = (case p of Prune _ _ _ \<Rightarrow> True | _ \<Rightarrow> False)"

lemma reach_cache_true:
  assumes "0 \<le> sz" "\<not> list_ex is_Prune ops"
  shows "cache_true (hp (fold rt_step ops (rt_start H self sz))) (table (fold rt_step ops (rt_start H self sz)))"
proof -
  have "cache_true (hp s) (table s) \<Longrightarrow> sys_inv s \<Longrightarrow> \<not> list_ex is_Prune ops \<Longrightarrow>
      cache_true (hp (fold rt_step ops s)) (table (fold rt_step ops s))" for s :: "'a rt_state"
  proof (induction ops arbitrary: s)
    case (Cons p ops)
    have "p \<noteq> Prune nt pt now" for nt pt now using Cons.prems(3) by (auto simp: is_Prune_def)
    then show ?case using Cons step_keeps [OF Cons.prems(2), of p] by simp
  qed simp
  from this [OF _ sys_inv_start [OF assms(1)] assms(2), of H self]
  show ?thesis using cache_true_start [of H self sz] by (simp add: rt_start_def)
qed

section \<open>An example\<close>

text \<open>A table with the nodes of the keys 1 and 2, the first of them marked as bad at time 0.\<close>

definition ex_id :: "key32 \<Rightarrow> ToxID" where
  "ex_id k = \<lparr>PublicKey = k, Nospam = 0, Checksum = 0\<rparr>"

definition ex_ops :: "nat rt_op list" where
  "ex_ops = [AddNew (ex_id 1) None 0, AddNew (ex_id 2) None 0, Mark 0 0 StatusBad]"

definition ex_heap :: "nat nodes" where "ex_heap = (\<lambda>_. createTargetNode (ex_id 0))"

definition ex_state :: "nat rt_state" where
  "ex_state = fold rt_step ex_ops (rt_start ex_heap (ex_id 0) 8)"

definition ex_cache :: LookupCache where
  "ex_cache = NewLookupCache DefaultLookupCacheTTL DefaultLookupCacheMaxSize"

lemma ex_facts:
  "GetAllNodes (table ex_state) = [1, 0] \<and> lookupCache (table ex_state) = Some ex_cache \<and>
   NodeKey (hp ex_state 0) = 1 \<and> NodeKey (hp ex_state 1) = 2 \<and>
   dead 100 100 1000 (hp ex_state 0) \<and> \<not> dead 100 100 1000 (hp ex_state 1) \<and> \<not> list_ex is_Prune ex_ops"
  by code_simp

lemma ex_cache_facts: "entries_of (order ex_cache) = []" "ttl ex_cache = 30000000000"
  by (simp_all add: ex_cache_def cache_inv_New) (simp add: NewLookupCache_def)

section \<open>Properties\<close>

text \<open>
  C4. In every state that additions, searches, ping results, status changes and pruning reach, the search without the
  cache returns exactly the \<open>cnt\<close> nodes of the table that are closest to the target by the exclusive or of the keys
  (all of them, if there are fewer), the closest first.
\<close>

theorem closest_nodes_found:
  assumes "0 \<le> sz" and s: "s = fold rt_step ops (rt_start H self sz)"
  shows "FindClosestNodesNoCache (hp s) tid cnt (table s) =
    take (nat cnt) (sort_key (\<lambda>p. NodeKey (hp s p) XOR PublicKey tid) (GetAllNodes (table s)))"
proof (cases "0 < cnt")
  case True
  have "rt_inv (hp s) (table s)" by (rule reach_table [OF assms(1) s])
  from found_is_prefix [OF this True] show ?thesis using True by (simp add: FindClosestNodesNoCache_def)
qed (simp add: FindClosestNodesNoCache_def)

theorem closest_nodes_found_witness:
  "FindClosestNodesNoCache (hp ex_state) (ex_id 3) 1 (table ex_state) = [1]"
proof -
  have "sort_key (\<lambda>p. NodeKey (hp ex_state p) XOR PublicKey (ex_id 3)) [1, 0] = [1, 0]"
    using ex_facts by (simp add: ex_id_def)
  then show ?thesis
    using closest_nodes_found [of 8 ex_state ex_ops ex_heap "ex_id 0" "ex_id 3" 1] ex_facts
    by (simp add: ex_state_def)
qed

text \<open>
  C5. In every such state the table has 256 buckets; bucket \<open>i\<close> holds at most the configured number of nodes, each at a
  distance from the local key whose highest bit is bit \<open>255 - i\<close>; no two nodes of the table have the same key and none
  has the local one.
\<close>

theorem routing_table_invariant:
  assumes "0 \<le> sz" and s: "s = fold rt_step ops (rt_start H self sz)"
  shows "length (kBuckets (table s)) = 256 \<and> distinct (map (\<lambda>p. NodeKey (hp s p)) (GetAllNodes (table s))) \<and>
    PublicKey self \<notin> (\<lambda>p. NodeKey (hp s p)) ` set (GetAllNodes (table s)) \<and>
    (\<forall>i<256. int (length (knodes (kBuckets (table s) ! i))) \<le> sz \<and>
      (\<forall>p\<in>set (knodes (kBuckets (table s) ! i)). computeBucketIndex self (hp s p) = i))"
proof -
  have r: "rt_inv (hp s) (table s)" by (rule reach_table [OF assms(1) s])
  have c: "configured self sz (table s)" unfolding s by (rule reach_configured [OF assms(1)])
  have l: "length (kBuckets (table s)) = 256" using r by (simp add: rt_inv_def)
  have b: "bucket_ok (hp s) self i (kBuckets (table s) ! i)" "maxSize (kBuckets (table s) ! i) = sz" if "i < 256" for i
    using r c l that by (auto simp: rt_inv_def configured_def)
  have "NodeKey (hp s p) \<noteq> PublicKey self" if mem: "p \<in> set (GetAllNodes (table s))" for p
  proof -
    obtain i where "i < 256" "p \<in> set (bucket_nodes (table s) i)"
      using mem l unfolding GetAllNodes_nth by auto
    then show ?thesis using b(1) by (simp add: bucket_ok_def)
  qed
  then have "PublicKey self \<notin> (\<lambda>p. NodeKey (hp s p)) ` set (GetAllNodes (table s))" by (metis imageE)
  then show ?thesis using keys_distinct [OF r] l b by (simp add: bucket_ok_def)
qed

theorem routing_table_invariant_witness:
  "distinct (map (\<lambda>p. NodeKey (hp ex_state p)) [1, 0]) \<and> int (length (knodes (kBuckets (table ex_state) ! 0))) \<le> 8"
  using routing_table_invariant [of 8 ex_state ex_ops ex_heap "ex_id 0"] ex_facts by (simp add: ex_state_def)



text \<open>
  As long as no pruning has taken place, a search through the cache returns a non-empty beginning of the list of the
  closest nodes, whatever was cached, of at most \<open>cnt\<close> nodes; it never returns a node that is not in the table and never
  passes over a closer one.
\<close>

theorem cached_search_is_prefix:
  assumes "0 \<le> sz" and s: "s = fold rt_step ops (rt_start H self sz)" and "\<not> list_ex is_Prune ops" and "0 < cnt"
  shows "\<exists>c. 0 < c \<and> c \<le> nat cnt \<and> fst (FindClosestNodes (hp s) now tid cnt (table s)) =
    take c (sort_key (\<lambda>p. NodeKey (hp s p) XOR PublicKey tid) (GetAllNodes (table s)))"
proof -
  have t: "table_inv (hp s) (table s)" by (rule reach_table [OF assms(1) s])
  show ?thesis
    using FindClosest_keeps(2) [OF t surjective_pairing _ assms(4)] reach_cache_true [OF assms(1,3)] unfolding s .
qed

theorem cached_search_is_prefix_witness:
  "\<exists>c. 0 < c \<and> c \<le> 1 \<and> fst (FindClosestNodes (hp ex_state) 0 (ex_id 3) 1 (table ex_state)) =
     take c (sort_key (\<lambda>p. NodeKey (hp ex_state p) XOR 3) [1, 0])"
  using cached_search_is_prefix [of 8 ex_state ex_ops ex_heap "ex_id 0" 1 0 "ex_id 3"] ex_facts
  by (simp add: ex_state_def) (simp add: ex_id_def)

lemma fresh_search:
  assumes t: "table_inv H rt" and lc: "lookupCache rt = Some lc" and k: "PublicKey tid \<notin> ekey ` set (cached lc)"
    and cnt: "0 < cnt" and ne: "GetAllNodes rt \<noteq> []"
    and ns: "ns = take (nat cnt) (ranking H (PublicKey tid) rt)"
  shows "\<exists>lc' rest. FindClosestNodes H now tid cnt rt = (ns, rt\<lparr>lookupCache := Some lc'\<rparr>) \<and> cache_inv lc' \<and> ttl lc' = ttl lc \<and>
    cached lc' = \<lparr>ekey = PublicKey tid, enodes = ns, timestamp = now\<rparr> # rest"
proof -
  have ci: "cache_inv lc" using t lc by (simp add: table_inv_def)
  let ?lc = "lc\<lparr>misses := misses lc + 1\<rparr>" and ?k = "PublicKey tid"
  have ci1: "cache_inv ?lc" using ci by (simp add: cache_inv_def)
  have g: "getCachedClosestNodes now ?k cnt rt = (None, rt\<lparr>lookupCache := Some ?lc\<rparr>)"
    using lc lc_Get_miss [OF ci k, of now] by (simp add: getCachedClosestNodes_def)
  have r: "rt_inv H (rt\<lparr>lookupCache := Some ?lc\<rparr>)" using t by (simp add: table_inv_def)
  have found: "extractSortedNodes (buildNodeHeap H (rt\<lparr>lookupCache := Some ?lc\<rparr>) (createTargetNode tid) cnt) = ns"
    using found_is_prefix [OF r cnt, of tid] by (simp add: ns)
  have "ns \<noteq> []" using ne cnt by (simp add: ns) (metis length_0_conv length_sort)
  then have f: "FindClosestNodes H now tid cnt rt = (ns, rt\<lparr>lookupCache := Some (lc_Put now ?k ns ?lc)\<rparr>)"
    using cnt g found by (simp add: FindClosestNodes_def Let_def cacheClosestNodes_def)
  note put = lc_Put_list [OF ci1 refl, of now ?k ns]
  have "0 < nat (cmaxSize ?lc)" using ci by (simp add: cache_inv_def)
  then obtain m where "nat (cmaxSize ?lc) = Suc m" using gr0_implies_Suc by blast
  then show ?thesis using f put by auto
qed

lemma hit_search:
  assumes t: "cache_inv lc" and rt: "lookupCache rt = Some lc" and e: "e \<in> set (cached lc)" "ekey e = PublicKey tid"
    and "now - timestamp e \<le> ttl lc" "0 < cnt"
  shows "fst (FindClosestNodes H now tid cnt rt) = (if int (length (enodes e)) > cnt then take (nat cnt) (enodes e) else enodes e)"
proof -
  obtain r lc1 where g: "lc_Get now (ekey e) lc = (r, lc1)" by (cases "lc_Get now (ekey e) lc")
  have "r = Some (enodes e)" using lc_Get_entry(3) [OF t e(1) g] assms(5) by simp
  then show ?thesis using g rt e(2) assms(6) by (simp add: FindClosestNodes_def getCachedClosestNodes_def)
qed

text \<open>
  The cache forgets for how many nodes a search was made: after a search for \<open>few\<close> nodes, a search for \<open>many > few\<close>
  nodes near the same target within the lifetime of the entry (30 seconds) returns only \<open>few\<close> nodes, although the table
  has more.
\<close>

theorem cached_search_too_short:
  assumes "0 \<le> sz" and s: "s = fold rt_step ops (rt_start H self sz)"
    and lc: "lookupCache (table s) = Some lc" and miss: "PublicKey tid \<notin> ekey ` set (entries_of (order lc))"
    and few: "0 < few" "few < many" and enough: "few < int (length (GetAllNodes (table s)))"
    and t: "s' = rt_step (Search now tid few) s" "now' - now \<le> ttl lc"
  shows "int (length (fst (FindClosestNodes (hp s') now' tid many (table s')))) = few \<and>
    few < int (length (FindClosestNodesNoCache (hp s') tid many (table s')))"
proof -
  have ti: "table_inv (hp s) (table s)" by (rule reach_table [OF assms(1) s])
  define ns where "ns = take (nat few) (ranking (hp s) (PublicKey tid) (table s))"
  have ne: "GetAllNodes (table s) \<noteq> []" using enough few by auto
  obtain lc' rest where f: "FindClosestNodes (hp s) now tid few (table s) = (ns, (table s)\<lparr>lookupCache := Some lc'\<rparr>)"
      "cache_inv lc'" "ttl lc' = ttl lc" "entries_of (order lc') = \<lparr>ekey = PublicKey tid, enodes = ns, timestamp = now\<rparr> # rest"
    using fresh_search [OF ti lc miss few(1) ne ns_def, of now] by blast
  have st: "hp s' = hp s" "table s' = (table s)\<lparr>lookupCache := Some lc'\<rparr>" using t(1) f(1) by simp_all
  have len: "int (length ns) = few" using enough few(1) by (simp add: ns_def)
  have "fst (FindClosestNodes (hp s') now' tid many (table s')) = ns"
    using hit_search [OF f(2), of "table s'" "\<lparr>ekey = PublicKey tid, enodes = ns, timestamp = now\<rparr>" tid now' many] f(3,4) t(2) few st len
    by simp
  moreover have "rt_inv (hp s') (table s')" using ti st by (simp add: table_inv_def)
  from found_is_prefix [OF this, of many tid] have "few < int (length (FindClosestNodesNoCache (hp s') tid many (table s')))"
    using few enough by (simp add: FindClosestNodesNoCache_def st)
  ultimately show ?thesis using len by simp
qed

theorem cached_search_too_short_witness:
  "int (length (fst (FindClosestNodes (hp (rt_step (Search 0 (ex_id 3) 1) ex_state)) 1 (ex_id 3) 2
     (table (rt_step (Search 0 (ex_id 3) 1) ex_state))))) = 1"
  using cached_search_too_short [of 8 ex_state ex_ops ex_heap "ex_id 0" ex_cache "ex_id 3" 1 2
      "rt_step (Search 0 (ex_id 3) 1) ex_state" 0 1] ex_facts
  by (simp add: ex_state_def ex_cache_facts del: rt_step.simps)

text \<open>
  Pruning leaves the cache alone: a dead node that a search returned before it was pruned from the table is still
  returned by the same search, as long as the cached entry lives.
\<close>

theorem pruned_node_still_returned:
  assumes "0 \<le> sz" and s: "s = fold rt_step ops (rt_start H self sz)"
    and lc: "lookupCache (table s) = Some lc" and miss: "PublicKey tid \<notin> ekey ` set (entries_of (order lc))"
    and cnt: "0 < cnt" and p: "p \<in> set (fst (FindClosestNodes (hp s) now tid cnt (table s)))" "dead nt pt now' (hp s p)"
    and t: "s' = fold rt_step [Search now tid cnt, Prune nt pt now'] s" "now' - now \<le> ttl lc"
  shows "p \<notin> set (GetAllNodes (table s')) \<and> p \<in> set (fst (FindClosestNodes (hp s') now' tid cnt (table s')))"
proof -
  have ti: "table_inv (hp s) (table s)" by (rule reach_table [OF assms(1) s])
  define ns where "ns = take (nat cnt) (ranking (hp s) (PublicKey tid) (table s))"
  have ne: "GetAllNodes (table s) \<noteq> []"
  proof
    assume "GetAllNodes (table s) = []"
    moreover have "lc_Get now (PublicKey tid) lc = (None, lc\<lparr>misses := misses lc + 1\<rparr>)"
      using ti lc miss by (intro lc_Get_miss) (simp_all add: table_inv_def)
    moreover have "rt_inv (hp s) ((table s)\<lparr>lookupCache := Some (lc\<lparr>misses := misses lc + 1\<rparr>)\<rparr>)" using ti by (simp add: table_inv_def)
    note found_is_prefix [OF this cnt, of tid]
    ultimately show False using p(1) lc cnt by (simp add: FindClosestNodes_def getCachedClosestNodes_def Let_def)
  qed
  obtain lc' rest where f: "FindClosestNodes (hp s) now tid cnt (table s) = (ns, (table s)\<lparr>lookupCache := Some lc'\<rparr>)"
      "cache_inv lc'" "ttl lc' = ttl lc" "entries_of (order lc') = \<lparr>ekey = PublicKey tid, enodes = ns, timestamp = now\<rparr> # rest"
    using fresh_search [OF ti lc miss cnt ne ns_def, of now] by blast
  let ?rt = "(table s)\<lparr>lookupCache := Some lc'\<rparr>"
  obtain H' rt' where pr: "pruneDeadNodes nt pt now' (hp s, ?rt) = (H', rt')" by (cases "pruneDeadNodes nt pt now' (hp s, ?rt)")
  have "rt_inv (hp s) ?rt" using ti by (simp add: table_inv_def)
  note e = pruneDeadNodes_effect [OF this pr]
  have st: "hp s' = H'" "table s' = rt'" using t(1) f(1) pr by simp_all
  have "p \<notin> set (GetAllNodes rt')" using arg_cong [OF e(5), of set_mset] p(2) by auto
  moreover have "fst (FindClosestNodes H' now' tid cnt rt') = ns"
    using hit_search [OF f(2), of rt' "\<lparr>ekey = PublicKey tid, enodes = ns, timestamp = now\<rparr>" tid now' cnt H'] f(3,4) t(2) cnt e(4)
    by (simp add: ns_def)
  ultimately show ?thesis using p(1) f(1) by (simp add: st)
qed

theorem pruned_node_still_returned_witness:
  "0 \<in> set (fst (FindClosestNodes (hp (fold rt_step [Search 0 (ex_id 3) 2, Prune 100 100 1000] ex_state)) 1000 (ex_id 3) 2
     (table (fold rt_step [Search 0 (ex_id 3) 2, Prune 100 100 1000] ex_state))))"
proof -
  have t: "table_inv (hp ex_state) (table ex_state)"
    by (rule reach_table [where sz = 8 and ops = ex_ops]) (simp_all add: ex_state_def)
  have ns: "[1, 0] = take (nat 2) (ranking (hp ex_state) (PublicKey (ex_id 3)) (table ex_state))"
    using ex_facts by (simp add: ex_id_def)
  have "\<exists>lc' rest. FindClosestNodes (hp ex_state) 0 (ex_id 3) 2 (table ex_state) = ([1, 0], (table ex_state)\<lparr>lookupCache := Some lc'\<rparr>) \<and>
      cache_inv lc' \<and> ttl lc' = ttl ex_cache \<and> cached lc' = \<lparr>ekey = PublicKey (ex_id 3), enodes = [1, 0], timestamp = 0\<rparr> # rest"
    by (rule fresh_search [OF t _ _ _ _ ns]) (use ex_facts ex_cache_facts in simp_all)
  then have "0 \<in> set (fst (FindClosestNodes (hp ex_state) 0 (ex_id 3) 2 (table ex_state)))" by auto
  then show ?thesis
    using pruned_node_still_returned [of 8 ex_state ex_ops ex_heap "ex_id 0" ex_cache "ex_id 3" 2 0 0 100 100 1000
      "fold rt_step [Search 0 (ex_id 3) 2, Prune 100 100 1000] ex_state"] ex_facts
    by (simp add: ex_state_def ex_cache_facts del: rt_step.simps fold_simps)
qed

end
