(* ===== verification/Session_Cache.thy ===== *)
theory Session_Cache
  imports Container_List
begin

text \<open>
  The cache of Noise sessions, \<^verbatim>\<open>transport/lru_session_cache.go\<close>: a map from addresses to elements of a list in the
  order of use. It refines the textbook least-recently-used cache, a list of pairs whose front is the most recent.
\<close>

section \<open>The cache\<close>

record 's sessionEntry =
  skey :: string
  session :: 's

record 's LRUSessionCache =
  scap :: int
  items :: "(string, nat) gomap"
  sorder :: "'s sessionEntry golist"
  shits :: u64
  smisses :: u64
  sevictions :: u64

abbreviation (input) MinMaxSessions :: int where "MinMaxSessions \<equiv> 100"
abbreviation (input) DefaultMaxSessions :: int where "DefaultMaxSessions \<equiv> 10000"

definition NewLRUSessionCache :: "int \<Rightarrow> 's LRUSessionCache" where
  "NewLRUSessionCache maxSessions =
     \<lparr>scap = (if maxSessions < MinMaxSessions then MinMaxSessions else maxSessions), items = [], sorder = list_New,
      shits = 0, smisses = 0, sevictions = 0\<rparr>"

definition sc_Get :: "string \<Rightarrow> 's LRUSessionCache \<Rightarrow> 's option \<times> 's LRUSessionCache" where
  "sc_Get addrKey c =
     (case mget (items c) addrKey of
        None \<Rightarrow> (None, c\<lparr>smisses := smisses c + 1\<rparr>)
      | Some elem \<Rightarrow>
          (let c1 = c\<lparr>shits := shits c + 1, sorder := MoveToFront elem (sorder c)\<rparr>
           in (map_option session (elem_Value (sorder c1) elem), c1)))"

definition evictOldest :: "'s LRUSessionCache \<Rightarrow> 's option \<times> 's LRUSessionCache" where
  "evictOldest c =
     (case Back (sorder c) of
        None \<Rightarrow> (None, c)
      | Some (back, entry) \<Rightarrow>
          (Some (session entry),
           c\<lparr>sorder := list_Remove back (sorder c), items := mdel (skey entry) (items c), sevictions := sevictions c + 1\<rparr>))"

definition sc_Put :: "string \<Rightarrow> 's \<Rightarrow> 's LRUSessionCache \<Rightarrow> 's option \<times> 's LRUSessionCache" where
  "sc_Put addrKey sess c =
     (case mget (items c) addrKey of
        Some elem \<Rightarrow>
          (let l = MoveToFront elem (sorder c)
           in case elem_Value l elem of
                None \<Rightarrow> (None, c\<lparr>sorder := l\<rparr>)
              | Some entry \<Rightarrow> (Some (session entry), c\<lparr>sorder := set_Value elem (entry\<lparr>session := sess\<rparr>) l\<rparr>))
      | None \<Rightarrow>
          (let (evicted, c1) = (if int (list_Len (sorder c)) \<ge> scap c then evictOldest c else (None, c));
               (elem, l) = PushFront \<lparr>skey = addrKey, session = sess\<rparr> (sorder c1)
           in (evicted, c1\<lparr>sorder := l, items := mput addrKey elem (items c1)\<rparr>)))"

definition sc_Delete :: "string \<Rightarrow> 's LRUSessionCache \<Rightarrow> 's option \<times> 's LRUSessionCache" where
  "sc_Delete addrKey c =
     (case mget (items c) addrKey of
        None \<Rightarrow> (None, c)
      | Some elem \<Rightarrow>
          (case elem_Value (sorder c) elem of
             None \<Rightarrow> (None, c)
           | Some entry \<Rightarrow>
               (Some (session entry), c\<lparr>sorder := list_Remove elem (sorder c), items := mdel (skey entry) (items c)\<rparr>)))"

definition sc_Len :: "'s LRUSessionCache \<Rightarrow> nat" where
  "sc_Len c = list_Len (sorder c)"

definition sc_Clear :: "'s LRUSessionCache \<Rightarrow> 's LRUSessionCache" where
  "sc_Clear c = c\<lparr>items := [], sorder := list_New\<rparr>"

definition Oldest :: "'s LRUSessionCache \<Rightarrow> 's option" where
  "Oldest c = (case Back (sorder c) of None \<Rightarrow> None | Some (_, entry) \<Rightarrow> Some (session entry))"

definition Touch :: "string \<Rightarrow> 's LRUSessionCache \<Rightarrow> bool \<times> 's LRUSessionCache" where
  "Touch addrKey c =
     (case mget (items c) addrKey of
        None \<Rightarrow> (False, c)
      | Some elem \<Rightarrow> (True, c\<lparr>sorder := MoveToFront elem (sorder c)\<rparr>))"

text \<open>The visited entries of \<^verbatim>\<open>Range\<close>, up to the first for which the callback returns false.\<close>

fun range_loop :: "(string \<Rightarrow> 's \<Rightarrow> bool) \<Rightarrow> 's sessionEntry list \<Rightarrow> (string \<times> 's) list" where
  "range_loop fn [] = []"
| "range_loop fn (e # es) = (skey e, session e) # (if \<not> fn (skey e) (session e) then [] else range_loop fn es)"

definition sc_Range :: "(string \<Rightarrow> 's \<Rightarrow> bool) \<Rightarrow> 's LRUSessionCache \<Rightarrow> (string \<times> 's) list" where
  "sc_Range fn c = range_loop fn (entries_of (sorder c))"

section \<open>The specification\<close>

datatype 's cache_op =
    OpGet string
  | OpPut string 's
  | OpDelete string
  | OpTouch string
  | OpOldest
  | OpClear

text \<open>A call of the cache: its answer, and the cache after it. The answer of \<^verbatim>\<open>Touch\<close> is whether the key is there.\<close>

datatype 's cache_answer = Session "'s option" | Found bool | NoAnswer

fun cache_call :: "'s cache_op \<Rightarrow> 's LRUSessionCache \<Rightarrow> 's cache_answer \<times> 's LRUSessionCache" where
  "cache_call (OpGet k) c = (let (r, c1) = sc_Get k c in (Session r, c1))"
| "cache_call (OpPut k s) c = (let (r, c1) = sc_Put k s c in (Session r, c1))"
| "cache_call (OpDelete k) c = (let (r, c1) = sc_Delete k c in (Session r, c1))"
| "cache_call (OpTouch k) c = (let (r, c1) = Touch k c in (Found r, c1))"
| "cache_call OpOldest c = (Session (Oldest c), c)"
| "cache_call OpClear c = (NoAnswer, sc_Clear c)"

definition to_front :: "string \<Rightarrow> (string \<times> 's) list \<Rightarrow> (string \<times> 's) list" where
  "to_front k xs = filter (\<lambda>e. fst e = k) xs @ filter (\<lambda>e. fst e \<noteq> k) xs"

fun lru_call :: "int \<Rightarrow> 's cache_op \<Rightarrow> (string \<times> 's) list \<Rightarrow> 's cache_answer \<times> (string \<times> 's) list" where
  "lru_call cap (OpGet k) xs = (Session (map_of xs k), to_front k xs)"
| "lru_call cap (OpPut k s) xs =
     (case map_of xs k of
        Some old \<Rightarrow> (Session (Some old), (k, s) # filter (\<lambda>e. fst e \<noteq> k) xs)
      | None \<Rightarrow> if int (length xs) < cap then (Session None, (k, s) # xs)
                else (Session (Some (snd (List.last xs))), (k, s) # butlast xs))"
| "lru_call cap (OpDelete k) xs = (Session (map_of xs k), filter (\<lambda>e. fst e \<noteq> k) xs)"
| "lru_call cap (OpTouch k) xs = (Found (k \<in> fst ` set xs), to_front k xs)"
| "lru_call cap OpOldest xs = (Session (if xs = [] then None else Some (snd (List.last xs))), xs)"
| "lru_call cap OpClear xs = (NoAnswer, [])"

text \<open>The answers to a sequence of calls, and the state after it.\<close>

primrec run_calls :: "('o \<Rightarrow> 'c \<Rightarrow> 'r \<times> 'c) \<Rightarrow> 'o list \<Rightarrow> 'c \<Rightarrow> 'r list \<times> 'c" where
  "run_calls call [] c = ([], c)"
| "run_calls call (p # ps) c = (let (r, c1) = call p c; (rs, c2) = run_calls call ps c1 in (r # rs, c2))"

section \<open>Refinement\<close>

definition pairs :: "'s LRUSessionCache \<Rightarrow> (string \<times> 's) list" where
  "pairs c = map (\<lambda>e. (skey e, session e)) (entries_of (sorder c))"

definition sc_inv :: "'s LRUSessionCache \<Rightarrow> bool" where
  "sc_inv c \<longleftrightarrow> indexed skey (items c) (sorder c) \<and> int (list_Len (sorder c)) \<le> scap c \<and> 0 < scap c"

lemma pairs_update [simp]:
  "pairs (c\<lparr>sorder := l\<rparr>) = map (\<lambda>e. (skey e, session e)) (entries_of l)"
  "pairs (c\<lparr>items := m\<rparr>) = pairs c" "pairs (c\<lparr>shits := h\<rparr>) = pairs c" "pairs (c\<lparr>smisses := h\<rparr>) = pairs c"
  "pairs (c\<lparr>sevictions := h\<rparr>) = pairs c"
  by (simp_all add: pairs_def)

lemma length_pairs [simp]: "length (pairs c) = list_Len (sorder c)"
  by (simp add: pairs_def)

lemma fst_pairs: "map fst (pairs c) = map skey (entries_of (sorder c))"
  by (simp add: pairs_def comp_def)

lemma filter_pairs:
  "map (\<lambda>e. (skey e, session e)) (filter (\<lambda>e. skey e \<noteq> k) (entries_of (sorder c))) = filter (\<lambda>e. fst e \<noteq> k) (pairs c)"
  by (simp add: pairs_def filter_map comp_def)

lemma filter_key_single: "distinct (map fst xs) \<Longrightarrow> (k, v) \<in> set xs \<Longrightarrow> filter (\<lambda>e. fst e = k) xs = [(k, v)]"
proof (induction xs)
  case (Cons x xs)
  show ?case
  proof (cases "x = (k, v)")
    case True
    then have "filter (\<lambda>e. fst e = k) xs = []" using Cons.prems(1) by (force intro: filter_False)
    then show ?thesis using True by simp
  next
    case False
    then have mem: "(k, v) \<in> set xs" using Cons.prems(2) by simp
    then have "k \<in> fst ` set xs" by force
    then have "fst x \<noteq> k" using Cons.prems(1) by auto
    then show ?thesis using Cons.IH mem Cons.prems(1) by simp
  qed
qed simp

lemma pairs_lookup:
  assumes "sc_inv c"
  obtains "mget (items c) k = None" "map_of (pairs c) k = None" "k \<notin> fst ` set (pairs c)" "filter (\<lambda>e. fst e \<noteq> k) (pairs c) = pairs c"
      "filter (\<lambda>e. fst e = k) (pairs c) = []"
  | e v where "mget (items c) k = Some e" "elem_Value (sorder c) e = Some v" "skey v = k" "v \<in> set (entries_of (sorder c))"
      "map_of (pairs c) k = Some (session v)" "k \<in> fst ` set (pairs c)" "filter (\<lambda>e. fst e = k) (pairs c) = [(k, session v)]"
proof -
  have ix: "indexed skey (items c) (sorder c)" using assms by (simp add: sc_inv_def)
  have keys: "fst ` set (pairs c) = skey ` set (entries_of (sorder c))" using arg_cong [OF fst_pairs, of set] by simp
  have d: "distinct (map fst (pairs c))" using indexed_distinct [OF ix] by (simp add: fst_pairs)
  show thesis
  proof (cases "mget (items c) k")
    case None
    then have "k \<notin> fst ` set (pairs c)" using indexed_none [OF ix, of k] keys by simp
    then show ?thesis
      using that(1) [OF None] by (auto simp: map_of_eq_None_iff intro!: filter_True filter_False)
  next
    case (Some e)
    obtain v where v: "elem_Value (sorder c) e = Some v" "skey v = k" "v \<in> set (entries_of (sorder c))"
      using indexed_lookup [OF ix Some] by blast
    then have mem: "(k, session v) \<in> set (pairs c)" by (auto simp: pairs_def)
    then have m: "map_of (pairs c) k = Some (session v)" using d by simp
    have "filter (\<lambda>e. fst e = k) (pairs c) = [(k, session v)]"
      by (rule filter_key_single [OF d mem])
    then show ?thesis using that(2) [OF Some v m] mem by force
  qed
qed

lemma length_filter_pairs:
  assumes "sc_inv c" "k \<in> fst ` set (pairs c)"
  shows "Suc (length (filter (\<lambda>e. fst e \<noteq> k) (pairs c))) = list_Len (sorder c)"
proof -
  have "length (filter (\<lambda>e. fst e = k) (pairs c)) = 1"
    using assms by (cases rule: pairs_lookup [OF assms(1), of k]) simp_all
  then show ?thesis using sum_length_filter_compl [of "\<lambda>e. fst e = k" "pairs c"] by simp
qed

lemma moved:
  assumes inv: "sc_inv c" and e: "mget (items c) k = Some e" "elem_Value (sorder c) e = Some v" "skey v = k"
    and f: "filter (\<lambda>e. fst e = k) (pairs c) = [(k, session v)]" and k: "k \<in> fst ` set (pairs c)"
  shows "indexed skey (items c) (MoveToFront e (sorder c))"
    "map (\<lambda>e. (skey e, session e)) (entries_of (MoveToFront e (sorder c))) = to_front k (pairs c)"
    "elem_Value (MoveToFront e (sorder c)) e = Some v" "list_Len (MoveToFront e (sorder c)) = list_Len (sorder c)"
proof -
  have "indexed skey (items c) (sorder c)" using inv by (simp add: sc_inv_def)
  note mv = indexed_MoveToFront [OF this e(1,2)]
  show "indexed skey (items c) (MoveToFront e (sorder c))" "elem_Value (MoveToFront e (sorder c)) e = Some v" by (rule mv)+
  show m: "map (\<lambda>e. (skey e, session e)) (entries_of (MoveToFront e (sorder c))) = to_front k (pairs c)"
    using f e(3) by (simp add: mv(2) to_front_def filter_pairs)
  show "list_Len (MoveToFront e (sorder c)) = list_Len (sorder c)"
    using arg_cong [OF m, of length] sum_length_filter_compl [of "\<lambda>e. fst e = k" "pairs c"] by (simp add: to_front_def)
qed

lemma put_simulated:
  assumes inv: "sc_inv c" and p: "sc_Put k s c = (r, c')"
  shows "sc_inv c' \<and> scap c' = scap c \<and> lru_call (scap c) (OpPut k s) (pairs c) = (Session r, pairs c')"
proof (cases rule: pairs_lookup [OF inv, of k])
  case (2 e v)
  note mv = moved [OF inv 2(1-3) 2(7) 2(6)]
  let ?w = "v\<lparr>session := s\<rparr>"
  note st = indexed_set_Value [OF mv(1) 2(1), of ?w]
  have c': "c' = c\<lparr>sorder := set_Value e ?w (MoveToFront e (sorder c))\<rparr>" "r = Some (session v)"
    using p 2(1) mv(3) by (simp_all add: sc_Put_def)
  have "indexed skey (items c) (sorder c)" using inv by (simp add: sc_inv_def)
  note en = indexed_MoveToFront(2) [OF this 2(1,2)]
  have id: "map (\<lambda>x. if skey x = k then ?w else x) (filter (\<lambda>x. skey x \<noteq> k) (entries_of (sorder c))) =
      filter (\<lambda>x. skey x \<noteq> k) (entries_of (sorder c))"
    by (rule map_idI) auto
  have pr: "pairs c' = (k, s) # filter (\<lambda>e. fst e \<noteq> k) (pairs c)"
    using st(2) id 2(3) by (simp add: c'(1) en filter_pairs)
  moreover have "list_Len (sorder c') = list_Len (sorder c)"
    using arg_cong [OF pr, of length] length_filter_pairs [OF inv 2(6)] by simp
  ultimately show ?thesis using inv st(1) 2(3,5) c' by (simp add: sc_inv_def)
next
  case 1
  have ix: "indexed skey (items c) (sorder c)" using inv by (simp add: sc_inv_def)
  obtain ev c1 where ev: "(if int (list_Len (sorder c)) \<ge> scap c then evictOldest c else (None, c)) = (ev, c1)"
    by (metis surj_pair)
  have c1: "indexed skey (items c1) (sorder c1) \<and> scap c1 = scap c \<and> int (list_Len (sorder c1)) < scap c \<and> k \<notin> fst ` set (pairs c1) \<and>
     lru_call (scap c) (OpPut k s) (pairs c) = (Session ev, (k, s) # pairs c1)"
  proof (cases "int (list_Len (sorder c)) \<ge> scap c")
    case False
    then show ?thesis using ev ix 1 by simp
  next
    case True
    then have ne: "pairs c \<noteq> []" using inv by (auto simp: sc_inv_def simp flip: length_pairs)
    then obtain b v where b: "Back (sorder c) = Some (b, v)"
      using Back_None [of "sorder c"] by (cases "Back (sorder c)") (auto simp: pairs_def)
    note bk = indexed_Back [OF ix b]
    note rm = indexed_Remove [OF ix bk(1)]
    have e: "ev = Some (session v)" "c1 = c\<lparr>sorder := list_Remove b (sorder c), items := mdel (skey v) (items c), sevictions := sevictions c + 1\<rparr>"
      using ev True b by (simp_all add: evictOldest_def)
    have pr: "pairs c1 = butlast (pairs c)" using rm(2) bk(3) by (simp add: e(2) map_butlast pairs_def [of c])
    have "snd (List.last (pairs c)) = session v"
      using b ne by (auto simp: Back_def pairs_def entries_of_def last_map split: if_splits)
    moreover have "list_Len (sorder c1) = list_Len (sorder c) - 1" using arg_cong [OF pr, of length] by simp
    ultimately show ?thesis
      using rm(1) 1 True ne inv pr e by (auto simp: sc_inv_def dest: in_set_butlastD)
  qed
  obtain el l where pf: "PushFront \<lparr>skey = k, session = s\<rparr> (sorder c1) = (el, l)" by (metis surj_pair)
  have c': "c' = c1\<lparr>sorder := l, items := mput k el (items c1)\<rparr>" "r = ev"
    using p 1(1) ev pf by (simp_all add: sc_Put_def)
  have ix1: "indexed skey (items c1) (sorder c1)" using c1 by simp
  have "mget (items c1) k = None"
    using c1 indexed_none [OF ix1, of k] by (simp add: pairs_def image_comp comp_def)
  then have "mget (items c1) (skey \<lparr>skey = k, session = s\<rparr>) = None" by simp
  note push = indexed_PushFront [OF ix1 this pf]
  have pr: "pairs c' = (k, s) # pairs c1" using push(2) by (simp add: c' pairs_def [of c1])
  moreover have "list_Len (sorder c') = Suc (list_Len (sorder c1))" using arg_cong [OF pr, of length] by simp
  ultimately show ?thesis using push(1) c1 inv by (simp add: c' sc_inv_def)
qed

lemma call_simulated:
  assumes inv: "sc_inv c" and call: "cache_call p c = (r, c')"
  shows "sc_inv c' \<and> scap c' = scap c \<and> lru_call (scap c) p (pairs c) = (r, pairs c')"
proof -
  have ix: "indexed skey (items c) (sorder c)" using inv by (simp add: sc_inv_def)
  show ?thesis
  proof (cases p)
    case (OpGet k)
    show ?thesis
    proof (cases rule: pairs_lookup [OF inv, of k])
      case 1
      then show ?thesis using call OpGet inv by (auto simp: sc_Get_def sc_inv_def to_front_def pairs_def)
    next
      case (2 e v)
      note mv = moved [OF inv 2(1-3) 2(7) 2(6)]
      then show ?thesis using call OpGet inv 2(1,5) by (auto simp: sc_Get_def sc_inv_def)
    qed
  next
    case (OpPut k s)
    obtain r1 c1 where c1: "sc_Put k s c = (r1, c1)" by (cases "sc_Put k s c")
    then have "r = Session r1" "c' = c1" using call OpPut by simp_all
    then show ?thesis using put_simulated [OF inv c1] unfolding OpPut by simp
  next
    case (OpDelete k)
    show ?thesis
    proof (cases rule: pairs_lookup [OF inv, of k])
      case 1
      then show ?thesis using call OpDelete inv by (auto simp: sc_Delete_def)
    next
      case (2 e v)
      note rm = indexed_Remove [OF ix 2(1)]
      have c': "c' = c\<lparr>sorder := list_Remove e (sorder c), items := mdel k (items c)\<rparr>" "r = Session (Some (session v))"
        using call OpDelete 2 by (auto simp: sc_Delete_def)
      have pr: "pairs c' = filter (\<lambda>e. fst e \<noteq> k) (pairs c)" using rm(2) by (simp add: c' filter_pairs)
      have "list_Len (sorder c') \<le> list_Len (sorder c)"
        using arg_cong [OF pr, of length] length_filter_le [of "\<lambda>e. fst e \<noteq> k" "pairs c"] by simp
      then show ?thesis using rm(1) inv pr OpDelete 2(5) by (simp add: sc_inv_def c')
    qed
  next
    case (OpTouch k)
    show ?thesis
    proof (cases rule: pairs_lookup [OF inv, of k])
      case 1
      then show ?thesis using call OpTouch inv by (auto simp: Touch_def to_front_def)
    next
      case (2 e v)
      note mv = moved [OF inv 2(1-3) 2(7) 2(6)]
      then show ?thesis using call OpTouch inv 2(1,6) by (auto simp: Touch_def sc_inv_def)
    qed
  next
    case OpOldest
    then show ?thesis
      using call inv by (auto simp: Oldest_def Back_def pairs_def entries_of_def last_map split: prod.splits)
  next
    case OpClear
    then show ?thesis using call inv by (auto simp: sc_Clear_def sc_inv_def indexed_New pairs_def)
  qed
qed

lemma run_simulated:
  "sc_inv c \<Longrightarrow> run_calls cache_call ps c = (rs, c') \<Longrightarrow>
     sc_inv c' \<and> run_calls (lru_call (scap c)) ps (pairs c) = (rs, pairs c')"
proof (induction ps arbitrary: c rs)
  case (Cons p ps)
  obtain r c1 where c1: "cache_call p c = (r, c1)" by (cases "cache_call p c")
  obtain rs1 c2 where c2: "run_calls cache_call ps c1 = (rs1, c2)" by (cases "run_calls cache_call ps c1")
  have "sc_inv c1 \<and> scap c1 = scap c \<and> lru_call (scap c) p (pairs c) = (r, pairs c1)" by (rule call_simulated [OF Cons.prems(1) c1])
  then show ?case using Cons.IH [of c1 rs1] Cons.prems(2) c1 c2 by auto
qed simp

lemma sc_inv_New: "sc_inv (NewLRUSessionCache n)" "pairs (NewLRUSessionCache n) = []"
  "scap (NewLRUSessionCache n) = max n 100"
  by (auto simp: sc_inv_def NewLRUSessionCache_def indexed_New pairs_def)

text \<open>
  C34. The session cache, from its creation on and for every sequence of calls, gives the answers of the textbook
  least-recently-used cache of \<open>max n 100\<close> entries: a list of pairs with the most recently used at the front, in which a
  read moves its entry to the front, a new entry displaces the last one when the list is full, and the displaced or
  replaced session is handed back. Its contents are that list.
\<close>

theorem cache_refines_lru:
  "run_calls (lru_call (max n 100)) ps [] =
     (fst (run_calls cache_call ps (NewLRUSessionCache n)), pairs (snd (run_calls cache_call ps (NewLRUSessionCache n))))"
  using run_simulated [OF sc_inv_New(1) surjective_pairing, of ps n] by (simp add: sc_inv_New)

end
