(* ===== verification/Signature.thy ===== *)
theory Signature
  imports Tox_Prelude
begin

text \<open>
  Ed25519 signatures (\<^verbatim>\<open>crypto/ed25519.go\<close>). The algorithm itself is Go's
  \<^verbatim>\<open>crypto/ed25519\<close> and is a parameter: the public half of the key that
  \<^verbatim>\<open>NewKeyFromSeed\<close> makes from a seed, signing with that key, and verification. What the code
  relies on is that a signature verifies under the public key of its seed and has 64 bytes.
\<close>

record ed25519 =
  ed_public :: "key32 \<Rightarrow> key32"
  ed_sign :: "key32 \<Rightarrow> bytes \<Rightarrow> bytes"
  ed_verify :: "key32 \<Rightarrow> bytes \<Rightarrow> bytes \<Rightarrow> bool"

definition ed_correct :: "ed25519 \<Rightarrow> bool" where
  "ed_correct E \<longleftrightarrow> (\<forall>seed m. ed_verify E (ed_public E seed) m (ed_sign E seed m) \<and>
     length (ed_sign E seed m) = 64)"

abbreviation (input) SignatureSize :: nat where "SignatureSize \<equiv> 64"

datatype sign_error = EmptyMessage

definition Sign :: "ed25519 \<Rightarrow> bytes \<Rightarrow> key32 \<Rightarrow> sign_error + bytes" where
  "Sign E message privateKey =
     (if length message = 0 then Err EmptyMessage else Ok (ed_sign E privateKey message))"

definition GetSignaturePublicKey :: "ed25519 \<Rightarrow> key32 \<Rightarrow> key32" where
  "GetSignaturePublicKey E privateKey = ed_public E privateKey"

definition Verify :: "ed25519 \<Rightarrow> bytes \<Rightarrow> bytes \<Rightarrow> key32 \<Rightarrow> sign_error + bool" where
  "Verify E message signature publicKey =
     (if length message = 0 then Err EmptyMessage else Ok (ed_verify E publicKey message signature))"

lemma Verify_Sign:
  "ed_correct E \<Longrightarrow> message \<noteq> [] \<Longrightarrow>
     Verify E message (ed_sign E seed message) (GetSignaturePublicKey E seed) = Ok True"
  by (simp add: Verify_def GetSignaturePublicKey_def ed_correct_def)

lemma length_ed_sign [simp]: "ed_correct E \<Longrightarrow> length (ed_sign E seed m) = 64"
  by (simp add: ed_correct_def)

text \<open>A signature scheme for evaluations: the signature carries the seed's public key and a sum.\<close>

definition toy_ed25519 :: ed25519 where
  "toy_ed25519 = \<lparr>ed_public = (\<lambda>seed. seed + 1),
     ed_sign = (\<lambda>seed m. key_bytes (seed + 1) @ key_bytes (word_of_nat (be_val m))),
     ed_verify = (\<lambda>pk m sig. sig = key_bytes pk @ key_bytes (word_of_nat (be_val m)))\<rparr>"

lemma toy_ed25519_correct: "ed_correct toy_ed25519"
  by (simp add: ed_correct_def toy_ed25519_def)

end
