(* ===== verification/Version_Packets.thy ===== *)
theory Version_Packets
  imports Signature
begin

text \<open>
  The packets of protocol version negotiation and the choices made from them: the wire format of
  plain and signed negotiation packets and the selection of the best common version
  (\<^verbatim>\<open>transport/version_negotiation.go\<close>), and the session policy that says which versions may be
  offered (\<^verbatim>\<open>transport/session_policy.go\<close>). The signed round trip is characterised exactly: a
  packet without capabilities byte whose first version is one less than the number of versions is
  read back as another packet.
\<close>

section \<open>Versions, capabilities and packets\<close>

type_synonym ProtocolVersion = u8

definition ProtocolLegacy :: ProtocolVersion where "ProtocolLegacy = 0"
definition ProtocolNoiseIK :: ProtocolVersion where "ProtocolNoiseIK = 1"

abbreviation (input) CapX3DH :: u8 where "CapX3DH \<equiv> push_bit 0 1"
abbreviation (input) CapHeaderEncryption :: u8 where "CapHeaderEncryption \<equiv> push_bit 1 1"
abbreviation (input) CapPQXDH :: u8 where "CapPQXDH \<equiv> push_bit 2 1"

abbreviation (input) CapMaxSecurity :: u8 where
  "CapMaxSecurity \<equiv> CapX3DH OR CapHeaderEncryption OR CapPQXDH"

definition NegotiateCapabilities :: "u8 \<Rightarrow> u8 \<Rightarrow> u8" where
  "NegotiateCapabilities ours peers = ours AND peers"

abbreviation (input) maxSupportedVersions :: nat where "maxSupportedVersions \<equiv> 16"

lemmas version_consts = ProtocolLegacy_def ProtocolNoiseIK_def

record VersionNegotiationPacket =
  SupportedVersions :: "ProtocolVersion list"
  PreferredVersion :: ProtocolVersion

record SignedVersionNegotiationPacket = VersionNegotiationPacket +
  SenderPublicKey :: key32
  Signature :: bytes
  Capabilities :: u8

datatype vn_error =
    NilPacket
  | NoVersions
  | VersionPacketTooShort
  | WrongVersionLength nat nat
  | TooManyVersions nat
  | SigningFailed sign_error
  | SignedPacketTooShort nat nat
  | SignatureVerificationError sign_error
  | SignatureVerificationFailed
  | VersionDataUnparsable vn_error
  | SerializeFailed vn_error
  | SignaturesRequired vn_error
  | UnsignedPacket
  | ParseFailed vn_error

section \<open>The wire format\<close>

definition serializeVersionData :: "ProtocolVersion \<Rightarrow> ProtocolVersion list \<Rightarrow> u8 option \<Rightarrow> bytes" where
  "serializeVersionData preferredVersion supportedVersions capabilitiesByte =
     (case capabilitiesByte of
        Some c \<Rightarrow> c # preferredVersion # word_of_nat (length supportedVersions) # supportedVersions
      | None \<Rightarrow> preferredVersion # word_of_nat (length supportedVersions) # supportedVersions)"

definition validateVersionPacket :: "ProtocolVersion list \<Rightarrow> vn_error + unit" where
  "validateVersionPacket supportedVersions =
     (if length supportedVersions = 0 then Err NoVersions else Ok ())"

text \<open>A packet passed by pointer is an option; \<open>None\<close> is \<^verbatim>\<open>nil\<close>.\<close>

definition SerializeVersionNegotiation :: "VersionNegotiationPacket option \<Rightarrow> vn_error + bytes" where
  "SerializeVersionNegotiation packet =
     (case packet of None \<Rightarrow> Err NilPacket
      | Some p \<Rightarrow> (case validateVersionPacket (SupportedVersions p) of Inl e \<Rightarrow> Err e
         | Inr _ \<Rightarrow> Ok (serializeVersionData (PreferredVersion p) (SupportedVersions p) None)))"

definition ParseVersionNegotiation :: "bytes \<Rightarrow> vn_error + VersionNegotiationPacket" where
  "ParseVersionNegotiation data =
     (if length data < 2 then Err VersionPacketTooShort
      else let preferredVersion = data ! 0; numVersions = unat (data ! 1)
       in if length data \<noteq> 2 + numVersions then Err (WrongVersionLength (2 + numVersions) (length data))
          else if numVersions > maxSupportedVersions then Err (TooManyVersions numVersions)
          else Ok \<lparr>SupportedVersions = slice 2 (2 + numVersions) data,
                   PreferredVersion = preferredVersion\<rparr>)"

definition SerializeSignedVersionNegotiation ::
    "ed25519 \<Rightarrow> SignedVersionNegotiationPacket option \<Rightarrow> key32 \<Rightarrow> vn_error + bytes" where
  "SerializeSignedVersionNegotiation E packet privateKey =
     (case packet of None \<Rightarrow> Err NilPacket
      | Some p \<Rightarrow> (case validateVersionPacket (SupportedVersions p) of Inl e \<Rightarrow> Err e
         | Inr _ \<Rightarrow>
           let capabilitiesByte = (if Capabilities p \<noteq> 0 then Some (Capabilities p) else None);
               versionData = serializeVersionData (PreferredVersion p) (SupportedVersions p) capabilitiesByte;
               signingPubKey = GetSignaturePublicKey E privateKey
           in (case Sign E versionData privateKey of Inl e \<Rightarrow> Err (SigningFailed e)
               | Inr signature \<Rightarrow> Ok (key_bytes signingPubKey @ signature @ versionData))))"

text \<open>What \<^verbatim>\<open>ParseSignedVersionNegotiation\<close> does after the signature was found valid.\<close>

definition parse_signed_data :: "key32 \<Rightarrow> bytes \<Rightarrow> bytes \<Rightarrow> vn_error + SignedVersionNegotiationPacket" where
  "parse_signed_data senderPubKey signature versionData =
     (let signed = (\<lambda>p capabilities. \<lparr>SupportedVersions = SupportedVersions p,
            PreferredVersion = PreferredVersion p, SenderPublicKey = senderPubKey,
            Signature = signature, Capabilities = capabilities\<rparr>);
          legacy = ParseVersionNegotiation versionData;
          fallback = (case legacy of Inl e \<Rightarrow> Err (VersionDataUnparsable e)
                      | Inr legacyPacket \<Rightarrow> Ok (signed legacyPacket 0))
      in if length versionData \<ge> 3 then
           (let capabilities = versionData ! 0
            in case ParseVersionNegotiation (drop 1 versionData) of
                 Inr extendedPacket \<Rightarrow>
                   if capabilities \<noteq> 0 \<or> isl legacy then Ok (signed extendedPacket capabilities)
                   else fallback
               | Inl _ \<Rightarrow> fallback)
         else fallback)"

definition ParseSignedVersionNegotiation :: "ed25519 \<Rightarrow> bytes \<Rightarrow> vn_error + SignedVersionNegotiationPacket" where
  "ParseSignedVersionNegotiation E data =
     (let minLen = 32 + SignatureSize + 2
      in if length data < minLen then Err (SignedPacketTooShort (length data) minLen)
         else
           let senderPubKey = bytes_key (slice 0 32 data);
               signature = slice 32 (32 + SignatureSize) data;
               versionData = drop (32 + SignatureSize) data
           in (case Verify E versionData signature senderPubKey of
                 Inl e \<Rightarrow> Err (SignatureVerificationError e)
               | Inr valid \<Rightarrow>
                 if \<not> valid then Err SignatureVerificationFailed
                 else parse_signed_data senderPubKey signature versionData))"

definition HasCapability :: "u8 \<Rightarrow> SignedVersionNegotiationPacket \<Rightarrow> bool" where
  "HasCapability c p \<longleftrightarrow> Capabilities p AND c \<noteq> 0"

definition SetCapability :: "u8 \<Rightarrow> SignedVersionNegotiationPacket \<Rightarrow> SignedVersionNegotiationPacket" where
  "SetCapability c p = p\<lparr>Capabilities := Capabilities p OR c\<rparr>"

definition ClearCapability :: "u8 \<Rightarrow> SignedVersionNegotiationPacket \<Rightarrow> SignedVersionNegotiationPacket" where
  "ClearCapability c p = p\<lparr>Capabilities := Capabilities p AND NOT c\<rparr>"

section \<open>Selecting a version\<close>

fun supportsProtocolVersion :: "ProtocolVersion list \<Rightarrow> ProtocolVersion \<Rightarrow> bool" where
  "supportsProtocolVersion [] version = False"
| "supportsProtocolVersion (supported # rest) version =
     (if supported = version then True else supportsProtocolVersion rest version)"

text \<open>The loop over the peer's versions, with the set built from our own as its argument.\<close>

fun best_loop :: "ProtocolVersion set \<Rightarrow> ProtocolVersion list \<Rightarrow> ProtocolVersion \<Rightarrow> ProtocolVersion" where
  "best_loop supportedSet [] bestVersion = bestVersion"
| "best_loop supportedSet (peerVersion # rest) bestVersion =
     best_loop supportedSet rest
       (if peerVersion \<in> supportedSet \<and> peerVersion > bestVersion then peerVersion else bestVersion)"

definition selectBestSupportedVersion :: "ProtocolVersion list \<Rightarrow> ProtocolVersion list \<Rightarrow> ProtocolVersion" where
  "selectBestSupportedVersion ourVersions peerVersions =
     best_loop (fold insert ourVersions {}) peerVersions ProtocolLegacy"

section \<open>Session policies\<close>

datatype SessionPolicy = PolicyUnset | PolicyLegacyOnly | PolicyNoiseOnly | PolicyNoiseWithRatchet

fun AllowsVersion :: "SessionPolicy \<Rightarrow> ProtocolVersion \<Rightarrow> bool" where
  "AllowsVersion PolicyLegacyOnly version = (version = ProtocolLegacy)"
| "AllowsVersion PolicyNoiseOnly version = (version = ProtocolNoiseIK \<or> version = ProtocolLegacy)"
| "AllowsVersion PolicyNoiseWithRatchet version = (version = ProtocolLegacy \<or> version = ProtocolNoiseIK)"
| "AllowsVersion PolicyUnset version = (version = ProtocolLegacy)"

definition FilterVersions :: "SessionPolicy \<Rightarrow> ProtocolVersion list \<Rightarrow> ProtocolVersion list" where
  "FilterVersions p versions = (if length versions = 0 then [] else filter (AllowsVersion p) versions)"

fun DefaultVersion :: "SessionPolicy \<Rightarrow> ProtocolVersion" where
  "DefaultVersion PolicyLegacyOnly = ProtocolLegacy"
| "DefaultVersion PolicyNoiseOnly = ProtocolNoiseIK"
| "DefaultVersion PolicyNoiseWithRatchet = ProtocolNoiseIK"
| "DefaultVersion PolicyUnset = ProtocolLegacy"

fun DefaultSupportedVersions :: "SessionPolicy \<Rightarrow> ProtocolVersion list" where
  "DefaultSupportedVersions PolicyLegacyOnly = [ProtocolLegacy]"
| "DefaultSupportedVersions PolicyNoiseOnly = [ProtocolNoiseIK, ProtocolLegacy]"
| "DefaultSupportedVersions PolicyNoiseWithRatchet = [ProtocolNoiseIK, ProtocolLegacy]"
| "DefaultSupportedVersions PolicyUnset = [ProtocolLegacy]"

record PolicyConfig =
  DefaultPolicy :: SessionPolicy
  RequireRatchetForNoise :: bool
  AllowUnauthenticatedFallback :: bool

definition DefaultPolicyConfig :: PolicyConfig where
  "DefaultPolicyConfig = \<lparr>DefaultPolicy = PolicyNoiseWithRatchet, RequireRatchetForNoise = True,
     AllowUnauthenticatedFallback = True\<rparr>"

definition StrictPolicyConfig :: PolicyConfig where
  "StrictPolicyConfig = \<lparr>DefaultPolicy = PolicyNoiseWithRatchet, RequireRatchetForNoise = True,
     AllowUnauthenticatedFallback = False\<rparr>"

definition LegacyCompatPolicyConfig :: PolicyConfig where
  "LegacyCompatPolicyConfig = \<lparr>DefaultPolicy = PolicyLegacyOnly, RequireRatchetForNoise = False,
     AllowUnauthenticatedFallback = True\<rparr>"

section \<open>Lemmas\<close>

lemma supportsProtocolVersion_iff [simp]: "supportsProtocolVersion vs v \<longleftrightarrow> v \<in> set vs"
  by (induction vs) auto

lemma Max_insert_max:
  "finite R \<Longrightarrow> Max (insert (max (b :: 'a :: linorder) v) R) = Max (insert b (insert v R))"
  by (cases "R = {}") (simp_all add: max.assoc)

lemma best_loop_Max:
  "finite S \<Longrightarrow> best_loop S vs b = Max (insert b {v \<in> set vs. v \<in> S})"
proof (induction vs arbitrary: b)
  case (Cons v vs)
  let ?R = "{w \<in> set vs. w \<in> S}"
  have fin: "finite ?R" by simp
  have "{w \<in> set (v # vs). w \<in> S} = (if v \<in> S then insert v ?R else ?R)" by auto
  moreover have pick: "(if v > b then v else b) = max b v" unfolding max_def using less_le not_le by metis
  then have "Max (insert (if v > b then v else b) ?R) = Max (insert b (insert v ?R))"
    using fin by (simp only: Max_insert_max)
  ultimately show ?case using Cons by auto
qed simp

lemma selectBest_Max:
  "selectBestSupportedVersion ours peers = Max (insert ProtocolLegacy (set ours \<inter> set peers))"
proof -
  have "{v \<in> set peers. v \<in> set ours} = set ours \<inter> set peers" by auto
  then show ?thesis
    by (simp add: selectBestSupportedVersion_def best_loop_Max flip: union_set_fold)
qed

lemma ParseVersionNegotiation_serialize:
  assumes "length vs \<le> 16"
  shows "ParseVersionNegotiation (serializeVersionData v vs None) =
     Ok \<lparr>SupportedVersions = vs, PreferredVersion = v\<rparr>"
proof -
  have "unat (word_of_nat (length vs) :: u8) = length vs" using assms by (simp add: unat_byte_of_nat)
  then show ?thesis using assms
    by (simp add: ParseVersionNegotiation_def serializeVersionData_def slice_def)
qed

lemma ParseVersionNegotiation_OkD:
  assumes "ParseVersionNegotiation data = Ok p"
  shows "data = serializeVersionData (PreferredVersion p) (SupportedVersions p) None"
    and "length (SupportedVersions p) \<le> 16"
proof -
  from assms have len: "length data = 2 + unat (data ! 1)" "unat (data ! 1) \<le> 16"
    and p: "p = \<lparr>SupportedVersions = slice 2 (2 + unat (data ! 1)) data, PreferredVersion = data ! 0\<rparr>"
    by (auto simp: ParseVersionNegotiation_def Let_def split: if_splits)
  then obtain a b vs where d: "data = a # b # vs" by (cases data; cases "tl data") auto
  with len p show "data = serializeVersionData (PreferredVersion p) (SupportedVersions p) None"
    and "length (SupportedVersions p) \<le> 16"
    by (auto simp: serializeVersionData_def slice_def)
qed

interpretation vnp: codec "\<lambda>p. serializeVersionData (PreferredVersion p) (SupportedVersions p) None"
  ParseVersionNegotiation "\<lambda>p. length (SupportedVersions p) \<le> 16"
  by unfold_locales (simp add: ParseVersionNegotiation_serialize)

text \<open>Reading the data of a packet with one byte cut off its front, as the extended format does.\<close>

lemma ParseVersionNegotiation_shifted:
  assumes "1 \<le> length vs" and "length vs \<le> 16"
  shows "ParseVersionNegotiation (word_of_nat (length vs) # vs) =
     (if unat (hd vs) + 1 = length vs
      then Ok \<lparr>SupportedVersions = tl vs, PreferredVersion = word_of_nat (length vs)\<rparr>
      else Err (WrongVersionLength (2 + unat (hd vs)) (1 + length vs)))"
  using assms
  by (cases vs) (auto simp: ParseVersionNegotiation_def Let_def slice_def)

lemma ParseSigned_signed:
  assumes "ed_correct E" and "2 \<le> length vd"
  shows "ParseSignedVersionNegotiation E (key_bytes (GetSignaturePublicKey E k) @ ed_sign E k vd @ vd) =
     parse_signed_data (GetSignaturePublicKey E k) (ed_sign E k vd) vd"
proof -
  have "vd \<noteq> []" using assms(2) by auto
  then have "Verify E vd (ed_sign E k vd) (GetSignaturePublicKey E k) = Ok True"
    by (rule Verify_Sign [OF assms(1)])
  then show ?thesis using assms
    by (simp add: ParseSignedVersionNegotiation_def Let_def wire_simps)
qed

text \<open>What a signed packet is read back as, for every packet that is not refused.\<close>

lemma parse_signed_data_serialize:
  assumes "1 \<le> length vs" and "length vs \<le> 16"
  shows "parse_signed_data pk sig (serializeVersionData v vs (if c \<noteq> 0 then Some c else None)) =
     (if c = 0 \<and> v \<noteq> 0 \<and> unat (hd vs) + 1 = length vs
      then Ok \<lparr>SupportedVersions = tl vs, PreferredVersion = word_of_nat (length vs),
              SenderPublicKey = pk, Signature = sig, Capabilities = v\<rparr>
      else Ok \<lparr>SupportedVersions = vs, PreferredVersion = v, SenderPublicKey = pk, Signature = sig,
              Capabilities = c\<rparr>)"
proof (cases "c = 0")
  case True
  have "serializeVersionData v vs None = v # word_of_nat (length vs) # vs"
    by (simp add: serializeVersionData_def)
  moreover have "vs \<noteq> []" using assms by auto
  ultimately show ?thesis
    using ParseVersionNegotiation_serialize [OF assms(2), of v] assms True
    by (simp add: parse_signed_data_def Let_def ParseVersionNegotiation_shifted)
next
  case False
  have "serializeVersionData v vs (Some c) = c # serializeVersionData v vs None"
    by (simp add: serializeVersionData_def)
  moreover have "2 \<le> length (serializeVersionData v vs None)" by (simp add: serializeVersionData_def)
  ultimately show ?thesis
    using ParseVersionNegotiation_serialize [OF assms(2), of v] False
    by (simp add: parse_signed_data_def Let_def)
qed

lemma SerializeSigned_Ok:
  assumes "SupportedVersions p \<noteq> []"
  shows "SerializeSignedVersionNegotiation E (Some p) k =
     (let vd = serializeVersionData (PreferredVersion p) (SupportedVersions p)
                 (if Capabilities p \<noteq> 0 then Some (Capabilities p) else None)
      in Ok (key_bytes (GetSignaturePublicKey E k) @ ed_sign E k vd @ vd))"
  using assms
  by (auto simp: SerializeSignedVersionNegotiation_def validateVersionPacket_def Sign_def Let_def
      serializeVersionData_def)

text \<open>The packet a receiver gets, for the packet sent and the signature it was given.\<close>

definition ambiguous :: "SignedVersionNegotiationPacket \<Rightarrow> bool" where
  "ambiguous p \<longleftrightarrow> Capabilities p = 0 \<and> PreferredVersion p \<noteq> 0 \<and>
     unat (hd (SupportedVersions p)) + 1 = length (SupportedVersions p)"

definition read_back :: "key32 \<Rightarrow> bytes \<Rightarrow> SignedVersionNegotiationPacket \<Rightarrow> SignedVersionNegotiationPacket" where
  "read_back pk sig p =
     (if ambiguous p
      then \<lparr>SupportedVersions = tl (SupportedVersions p),
            PreferredVersion = word_of_nat (length (SupportedVersions p)),
            SenderPublicKey = pk, Signature = sig, Capabilities = PreferredVersion p\<rparr>
      else p\<lparr>SenderPublicKey := pk, Signature := sig\<rparr>)"

lemma parse_signed_data_read_back:
  assumes "1 \<le> length (SupportedVersions p)" and "length (SupportedVersions p) \<le> 16"
  shows "parse_signed_data pk sig (serializeVersionData (PreferredVersion p) (SupportedVersions p)
     (if Capabilities p \<noteq> 0 then Some (Capabilities p) else None)) = Ok (read_back pk sig p)"
  unfolding parse_signed_data_serialize [OF assms]
  by (cases p) (auto simp: read_back_def ambiguous_def)

lemma ParseSigned_SerializeSigned:
  assumes "ed_correct E" and "1 \<le> length (SupportedVersions p)" and "length (SupportedVersions p) \<le> 16"
  shows "\<exists>d sig. SerializeSignedVersionNegotiation E (Some p) k = Ok d \<and> 98 \<le> length d \<and>
     ParseSignedVersionNegotiation E d = Ok (read_back (GetSignaturePublicKey E k) sig p)"
proof -
  define vd where "vd = serializeVersionData (PreferredVersion p) (SupportedVersions p)
    (if Capabilities p \<noteq> 0 then Some (Capabilities p) else None)"
  have "SupportedVersions p \<noteq> []" using assms(2) by auto
  then have ser: "SerializeSignedVersionNegotiation E (Some p) k =
      Ok (key_bytes (GetSignaturePublicKey E k) @ ed_sign E k vd @ vd)"
    by (simp add: SerializeSigned_Ok vd_def Let_def)
  have len: "2 \<le> length vd" by (auto simp: vd_def serializeVersionData_def)
  have "parse_signed_data pk sig vd = Ok (read_back pk sig p)" for pk sig
    unfolding vd_def using assms(2,3) by (rule parse_signed_data_read_back)
  with ser len show ?thesis using ParseSigned_signed [OF assms(1) len, of k] assms(1) by auto
qed

section \<open>Properties\<close>

text \<open>
  C22. The signed round trip, exactly. A signed negotiation packet with between 1 and 16 versions is
  always accepted, and it is read back as itself (with the key and the signature of its sender)
  unless it carries no capabilities, prefers a version other than Legacy, and its first version is
  one less than the number of its versions.
\<close>

theorem signed_packet_roundtrip:
  assumes "ed_correct E" and "1 \<le> length (SupportedVersions p)" and "length (SupportedVersions p) \<le> 16"
  shows "\<exists>d q. SerializeSignedVersionNegotiation E (Some p) k = Ok d \<and>
     ParseSignedVersionNegotiation E d = Ok q \<and>
     SenderPublicKey q = GetSignaturePublicKey E k \<and>
     (SupportedVersions q = SupportedVersions p \<and> PreferredVersion q = PreferredVersion p \<and>
        Capabilities q = Capabilities p \<longleftrightarrow>
      \<not> (Capabilities p = 0 \<and> PreferredVersion p \<noteq> 0 \<and>
         unat (hd (SupportedVersions p)) + 1 = length (SupportedVersions p)))"
proof -
  have "tl (SupportedVersions p) \<noteq> SupportedVersions p" using assms(2)
    by (cases "SupportedVersions p") auto
  then show ?thesis using ParseSigned_SerializeSigned [OF assms, of k]
    by (auto simp: read_back_def ambiguous_def)
qed

theorem signed_packet_roundtrip_witness:
  "\<exists>d q. SerializeSignedVersionNegotiation toy_ed25519
     (Some \<lparr>SupportedVersions = [1, 0], PreferredVersion = 1, SenderPublicKey = 0, Signature = [], Capabilities = 7\<rparr>) 5
     = Ok d \<and> ParseSignedVersionNegotiation toy_ed25519 d = Ok q \<and> SupportedVersions q = [1, 0] \<and>
     Capabilities q = 7"
  using signed_packet_roundtrip [OF toy_ed25519_correct, of "\<lparr>SupportedVersions = [1, 0], PreferredVersion = 1,
      SenderPublicKey = 0, Signature = [], Capabilities = 7\<rparr>" 5] by fastforce

text \<open>
  The version two peers settle on is the highest one both support, or Legacy when they share
  none, and it does not matter which of the two selects.
\<close>

theorem best_common_version:
  "selectBestSupportedVersion ours peers = Max (insert ProtocolLegacy (set ours \<inter> set peers)) \<and>
   selectBestSupportedVersion peers ours = selectBestSupportedVersion ours peers"
  by (simp add: selectBest_Max Int_commute)

text \<open>
  C24. The packet that the Noise policies offer by default, Noise-IK and Legacy with Noise-IK
  preferred and no capabilities, is accepted with a valid signature as a packet of a peer that
  supports only Legacy and has the X3DH capability, for every signing key: the receiver settles on
  Legacy although both sides offered Noise-IK.
\<close>

theorem default_offer_misread:
  assumes "ed_correct E" and "policy = PolicyNoiseOnly \<or> policy = PolicyNoiseWithRatchet"
  shows "\<exists>d q. SerializeSignedVersionNegotiation E (Some \<lparr>SupportedVersions = DefaultSupportedVersions policy,
        PreferredVersion = DefaultVersion policy, SenderPublicKey = 0, Signature = [], Capabilities = 0\<rparr>) k = Ok d \<and>
     ParseSignedVersionNegotiation E d = Ok q \<and> SupportedVersions q = [ProtocolLegacy] \<and>
     HasCapability CapX3DH q \<and>
     selectBestSupportedVersion (DefaultSupportedVersions policy) (SupportedVersions q) = ProtocolLegacy \<and>
     selectBestSupportedVersion (DefaultSupportedVersions policy) (DefaultSupportedVersions policy) = ProtocolNoiseIK"
proof -
  let ?p = "\<lparr>SupportedVersions = [1, 0], PreferredVersion = 1, SenderPublicKey = 0, Signature = [],
     Capabilities = 0\<rparr> :: SignedVersionNegotiationPacket"
  have p: "DefaultSupportedVersions policy = [1, 0]" "DefaultVersion policy = 1"
    using assms(2) by (auto simp: version_consts)
  have "read_back pk sig ?p = \<lparr>SupportedVersions = [0], PreferredVersion = 2, SenderPublicKey = pk,
      Signature = sig, Capabilities = 1\<rparr>" for pk sig
    by (simp add: read_back_def ambiguous_def)
  then show ?thesis unfolding p using ParseSigned_SerializeSigned [OF assms(1), of ?p k]
    by (auto simp: version_consts HasCapability_def selectBest_Max)
qed

theorem default_offer_misread_witness:
  "\<exists>d q. SerializeSignedVersionNegotiation toy_ed25519 (Some \<lparr>SupportedVersions = [1, 0],
        PreferredVersion = 1, SenderPublicKey = 0, Signature = [], Capabilities = 0\<rparr>) 5 = Ok d \<and>
     ParseSignedVersionNegotiation toy_ed25519 d = Ok q \<and> SupportedVersions q = [0]"
  using default_offer_misread [OF toy_ed25519_correct, of PolicyNoiseOnly 5] by (auto simp: version_consts)

end
