(* ===== verification/Negotiating_Transport.thy ===== *)
theory Negotiating_Transport
  imports Version_Packets
begin

text \<open>
  The negotiator (\<^verbatim>\<open>transport/version_negotiation.go\<close>) and the transport that runs it with every
  peer and sends packets in the agreed version (\<^verbatim>\<open>transport/negotiating_transport.go\<close>). A call of
  \<^verbatim>\<open>Send\<close> that has to negotiate blocks until the answer or the timeout arrives; it is cut there
  into two steps, so that a run of the transport is a sequence of calls, packets received and waits
  that end. Calls that wait for the same peer share one negotiation (\<^verbatim>\<open>singleflight\<close>). The clock and
  the outcome of handing a packet to the socket are arguments; what the transport hands to the socket
  and to the Noise transport is the list of events each step returns.
\<close>

section \<open>The negotiator\<close>

text \<open>\<^verbatim>\<open>addr.String()\<close>, the key of every map of the transport.\<close>

type_synonym peer_addr = string

text \<open>
  A pending negotiation is the buffered channel of capacity 1 its caller waits on: \<open>None\<close> while it is
  empty.
\<close>

record VersionNegotiator =
  supportedVersions :: "ProtocolVersion list"
  preferredVersion :: ProtocolVersion
  negotiationTimeout :: duration
  pending :: "(peer_addr, ProtocolVersion option) gomap"
  vn_staticPrivateKey :: key32
  requireSignatures :: bool
  advertisedCapabilities :: u8

definition NewVersionNegotiator :: "ProtocolVersion list \<Rightarrow> ProtocolVersion \<Rightarrow> duration \<Rightarrow> VersionNegotiator" where
  "NewVersionNegotiator supported preferred timeout =
     (let (supported, preferred) =
            (if length supported = 0 then ([ProtocolLegacy], ProtocolLegacy) else (supported, preferred));
          preferredSupported = (preferred \<in> set supported);
          preferred = (if \<not> preferredSupported then supported ! 0 else preferred);
          timeout = (if timeout = 0 then 5 * 10 ^ 9 else timeout)
      in \<lparr>supportedVersions = supported, preferredVersion = preferred, negotiationTimeout = timeout,
          pending = [], vn_staticPrivateKey = 0, requireSignatures = False, advertisedCapabilities = 0\<rparr>)"

definition NewSignedVersionNegotiator ::
    "ProtocolVersion list \<Rightarrow> ProtocolVersion \<Rightarrow> duration \<Rightarrow> key32 \<Rightarrow> VersionNegotiator" where
  "NewSignedVersionNegotiator supported preferred timeout staticKey =
     (NewVersionNegotiator supported preferred timeout)
       \<lparr>vn_staticPrivateKey := staticKey, requireSignatures := True\<rparr>"

definition NewSignedVersionNegotiatorWithCapabilities ::
    "ProtocolVersion list \<Rightarrow> ProtocolVersion \<Rightarrow> duration \<Rightarrow> key32 \<Rightarrow> u8 \<Rightarrow> VersionNegotiator" where
  "NewSignedVersionNegotiatorWithCapabilities supported preferred timeout staticKey capabilities =
     (NewSignedVersionNegotiator supported preferred timeout staticKey)
       \<lparr>advertisedCapabilities := capabilities\<rparr>"

definition serializeNegotiationPacket ::
    "ed25519 \<Rightarrow> VersionNegotiator \<Rightarrow> VersionNegotiationPacket \<Rightarrow> vn_error + bytes" where
  "serializeNegotiationPacket E vn vnPacket =
     (if requireSignatures vn then
        (case SerializeSignedVersionNegotiation E
            (Some \<lparr>SupportedVersions = SupportedVersions vnPacket, PreferredVersion = PreferredVersion vnPacket,
               SenderPublicKey = 0, Signature = replicate SignatureSize 0,
               Capabilities = advertisedCapabilities vn\<rparr>) (vn_staticPrivateKey vn) of
           Inl e \<Rightarrow> Err (SerializeFailed e) | Inr d \<Rightarrow> Ok d)
      else (case SerializeVersionNegotiation (Some vnPacket) of
           Inl e \<Rightarrow> Err (SerializeFailed e) | Inr d \<Rightarrow> Ok d))"

text \<open>The data of the negotiation packet; its type is \<^verbatim>\<open>PacketVersionNegotiation\<close>.\<close>

definition createNegotiationPacket :: "ed25519 \<Rightarrow> VersionNegotiator \<Rightarrow> vn_error + bytes" where
  "createNegotiationPacket E vn = serializeNegotiationPacket E vn
     \<lparr>SupportedVersions = supportedVersions vn, PreferredVersion = preferredVersion vn\<rparr>"

definition registerPendingNegotiation :: "peer_addr \<Rightarrow> VersionNegotiator \<Rightarrow> VersionNegotiator" where
  "registerPendingNegotiation addr vn = vn\<lparr>pending := mput addr None (pending vn)\<rparr>"

definition cleanupPendingNegotiation :: "peer_addr \<Rightarrow> VersionNegotiator \<Rightarrow> VersionNegotiator" where
  "cleanupPendingNegotiation addr vn = vn\<lparr>pending := mdel addr (pending vn)\<rparr>"

definition SelectBestVersion :: "VersionNegotiator \<Rightarrow> ProtocolVersion list \<Rightarrow> ProtocolVersion" where
  "SelectBestVersion vn peerVersions = selectBestSupportedVersion (supportedVersions vn) peerVersions"

definition IsVersionSupported :: "VersionNegotiator \<Rightarrow> ProtocolVersion \<Rightarrow> bool" where
  "IsVersionSupported vn version = supportsProtocolVersion (supportedVersions vn) version"

definition handleResponse :: "peer_addr \<Rightarrow> ProtocolVersion list \<Rightarrow> VersionNegotiator \<Rightarrow> bool \<times> VersionNegotiator" where
  "handleResponse addr peerVersions vn =
     (case mget (pending vn) addr of
        None \<Rightarrow> (False, vn)
      | Some buffer \<Rightarrow>
          let negotiatedVersion = SelectBestVersion vn peerVersions
          in (True, case buffer of
                None \<Rightarrow> vn\<lparr>pending := mput addr (Some negotiatedVersion) (pending vn)\<rparr>
              | Some _ \<Rightarrow> vn))"

definition ParseVersionPacket ::
    "ed25519 \<Rightarrow> VersionNegotiator \<Rightarrow> bytes \<Rightarrow> vn_error + (VersionNegotiationPacket \<times> key32 option \<times> u8)" where
  "ParseVersionPacket E vn data =
     (let minSignedLen = 32 + SignatureSize + 2;
          unsigned =
            (if requireSignatures vn then Err UnsignedPacket
             else (case ParseVersionNegotiation data of
                     Inl e \<Rightarrow> Err (ParseFailed e) | Inr vnPacket \<Rightarrow> Ok (vnPacket, None, 0)))
      in if length data \<ge> minSignedLen then
           (case ParseSignedVersionNegotiation E data of
              Inr p \<Rightarrow> Ok (\<lparr>SupportedVersions = SupportedVersions p, PreferredVersion = PreferredVersion p\<rparr>,
                           Some (SenderPublicKey p), Capabilities p)
            | Inl e \<Rightarrow> if requireSignatures vn then Err (SignaturesRequired e) else unsigned)
         else unsigned)"

section \<open>The transport\<close>

record ProtocolCapabilities =
  CapSupportedVersions :: "ProtocolVersion list"
  CapPreferredVersion :: ProtocolVersion
  EnableLegacyFallback :: bool
  NegotiationTimeout :: duration
  RequireSignedNegotiation :: bool
  SessionPolicyOf :: SessionPolicy
  PolicyConfigOf :: "PolicyConfig option"
  AdvertisedCapabilities :: u8
  DisallowCapabilityDowngrade :: bool

definition DefaultProtocolCapabilities :: ProtocolCapabilities where
  "DefaultProtocolCapabilities = \<lparr>CapSupportedVersions = [ProtocolLegacy, ProtocolNoiseIK],
     CapPreferredVersion = ProtocolNoiseIK, EnableLegacyFallback = False,
     NegotiationTimeout = 5 * 10 ^ 9, RequireSignedNegotiation = True,
     SessionPolicyOf = PolicyNoiseWithRatchet, PolicyConfigOf = Some DefaultPolicyConfig,
     AdvertisedCapabilities = CapMaxSecurity, DisallowCapabilityDowngrade = False\<rparr>"

record peerVersionEntry =
  pv_version :: ProtocolVersion
  expiresAt :: time

abbreviation (input) PeerVersionTTL :: duration where "PeerVersionTTL \<equiv> 5 * 60 * 10 ^ 9"
abbreviation (input) PeerVersionLegacyTTL :: duration where "PeerVersionLegacyTTL \<equiv> 60 * 10 ^ 9"

text \<open>
  Packets of the application are opaque here. \<open>hasNoise\<close> says that \<^verbatim>\<open>noiseTransport\<close> is not nil, and
  \<open>waiting\<close> holds, for every negotiation in flight, the packets of the calls that wait for it.
\<close>

record 'p NegotiatingTransport =
  capabilities :: ProtocolCapabilities
  negotiator :: VersionNegotiator
  hasNoise :: bool
  peerVersions :: "(peer_addr, peerVersionEntry) gomap"
  fallbackEnabled :: bool
  nt_staticPrivateKey :: key32
  peerCapabilities :: "(peer_addr, u8) gomap"
  waiting :: "(peer_addr, 'p list) gomap"

datatype nt_error =
    MustSupportVersion
  | StaticKeyLength nat
  | NoiseTransportFailed
  | SecurityRejected vn_error
  | ParsingRejected vn_error
  | CapabilityDowngradeRefused u8
  | ResponseFailed vn_error
  | ErrUnsupportedProtocolVersion
  | NegotiationFailed vn_error
  | NegotiationSendFailed
  | NegotiationTimeoutError
  | VersionNegotiationFatal nt_error

datatype 'p nt_event =
    Negotiation bytes peer_addr
  | SentLegacy 'p peer_addr
  | SentNoise 'p peer_addr

definition requiresStaticKey :: "ProtocolCapabilities \<Rightarrow> bool" where
  "requiresStaticKey caps \<longleftrightarrow>
     RequireSignedNegotiation caps \<or> ProtocolNoiseIK \<in> set (CapSupportedVersions caps)"

definition validateAndCopyStaticKey :: "ProtocolCapabilities \<Rightarrow> bytes \<Rightarrow> nt_error + key32" where
  "validateAndCopyStaticKey caps staticPrivKey =
     (if requiresStaticKey caps \<and> length staticPrivKey \<noteq> 32 then Err (StaticKeyLength (length staticPrivKey))
      else Ok (if length staticPrivKey = 32 then bytes_key staticPrivKey else 0))"

definition applySessionPolicyToCapabilities ::
    "ProtocolCapabilities \<Rightarrow> ProtocolVersion list \<times> ProtocolVersion" where
  "applySessionPolicyToCapabilities cap =
     (if SessionPolicyOf cap = PolicyUnset then (CapSupportedVersions cap, CapPreferredVersion cap)
      else
        let supported = FilterVersions (SessionPolicyOf cap) (CapSupportedVersions cap);
            preferred = DefaultVersion (SessionPolicyOf cap)
        in if preferred \<in> set supported then (supported, preferred)
           else if length supported > 0 then (supported, supported ! 0)
           else (supported, preferred))"

definition createVersionNegotiator :: "ProtocolCapabilities \<Rightarrow> key32 \<Rightarrow> VersionNegotiator" where
  "createVersionNegotiator caps staticKey =
     (let (supported, preferred) = applySessionPolicyToCapabilities caps
      in if RequireSignedNegotiation caps \<and> staticKey \<noteq> 0
         then NewSignedVersionNegotiatorWithCapabilities supported preferred (NegotiationTimeout caps)
                staticKey (AdvertisedCapabilities caps)
         else NewVersionNegotiator supported preferred (NegotiationTimeout caps))"

text \<open>\<open>noiseOk\<close> is whether \<^verbatim>\<open>NewNoiseTransport\<close> succeeds.\<close>

definition createNoiseTransportIfSupported :: "bool \<Rightarrow> VersionNegotiator \<Rightarrow> nt_error + bool" where
  "createNoiseTransportIfSupported noiseOk vn =
     (if \<not> IsVersionSupported vn ProtocolNoiseIK then Ok False
      else if noiseOk then Ok True else Err NoiseTransportFailed)"

definition normalizeCapabilities :: "ProtocolCapabilities option \<Rightarrow> ProtocolCapabilities" where
  "normalizeCapabilities caps = (case caps of None \<Rightarrow> DefaultProtocolCapabilities | Some c \<Rightarrow> c)"

definition NewNegotiatingTransport ::
    "ProtocolCapabilities option \<Rightarrow> bytes \<Rightarrow> bool \<Rightarrow> nt_error + 'p NegotiatingTransport" where
  "NewNegotiatingTransport caps staticPrivKey noiseOk =
     (let caps = normalizeCapabilities caps
      in if length (CapSupportedVersions caps) = 0 then Err MustSupportVersion
         else (case validateAndCopyStaticKey caps staticPrivKey of Inl e \<Rightarrow> Err e
          | Inr staticKey \<Rightarrow>
            let vn = createVersionNegotiator caps staticKey
            in (case createNoiseTransportIfSupported noiseOk vn of Inl e \<Rightarrow> Err e
                | Inr noise \<Rightarrow> Ok \<lparr>capabilities = caps, negotiator = vn, hasNoise = noise, peerVersions = [],
                    fallbackEnabled = EnableLegacyFallback caps, nt_staticPrivateKey = staticKey,
                    peerCapabilities = [], waiting = []\<rparr>)))"

text \<open>The unknown version is 255. An expired entry is removed by the lookup.\<close>

definition getPeerVersion :: "time \<Rightarrow> peer_addr \<Rightarrow> 'p NegotiatingTransport \<Rightarrow> ProtocolVersion \<times> 'p NegotiatingTransport" where
  "getPeerVersion now addr nt =
     (case mget (peerVersions nt) addr of
        None \<Rightarrow> (255, nt)
      | Some entry \<Rightarrow>
          if now > expiresAt entry then (255, nt\<lparr>peerVersions := mdel addr (peerVersions nt)\<rparr>)
          else (pv_version entry, nt))"

definition setPeerVersion :: "time \<Rightarrow> peer_addr \<Rightarrow> ProtocolVersion \<Rightarrow> 'p NegotiatingTransport \<Rightarrow> 'p NegotiatingTransport" where
  "setPeerVersion now addr version nt =
     (let ttl = (if version = ProtocolLegacy then PeerVersionLegacyTTL else PeerVersionTTL)
      in nt\<lparr>peerVersions := mput addr \<lparr>pv_version = version, expiresAt = now + ttl\<rparr> (peerVersions nt)\<rparr>)"

definition setPeerCapabilities :: "peer_addr \<Rightarrow> u8 \<Rightarrow> 'p NegotiatingTransport \<Rightarrow> 'p NegotiatingTransport" where
  "setPeerCapabilities addr caps nt = nt\<lparr>peerCapabilities := mput addr caps (peerCapabilities nt)\<rparr>"

definition GetPeerCapabilities :: "time \<Rightarrow> peer_addr \<Rightarrow> 'p NegotiatingTransport \<Rightarrow> u8 \<times> 'p NegotiatingTransport" where
  "GetPeerCapabilities now addr nt =
     (let (version, nt1) = getPeerVersion now addr nt
      in if version = 255 then (0, nt1\<lparr>peerCapabilities := mdel addr (peerCapabilities nt1)\<rparr>)
         else (case mget (peerCapabilities nt1) addr of None \<Rightarrow> (0, nt1) | Some c \<Rightarrow> (c, nt1)))"

definition sendWithVersion :: "'p \<Rightarrow> peer_addr \<Rightarrow> ProtocolVersion \<Rightarrow> 'p NegotiatingTransport \<Rightarrow>
    (nt_error + unit) \<times> 'p nt_event list" where
  "sendWithVersion packet addr version nt =
     (if version = ProtocolNoiseIK then
        (if \<not> hasNoise nt then (Err ErrUnsupportedProtocolVersion, []) else (Ok (), [SentNoise packet addr]))
      else if version = ProtocolLegacy then (Ok (), [SentLegacy packet addr])
      else (Err ErrUnsupportedProtocolVersion, []))"

definition handleNegotiationFailure :: "time \<Rightarrow> 'p \<Rightarrow> peer_addr \<Rightarrow> nt_error \<Rightarrow> 'p NegotiatingTransport \<Rightarrow>
    (nt_error + unit) \<times> 'p NegotiatingTransport \<times> 'p nt_event list" where
  "handleNegotiationFailure now packet addr err nt =
     (if \<not> fallbackEnabled nt then (Err (VersionNegotiationFatal err), nt, [])
      else (Ok (), setPeerVersion now addr ProtocolLegacy nt, [SentLegacy packet addr]))"

text \<open>
  \<^verbatim>\<open>Send\<close> up to the point where it blocks. It returns \<open>None\<close> when it waits: the first caller for
  a peer creates, registers and sends the negotiation packet (\<^verbatim>\<open>performNegotiation\<close>), a later one
  joins it. \<open>sent\<close> is whether the socket took the negotiation packet.
\<close>

definition Send_begin :: "ed25519 \<Rightarrow> time \<Rightarrow> bool \<Rightarrow> 'p \<Rightarrow> peer_addr \<Rightarrow> 'p NegotiatingTransport \<Rightarrow>
    (nt_error + unit) option \<times> 'p NegotiatingTransport \<times> 'p nt_event list" where
  "Send_begin E now sent packet addr nt0 =
     (let (peerVersion, nt) = getPeerVersion now addr nt0
      in if peerVersion \<noteq> 255 then
           (let (r, evs) = sendWithVersion packet addr peerVersion nt in (Some r, nt, evs))
         else (case mget (waiting nt) addr of
             Some ps \<Rightarrow> (None, nt\<lparr>waiting := mput addr (ps @ [packet]) (waiting nt)\<rparr>, [])
           | None \<Rightarrow>
             (case createNegotiationPacket E (negotiator nt) of
                Inl e \<Rightarrow> (let (r, nt1, evs) = handleNegotiationFailure now packet addr (NegotiationFailed e) nt
                          in (Some r, nt1, evs))
              | Inr d \<Rightarrow>
                if sent then (None, nt\<lparr>negotiator := registerPendingNegotiation addr (negotiator nt),
                                       waiting := mput addr [packet] (waiting nt)\<rparr>, [Negotiation d addr])
                else (let (r, nt1, evs) = handleNegotiationFailure now packet addr NegotiationSendFailed nt
                      in (Some r, nt1, evs)))))"

text \<open>
  The end of a negotiation: the caller that waits for \<open>addr\<close> takes the version from the channel, or
  the timeout when the channel is empty, and removes the registration; every joined call goes on with
  the result.
\<close>

fun finish_sends :: "time \<Rightarrow> peer_addr \<Rightarrow> nt_error + ProtocolVersion \<Rightarrow> 'p list \<Rightarrow> 'p NegotiatingTransport \<Rightarrow>
    (nt_error + unit) list \<times> 'p NegotiatingTransport \<times> 'p nt_event list" where
  "finish_sends now addr result [] nt = ([], nt, [])"
| "finish_sends now addr result (p # ps) nt =
     (let (r, nt1, evs) = (case result of
             Inl err \<Rightarrow> handleNegotiationFailure now p addr err nt
           | Inr version \<Rightarrow>
               let nt1 = setPeerVersion now addr version nt; (r, evs) = sendWithVersion p addr version nt1
               in (r, nt1, evs));
          (rs, nt2, evs2) = finish_sends now addr result ps nt1
      in (r # rs, nt2, evs @ evs2))"

definition Send_end :: "time \<Rightarrow> peer_addr \<Rightarrow> 'p NegotiatingTransport \<Rightarrow>
    (nt_error + unit) list \<times> 'p NegotiatingTransport \<times> 'p nt_event list" where
  "Send_end now addr nt =
     (case mget (waiting nt) addr of
        None \<Rightarrow> ([], nt, [])
      | Some ps \<Rightarrow>
          let result = (case mget (pending (negotiator nt)) addr of
                 Some (Some version) \<Rightarrow> Ok version | _ \<Rightarrow> Err NegotiationTimeoutError);
              nt1 = nt\<lparr>negotiator := cleanupPendingNegotiation addr (negotiator nt),
                       waiting := mdel addr (waiting nt)\<rparr>
          in finish_sends now addr result ps nt1)"

fun is_security_error :: "vn_error \<Rightarrow> bool" where
  "is_security_error (SignatureVerificationError _) = True"
| "is_security_error SignatureVerificationFailed = True"
| "is_security_error (SignaturesRequired e) = is_security_error e"
| "is_security_error (VersionDataUnparsable e) = is_security_error e"
| "is_security_error (ParseFailed e) = is_security_error e"
| "is_security_error (SerializeFailed e) = is_security_error e"
| "is_security_error _ = False"

definition parseAndValidatePacket ::
    "ed25519 \<Rightarrow> bytes \<Rightarrow> 'p NegotiatingTransport \<Rightarrow> nt_error + (VersionNegotiationPacket \<times> key32 option \<times> u8)" where
  "parseAndValidatePacket E data nt =
     (case ParseVersionPacket E (negotiator nt) data of
        Inl e \<Rightarrow> if is_security_error e then Err (SecurityRejected e) else Err (ParsingRejected e)
      | Inr r \<Rightarrow> Ok r)"

definition buildSignedResponse :: "ed25519 \<Rightarrow> VersionNegotiationPacket \<Rightarrow> 'p NegotiatingTransport \<Rightarrow> vn_error + bytes" where
  "buildSignedResponse E responsePacket nt =
     (case SerializeSignedVersionNegotiation E
         (Some \<lparr>SupportedVersions = SupportedVersions responsePacket,
            PreferredVersion = PreferredVersion responsePacket, SenderPublicKey = 0,
            Signature = replicate SignatureSize 0, Capabilities = 0\<rparr>) (nt_staticPrivateKey nt) of
        Inl e \<Rightarrow> Err (SerializeFailed e) | Inr d \<Rightarrow> Ok d)"

definition buildVersionResponse :: "ed25519 \<Rightarrow> ProtocolVersion \<Rightarrow> 'p NegotiatingTransport \<Rightarrow> vn_error + bytes" where
  "buildVersionResponse E selectedVersion nt =
     (let responsePacket = \<lparr>SupportedVersions = CapSupportedVersions (capabilities nt),
            PreferredVersion = selectedVersion\<rparr>
      in if requireSignatures (negotiator nt) then buildSignedResponse E responsePacket nt
         else SerializeVersionNegotiation (Some responsePacket))"

definition handleVersionNegotiation :: "ed25519 \<Rightarrow> time \<Rightarrow> bytes \<Rightarrow> peer_addr \<Rightarrow> 'p NegotiatingTransport \<Rightarrow>
    (nt_error + unit) \<times> 'p NegotiatingTransport \<times> 'p nt_event list" where
  "handleVersionNegotiation E now data senderAddr nt =
     (case parseAndValidatePacket E data nt of
        Inl e \<Rightarrow> (Err e, nt, [])
      | Inr (vnPacket, senderPubKey, peerCaps) \<Rightarrow>
        let selectedVersion = SelectBestVersion (negotiator nt) (SupportedVersions vnPacket);
            nt1 = setPeerVersion now senderAddr selectedVersion nt;
            required = AdvertisedCapabilities (capabilities nt);
            negotiatedCaps = NegotiateCapabilities required peerCaps;
            nt2 = setPeerCapabilities senderAddr negotiatedCaps nt1
        in if DisallowCapabilityDowngrade (capabilities nt) \<and> negotiatedCaps \<noteq> required
           then (Err (CapabilityDowngradeRefused (required AND NOT negotiatedCaps)), nt2, [])
           else (case handleResponse senderAddr (SupportedVersions vnPacket) (negotiator nt2) of
               (True, vn) \<Rightarrow> (Ok (), nt2\<lparr>negotiator := vn\<rparr>, [])
             | (False, vn) \<Rightarrow>
               (case buildVersionResponse E selectedVersion (nt2\<lparr>negotiator := vn\<rparr>) of
                  Inl e \<Rightarrow> (Err (ResponseFailed e), nt2\<lparr>negotiator := vn\<rparr>, [])
                | Inr d \<Rightarrow> (Ok (), nt2\<lparr>negotiator := vn\<rparr>, [Negotiation d senderAddr]))))"

text \<open>What can happen to a transport, and the run of a sequence of such steps.\<close>

datatype 'p nt_step =
    CallSend time bool 'p peer_addr
  | EndWait time peer_addr
  | Receive time bytes peer_addr
  | SetVersion time peer_addr ProtocolVersion
  | AskCapabilities time peer_addr

fun nt_do :: "ed25519 \<Rightarrow> 'p nt_step \<Rightarrow> 'p NegotiatingTransport \<Rightarrow> 'p NegotiatingTransport \<times> 'p nt_event list" where
  "nt_do E (CallSend now sent p a) nt = snd (Send_begin E now sent p a nt)"
| "nt_do E (EndWait now a) nt = snd (Send_end now a nt)"
| "nt_do E (Receive now d a) nt = snd (handleVersionNegotiation E now d a nt)"
| "nt_do E (SetVersion now a v) nt = (setPeerVersion now a v nt, [])"
| "nt_do E (AskCapabilities now a) nt = (snd (GetPeerCapabilities now a nt), [])"

fun nt_run :: "ed25519 \<Rightarrow> 'p nt_step list \<Rightarrow> 'p NegotiatingTransport \<Rightarrow> 'p NegotiatingTransport \<times> 'p nt_event list" where
  "nt_run E [] nt = (nt, [])"
| "nt_run E (s # ss) nt =
     (let (nt1, evs) = nt_do E s nt; (nt2, evs2) = nt_run E ss nt1 in (nt2, evs @ evs2))"

end
