(* ===== verification/Negotiation_Properties.thy ===== *)
theory Negotiation_Properties
  imports Negotiating_Transport
begin

text \<open>
  Two transports that negotiate with each other, and one transport that meets strangers: agreement of
  the two sides, what makes a transport use the legacy protocol, and four ways in which the exchange
  falls short of its purpose.
\<close>

section \<open>Parsing what a negotiator wrote\<close>

lemma ParseVersionPacket_signed:
  assumes "ParseSignedVersionNegotiation E d = Ok q" and "98 \<le> length d"
  shows "ParseVersionPacket E vn d =
     Ok (\<lparr>SupportedVersions = SupportedVersions q, PreferredVersion = PreferredVersion q\<rparr>,
         Some (SenderPublicKey q), Capabilities q)"
  using assms by (simp add: ParseVersionPacket_def)

text \<open>A packet signed by a negotiator with capabilities, or with an unambiguous offer, arrives.\<close>

lemma signed_offer_arrives:
  assumes "ed_correct E" and "1 \<le> length vs" and "length vs \<le> 16"
    and "c = 0 \<Longrightarrow> v \<noteq> 0 \<Longrightarrow> unat (hd vs) + 1 \<noteq> length vs"
  shows "\<exists>d. SerializeSignedVersionNegotiation E
        (Some \<lparr>SupportedVersions = vs, PreferredVersion = v, SenderPublicKey = x, Signature = y, Capabilities = c\<rparr>) k = Ok d \<and>
     (\<forall>vn. ParseVersionPacket E vn d =
        Ok (\<lparr>SupportedVersions = vs, PreferredVersion = v\<rparr>, Some (GetSignaturePublicKey E k), c))"
proof -
  let ?p = "\<lparr>SupportedVersions = vs, PreferredVersion = v, SenderPublicKey = x, Signature = y, Capabilities = c\<rparr>"
  have "\<not> ambiguous ?p" using assms(4) by (auto simp: ambiguous_def)
  then have "read_back pk sig ?p = ?p\<lparr>SenderPublicKey := pk, Signature := sig\<rparr>" for pk sig
    by (simp add: read_back_def)
  with ParseSigned_SerializeSigned [of E ?p k] assms(1-3)
  obtain d sig where "SerializeSignedVersionNegotiation E (Some ?p) k = Ok d" "98 \<le> length d"
    "ParseSignedVersionNegotiation E d = Ok (?p\<lparr>SenderPublicKey := GetSignaturePublicKey E k, Signature := sig\<rparr>)"
    by auto
  then show ?thesis using ParseVersionPacket_signed by fastforce
qed

section \<open>A new transport with signatures\<close>

text \<open>
  What the constructor makes of capabilities that ask for signatures, with a key that is not zero.
\<close>

definition made :: "ProtocolCapabilities \<Rightarrow> key32 \<Rightarrow> 'p NegotiatingTransport \<Rightarrow> bool" where
  "made caps k nt \<longleftrightarrow> NewNegotiatingTransport (Some caps) (key_bytes k) True = Ok nt \<and> k \<noteq> 0 \<and>
     RequireSignedNegotiation caps"

lemma NewVersionNegotiator_supported:
  "supported \<noteq> [] \<Longrightarrow> supportedVersions (NewVersionNegotiator supported v t) = supported"
  by (simp add: NewVersionNegotiator_def Let_def)

lemma madeD:
  assumes "made caps k nt"
  shows "capabilities nt = caps" and "negotiator nt = createVersionNegotiator caps k"
    and "peerVersions nt = []" and "waiting nt = []" and "peerCapabilities nt = []"
    and "nt_staticPrivateKey nt = k" and "fallbackEnabled nt = EnableLegacyFallback caps"
    and "CapSupportedVersions caps \<noteq> []"
    and "hasNoise nt \<longleftrightarrow> ProtocolNoiseIK \<in> set (supportedVersions (negotiator nt))"
  using assms
  by (auto simp: made_def NewNegotiatingTransport_def normalizeCapabilities_def Let_def
      validateAndCopyStaticKey_def createNoiseTransportIfSupported_def IsVersionSupported_def
      split: if_splits sum.splits)

lemma createVersionNegotiator_signed:
  assumes "RequireSignedNegotiation caps" and "k \<noteq> 0"
  shows "requireSignatures (createVersionNegotiator caps k)"
    and "advertisedCapabilities (createVersionNegotiator caps k) = AdvertisedCapabilities caps"
    and "vn_staticPrivateKey (createVersionNegotiator caps k) = k"
    and "pending (createVersionNegotiator caps k) = []"
  using assms by (simp_all add: createVersionNegotiator_def NewSignedVersionNegotiatorWithCapabilities_def
      NewSignedVersionNegotiator_def NewVersionNegotiator_def Let_def split: prod.splits)

lemma createVersionNegotiator_supported:
  assumes "CapSupportedVersions caps \<noteq> []"
  shows "supportedVersions (createVersionNegotiator caps k) =
     (let vs = fst (applySessionPolicyToCapabilities caps) in if vs = [] then [ProtocolLegacy] else vs)"
  by (auto simp: createVersionNegotiator_def NewSignedVersionNegotiatorWithCapabilities_def
      NewSignedVersionNegotiator_def NewVersionNegotiator_def Let_def split: prod.splits)

lemma applied_versions:
  "fst (applySessionPolicyToCapabilities caps) =
     (if SessionPolicyOf caps = PolicyUnset then CapSupportedVersions caps
      else filter (AllowsVersion (SessionPolicyOf caps)) (CapSupportedVersions caps))"
  by (auto simp: applySessionPolicyToCapabilities_def FilterVersions_def Let_def)

lemma negotiator_versions_length:
  assumes "CapSupportedVersions caps \<noteq> []" and "length (CapSupportedVersions caps) \<le> 16"
  shows "1 \<le> length (supportedVersions (createVersionNegotiator caps k))"
    and "length (supportedVersions (createVersionNegotiator caps k)) \<le> 16"
proof -
  have "length (filter P (CapSupportedVersions caps)) \<le> 16" for P
    using length_filter_le [of P "CapSupportedVersions caps"] assms(2) by linarith
  then show "1 \<le> length (supportedVersions (createVersionNegotiator caps k))"
    and "length (supportedVersions (createVersionNegotiator caps k)) \<le> 16"
    using assms by (auto simp: createVersionNegotiator_supported applied_versions Let_def Suc_le_eq)
qed


section \<open>The steps of an exchange\<close>

text \<open>The first packet of a new transport to a peer starts a negotiation with its own versions.\<close>

lemma first_send_negotiates:
  assumes "ed_correct E" and "made caps k nt" and "length (CapSupportedVersions caps) \<le> 16"
    and "AdvertisedCapabilities caps \<noteq> 0"
  shows "\<exists>req. Send_begin E now True p b nt =
        (None, nt\<lparr>negotiator := registerPendingNegotiation b (negotiator nt), waiting := [(b, [p])]\<rparr>, [Negotiation req b]) \<and>
     (\<forall>vn. \<exists>pk. ParseVersionPacket E vn req =
        Ok (\<lparr>SupportedVersions = supportedVersions (negotiator nt), PreferredVersion = preferredVersion (negotiator nt)\<rparr>,
            Some pk, AdvertisedCapabilities caps))"
proof -
  note nt = madeD [OF assms(2)]
  have signed: "requireSignatures (negotiator nt)" "advertisedCapabilities (negotiator nt) = AdvertisedCapabilities caps"
    using assms(2) createVersionNegotiator_signed [of caps k] by (auto simp: nt made_def)
  from negotiator_versions_length [OF nt(8) assms(3), of k] nt(2)
  have "1 \<le> length (supportedVersions (negotiator nt))" "length (supportedVersions (negotiator nt)) \<le> 16"
    by simp_all
  from signed_offer_arrives [OF assms(1) this, of "AdvertisedCapabilities caps"
      "preferredVersion (negotiator nt)" 0 "replicate SignatureSize 0" "vn_staticPrivateKey (negotiator nt)"] assms(4) signed
  obtain req where "createNegotiationPacket E (negotiator nt) = Ok req"
    and "\<forall>vn. \<exists>pk. ParseVersionPacket E vn req =
        Ok (\<lparr>SupportedVersions = supportedVersions (negotiator nt), PreferredVersion = preferredVersion (negotiator nt)\<rparr>,
            Some pk, AdvertisedCapabilities caps)"
    by (auto simp: createNegotiationPacket_def serializeNegotiationPacket_def)
  then show ?thesis using nt by (auto simp: Send_begin_def getPeerVersion_def mput_def mdel_def)
qed

text \<open>A transport with no negotiation of its own answers with its configured versions.\<close>

lemma request_answered:
  assumes "ed_correct E" and "made caps k nt" and "length (CapSupportedVersions caps) \<le> 16"
    and "unat (hd (CapSupportedVersions caps)) + 1 \<noteq> length (CapSupportedVersions caps)"
    and "DisallowCapabilityDowngrade caps \<Longrightarrow> AdvertisedCapabilities caps AND c = AdvertisedCapabilities caps"
    and "ParseVersionPacket E (negotiator nt) req = Ok (vnp, pk, c)"
  shows "\<exists>resp. handleVersionNegotiation E now req a nt =
        (Ok (), setPeerCapabilities a (AdvertisedCapabilities caps AND c)
           (setPeerVersion now a (SelectBestVersion (negotiator nt) (SupportedVersions vnp)) nt), [Negotiation resp a]) \<and>
     (\<forall>vn. \<exists>pk w. ParseVersionPacket E vn resp =
        Ok (\<lparr>SupportedVersions = CapSupportedVersions caps, PreferredVersion = w\<rparr>, Some pk, 0))"
proof -
  note nt = madeD [OF assms(2)]
  have signed: "requireSignatures (negotiator nt)" "pending (negotiator nt) = []"
    using assms(2) createVersionNegotiator_signed [of caps k] by (auto simp: nt made_def)
  have "1 \<le> length (CapSupportedVersions caps)" using nt(8) by (simp add: Suc_le_eq)
  from signed_offer_arrives [OF assms(1) this assms(3), of 0 "SelectBestVersion (negotiator nt) (SupportedVersions vnp)"] assms(4)
  obtain resp where resp: "SerializeSignedVersionNegotiation E (Some \<lparr>SupportedVersions = CapSupportedVersions caps,
        PreferredVersion = SelectBestVersion (negotiator nt) (SupportedVersions vnp), SenderPublicKey = 0,
        Signature = replicate SignatureSize 0, Capabilities = 0\<rparr>) k = Ok resp"
    and "\<forall>vn. \<exists>pk w. ParseVersionPacket E vn resp =
        Ok (\<lparr>SupportedVersions = CapSupportedVersions caps, PreferredVersion = w\<rparr>, Some pk, 0)"
    by blast
  moreover from resp signed nt assms(5,6)
  have "handleVersionNegotiation E now req a nt =
        (Ok (), setPeerCapabilities a (AdvertisedCapabilities caps AND c)
           (setPeerVersion now a (SelectBestVersion (negotiator nt) (SupportedVersions vnp)) nt), [Negotiation resp a])"
    by (cases "DisallowCapabilityDowngrade caps")
      (simp_all add: handleVersionNegotiation_def parseAndValidatePacket_def Let_def NegotiateCapabilities_def
        handleResponse_def setPeerVersion_def setPeerCapabilities_def buildVersionResponse_def buildSignedResponse_def)
  ultimately show ?thesis by blast
qed

text \<open>The answer fills the channel of the caller that waits for it.\<close>

lemma answer_taken:
  assumes "\<not> DisallowCapabilityDowngrade (capabilities nt)"
    and "mget (pending (negotiator nt)) b = Some None"
    and "ParseVersionPacket E (negotiator nt) resp = Ok (vnp, pk, c)"
    and "v = SelectBestVersion (negotiator nt) (SupportedVersions vnp)"
  shows "handleVersionNegotiation E now resp b nt =
     (Ok (), setPeerCapabilities b (AdvertisedCapabilities (capabilities nt) AND c) (setPeerVersion now b v nt)
        \<lparr>negotiator := (negotiator nt)\<lparr>pending := mput b (Some v) (pending (negotiator nt))\<rparr>\<rparr>, [])"
  using assms
  by (simp add: handleVersionNegotiation_def parseAndValidatePacket_def Let_def NegotiateCapabilities_def
      handleResponse_def setPeerVersion_def setPeerCapabilities_def)


lemma getPeerVersion_set_caps:
  "getPeerVersion now a (setPeerCapabilities a c (setPeerVersion now a v nt)) =
     (v, setPeerCapabilities a c (setPeerVersion now a v nt))"
  by (simp add: getPeerVersion_def setPeerVersion_def setPeerCapabilities_def dict_simps
      Let_def)

section \<open>Agreement\<close>


lemma default_made:
  assumes "k \<noteq> 0"
  shows "\<exists>nt :: 'p NegotiatingTransport. made DefaultProtocolCapabilities k nt"
proof -
  have "IsVersionSupported (createVersionNegotiator DefaultProtocolCapabilities k) ProtocolNoiseIK"
    by (simp add: IsVersionSupported_def createVersionNegotiator_supported applied_versions
        DefaultProtocolCapabilities_def)
  with assms show ?thesis
    by (simp add: made_def NewNegotiatingTransport_def normalizeCapabilities_def validateAndCopyStaticKey_def
        requiresStaticKey_def createNoiseTransportIfSupported_def DefaultProtocolCapabilities_def Let_def)
qed

lemma default_supported:
  assumes "made DefaultProtocolCapabilities k nt"
  shows "supportedVersions (negotiator nt) = [0, 1]"
  using madeD(2) [OF assms]
  by (simp add: createVersionNegotiator_supported applied_versions DefaultProtocolCapabilities_def version_consts)

lemma default_caps:
  "length (CapSupportedVersions DefaultProtocolCapabilities) \<le> 16"
  "AdvertisedCapabilities DefaultProtocolCapabilities \<noteq> 0"
  "unat (hd (CapSupportedVersions DefaultProtocolCapabilities)) + 1 \<noteq> length (CapSupportedVersions DefaultProtocolCapabilities)"
  "SessionPolicyOf DefaultProtocolCapabilities = PolicyUnset \<or>
     list_all (AllowsVersion (SessionPolicyOf DefaultProtocolCapabilities)) (CapSupportedVersions DefaultProtocolCapabilities)"
  "\<not> DisallowCapabilityDowngrade DefaultProtocolCapabilities"
  by (simp_all add: DefaultProtocolCapabilities_def version_consts
     )


section \<open>What makes a transport use the legacy protocol\<close>

text \<open>
  The reasons for the legacy protocol with peer \<open>a\<close> in a run: the application chose it, or a
  packet from \<open>a\<close> with a valid signature offered no better version.
\<close>

definition legacy_cause :: "ed25519 \<Rightarrow> ProtocolVersion list \<Rightarrow> 'p nt_step set \<Rightarrow> peer_addr \<Rightarrow> bool" where
  "legacy_cause E vs S a \<longleftrightarrow>
     (\<exists>now. SetVersion now a ProtocolLegacy \<in> S) \<or>
     (\<exists>now d q. Receive now d a \<in> S \<and> ParseSignedVersionNegotiation E d = Ok q \<and>
        ed_verify E (SenderPublicKey q) (drop 96 d) (Signature q) \<and>
        selectBestSupportedVersion vs (SupportedVersions q) = ProtocolLegacy)"

definition legacy_justified :: "ed25519 \<Rightarrow> ProtocolVersion list \<Rightarrow> 'p nt_step set \<Rightarrow> 'p NegotiatingTransport \<Rightarrow> bool" where
  "legacy_justified E vs S nt \<longleftrightarrow>
     requireSignatures (negotiator nt) \<and> \<not> fallbackEnabled nt \<and> supportedVersions (negotiator nt) = vs \<and>
     (\<forall>a e. mget (peerVersions nt) a = Some e \<longrightarrow> pv_version e = ProtocolLegacy \<longrightarrow> legacy_cause E vs S a) \<and>
     (\<forall>a. mget (pending (negotiator nt)) a = Some (Some ProtocolLegacy) \<longrightarrow> legacy_cause E vs S a)"

lemma ParseSigned_OkD:
  assumes "ParseSignedVersionNegotiation E d = Ok q"
  shows "ed_verify E (SenderPublicKey q) (drop 96 d) (Signature q)"
  using assms
  by (auto simp: ParseSignedVersionNegotiation_def Let_def parse_signed_data_def Verify_def
      split: if_splits sum.splits)

lemma parse_required_OkD:
  assumes "parseAndValidatePacket E d nt = Ok (vnp, pk, c)" and "requireSignatures (negotiator nt)"
  shows "\<exists>q. ParseSignedVersionNegotiation E d = Ok q \<and> SupportedVersions vnp = SupportedVersions q"
  using assms
  by (auto simp: parseAndValidatePacket_def ParseVersionPacket_def Let_def split: if_splits sum.splits)

lemma justified_setPeerVersion:
  "legacy_justified E vs S nt \<Longrightarrow> (v = ProtocolLegacy \<Longrightarrow> legacy_cause E vs S a) \<Longrightarrow>
     legacy_justified E vs S (setPeerVersion now a v nt)"
  by (auto simp: legacy_justified_def setPeerVersion_def Let_def dict_simps split: if_splits)

lemma justified_getPeerVersion:
  assumes "legacy_justified E vs S nt" and "getPeerVersion now a nt = (v, nt1)"
  shows "legacy_justified E vs S nt1" and "v = ProtocolLegacy \<Longrightarrow> legacy_cause E vs S a"
  using assms
  by (auto simp: legacy_justified_def getPeerVersion_def dict_simps version_consts split: if_splits option.splits)

lemma justified_Receive:
  assumes "legacy_justified E vs S nt" and "Receive now d a \<in> S"
    and "handleVersionNegotiation E now d a nt = (r, nt', evs)"
  shows "legacy_justified E vs S nt' \<and> (\<forall>p b. SentLegacy p b \<notin> set evs)"
proof (cases "parseAndValidatePacket E d nt")
  case (Inl e)
  then show ?thesis using assms by (auto simp: handleVersionNegotiation_def)
next
  case (Inr x)
  obtain vnp pk c where x: "x = (vnp, pk, c)" by (cases x)
  let ?v = "SelectBestVersion (negotiator nt) (SupportedVersions vnp)"
  from assms(1) have req: "requireSignatures (negotiator nt)" "supportedVersions (negotiator nt) = vs"
    by (simp_all add: legacy_justified_def)
  from parse_required_OkD [OF Inr [unfolded x] req(1)] ParseSigned_OkD assms(2) req(2)
  have cause: "?v = ProtocolLegacy \<Longrightarrow> legacy_cause E vs S a"
    by (fastforce simp: legacy_cause_def SelectBestVersion_def)
  let ?nt2 = "setPeerCapabilities a (AdvertisedCapabilities (capabilities nt) AND c) (setPeerVersion now a ?v nt)"
  have J: "legacy_justified E vs S ?nt2" using justified_setPeerVersion [OF assms(1) cause]
    by (simp add: legacy_justified_def setPeerCapabilities_def)
  have neg: "negotiator ?nt2 = negotiator nt" by (simp add: setPeerCapabilities_def setPeerVersion_def Let_def)
  have "legacy_justified E vs S (?nt2\<lparr>negotiator := snd (handleResponse a (SupportedVersions vnp) (negotiator nt))\<rparr>)"
    using J cause neg
    by (auto simp: legacy_justified_def handleResponse_def Let_def dict_simps SelectBestVersion_def
        split: option.splits if_splits)
  with J Inr x neg assms(3) show ?thesis
    by (auto simp: handleVersionNegotiation_def Let_def NegotiateCapabilities_def split: if_splits prod.splits sum.splits bool.splits)
qed

lemma sendWithVersion_legacy:
  "SentLegacy q b \<in> set (snd (sendWithVersion p a v nt)) \<longleftrightarrow> v = ProtocolLegacy \<and> q = p \<and> b = a"
  by (auto simp: sendWithVersion_def version_consts)

lemma justified_Send_begin:
  assumes "legacy_justified E vs S nt" and "Send_begin E now sent p a nt = (r, nt', evs)"
  shows "legacy_justified E vs S nt' \<and> (\<forall>q b. SentLegacy q b \<in> set evs \<longrightarrow> legacy_cause E vs S b)"
proof -
  obtain v nt1 where v: "getPeerVersion now a nt = (v, nt1)" by fastforce
  note J = justified_getPeerVersion [OF assms(1) v]
  show ?thesis
  proof (cases "v = 255")
    case False
    with v assms(2) have "nt' = nt1" "evs = snd (sendWithVersion p a v nt1)"
      by (auto simp: Send_begin_def split: prod.splits)
    with J show ?thesis by (auto simp: sendWithVersion_legacy)
  next
    case True
    have "\<not> fallbackEnabled nt1" using J(1) by (simp add: legacy_justified_def)
    moreover have "legacy_justified E vs S (nt1\<lparr>waiting := w\<rparr>)"
      "legacy_justified E vs S (nt1\<lparr>negotiator := registerPendingNegotiation a (negotiator nt1), waiting := w\<rparr>)" for w
      using J(1) by (auto simp: legacy_justified_def registerPendingNegotiation_def dict_simps)
    ultimately show ?thesis using True v J(1) assms(2)
      by (auto simp: Send_begin_def handleNegotiationFailure_def split: option.splits sum.splits if_splits)
  qed
qed

lemma justified_finish:
  assumes "legacy_justified E vs S nt" and "result = Ok ProtocolLegacy \<Longrightarrow> legacy_cause E vs S a"
    and "finish_sends now a result ps nt = (rs, nt', evs)"
  shows "legacy_justified E vs S nt' \<and> (\<forall>q b. SentLegacy q b \<in> set evs \<longrightarrow> legacy_cause E vs S b)"
  using assms
proof (induction ps arbitrary: nt rs nt' evs)
  case (Cons p ps)
  have nofall: "\<not> fallbackEnabled nt" using Cons.prems(1) by (simp add: legacy_justified_def)
  obtain rs2 nt2 evs2 nt1 evs1 where *: "finish_sends now a result ps nt1 = (rs2, nt2, evs2)"
    "nt' = nt2" "evs = evs1 @ evs2"
    and 1: "(nt1, evs1) = (case result of Inl err \<Rightarrow> (nt, [])
        | Inr v \<Rightarrow> (setPeerVersion now a v nt, snd (sendWithVersion p a v (setPeerVersion now a v nt))))"
    using Cons.prems(3) nofall
    by (auto simp: handleNegotiationFailure_def Let_def split: prod.splits sum.splits)
  from 1 Cons.prems(1,2) have "legacy_justified E vs S nt1"
    "\<forall>q b. SentLegacy q b \<in> set evs1 \<longrightarrow> legacy_cause E vs S b"
    by (auto simp: sendWithVersion_legacy justified_setPeerVersion split: sum.splits)
  with Cons.IH [OF _ Cons.prems(2) *(1)] *(2,3) show ?case by auto
qed simp

lemma justified_Send_end:
  assumes "legacy_justified E vs S nt" and "Send_end now a nt = (rs, nt', evs)"
  shows "legacy_justified E vs S nt' \<and> (\<forall>q b. SentLegacy q b \<in> set evs \<longrightarrow> legacy_cause E vs S b)"
proof (cases "mget (waiting nt) a")
  case None
  then show ?thesis using assms by (auto simp: Send_end_def)
next
  case (Some ps)
  let ?result = "case mget (pending (negotiator nt)) a of
       Some (Some version) \<Rightarrow> Ok version | _ \<Rightarrow> Err NegotiationTimeoutError"
  let ?nt1 = "nt\<lparr>negotiator := cleanupPendingNegotiation a (negotiator nt), waiting := mdel a (waiting nt)\<rparr>"
  have "legacy_justified E vs S ?nt1" using assms(1)
    by (auto simp: legacy_justified_def cleanupPendingNegotiation_def dict_simps split: if_splits)
  moreover have "?result = Ok ProtocolLegacy \<Longrightarrow> legacy_cause E vs S a" using assms(1)
    by (auto simp: legacy_justified_def split: option.splits)
  ultimately show ?thesis using assms(2) Some justified_finish [of E vs S ?nt1 ?result a now ps rs nt' evs]
    by (simp add: Send_end_def Let_def)
qed

lemma justified_step:
  assumes "legacy_justified E vs S nt" and "s \<in> S" and "nt_do E s nt = (nt', evs)"
  shows "legacy_justified E vs S nt' \<and> (\<forall>q b. SentLegacy q b \<in> set evs \<longrightarrow> legacy_cause E vs S b)"
proof (cases s)
  case (CallSend now sent p a)
  then show ?thesis using assms justified_Send_begin [OF assms(1)]
    by (metis nt_do.simps(1) prod.collapse)
next
  case (EndWait now a)
  then show ?thesis using assms justified_Send_end [OF assms(1)] by (metis nt_do.simps(2) prod.collapse)
next
  case (Receive now d a)
  then show ?thesis using assms justified_Receive [OF assms(1)] by (metis nt_do.simps(3) prod.collapse)
next
  case (SetVersion now a v)
  then show ?thesis using assms justified_setPeerVersion [OF assms(1), of v a now]
    by (auto simp: legacy_cause_def)
next
  case (AskCapabilities now a)
  obtain v nt1 where v: "getPeerVersion now a nt = (v, nt1)" by fastforce
  from justified_getPeerVersion(1) [OF assms(1) v]
  have "legacy_justified E vs S nt1" "legacy_justified E vs S (nt1\<lparr>peerCapabilities := m\<rparr>)" for m
    by (simp_all add: legacy_justified_def)
  then show ?thesis using assms(3) v AskCapabilities
    by (auto simp: GetPeerCapabilities_def split: if_splits option.splits)
qed

lemma justified_run:
  assumes "legacy_justified E vs S nt" and "set ss \<subseteq> S" and "nt_run E ss nt = (nt', evs)"
  shows "\<forall>q b. SentLegacy q b \<in> set evs \<longrightarrow> legacy_cause E vs S b"
  using assms
proof (induction ss arbitrary: nt nt' evs)
  case (Cons s ss)
  obtain nt1 evs1 where 1: "nt_do E s nt = (nt1, evs1)" by fastforce
  obtain nt2 evs2 where 2: "nt_run E ss nt1 = (nt2, evs2)" by fastforce
  from justified_step [OF Cons.prems(1) _ 1] Cons.prems(2)
  have "legacy_justified E vs S nt1" "\<forall>q b. SentLegacy q b \<in> set evs1 \<longrightarrow> legacy_cause E vs S b" by auto
  with Cons.IH [OF _ _ 2] Cons.prems(2,3) 1 2 show ?case by auto
qed simp

text \<open>
  C10. With signatures required and the legacy fallback off, a transport sends a packet in the legacy
  protocol, in any run of calls, waits and received packets, only if the application chose that
  version for the peer or a packet with a valid signature arrived from the peer's address whose
  versions have none above Legacy in common with its own. Failed negotiations, unsigned packets and
  packets with a bad signature never lead to it.
\<close>

theorem legacy_needs_signed_offer:
  assumes "made caps k nt" and "\<not> EnableLegacyFallback caps"
    and "nt_run E steps nt = (nt', evs)" and "SentLegacy p a \<in> set evs"
    and "\<forall>now. SetVersion now a ProtocolLegacy \<notin> set steps"
  shows "\<exists>now d q. Receive now d a \<in> set steps \<and> ParseSignedVersionNegotiation E d = Ok q \<and>
     ed_verify E (SenderPublicKey q) (drop 96 d) (Signature q) \<and>
     selectBestSupportedVersion (supportedVersions (negotiator nt)) (SupportedVersions q) = ProtocolLegacy"
proof -
  have "requireSignatures (negotiator nt)" "pending (negotiator nt) = []"
    using assms(1) createVersionNegotiator_signed [of caps k] madeD(2) [OF assms(1)] by (auto simp: made_def)
  then have "legacy_justified E (supportedVersions (negotiator nt)) (set steps) nt"
    using assms(2) madeD [OF assms(1)] by (simp add: legacy_justified_def)
  from justified_run [OF this _ assms(3)] assms(4)
  have "legacy_cause E (supportedVersions (negotiator nt)) (set steps) a" by simp
  then show ?thesis using assms(5) by (simp add: legacy_cause_def)
qed

text \<open>The steps of the attack below, as a run.\<close>

lemma legacy_run:
  assumes "made DefaultProtocolCapabilities k nt"
    and "handleVersionNegotiation E now d a nt = (Ok (), nt', evs)"
    and "Send_begin E now True p a nt' = (Some (Ok ()), nt', [SentLegacy p a])"
  shows "nt_run E [Receive now d a, CallSend now True p a] nt = (nt', evs @ [SentLegacy p a])"
  using assms by simp

section \<open>Where the exchange falls short\<close>

text \<open>
  C25. The signature does not say whose it is. With the default configuration, which switches the
  legacy fallback off, one packet signed with any key whatsoever that offers only Legacy makes the
  transport send the next packet to that address in the legacy protocol.
\<close>

theorem stranger_forces_legacy:
  assumes "ed_correct E" and "made DefaultProtocolCapabilities k nt"
  shows "fallbackEnabled nt = False \<and> (\<exists>d nt' evs.
     SerializeSignedVersionNegotiation E (Some \<lparr>SupportedVersions = [ProtocolLegacy], PreferredVersion = ProtocolLegacy,
        SenderPublicKey = 0, Signature = [], Capabilities = 0\<rparr>) strangerKey = Ok d \<and>
     handleVersionNegotiation E now d a nt = (Ok (), nt', evs) \<and>
     Send_begin E now sent p a nt' = (Some (Ok ()), nt', [SentLegacy p a]))"
proof -
  obtain d where d: "SerializeSignedVersionNegotiation E (Some \<lparr>SupportedVersions = [ProtocolLegacy],
        PreferredVersion = ProtocolLegacy, SenderPublicKey = 0, Signature = [], Capabilities = 0\<rparr>) strangerKey = Ok d"
    "ParseVersionPacket E (negotiator nt) d = Ok (\<lparr>SupportedVersions = [ProtocolLegacy],
        PreferredVersion = ProtocolLegacy\<rparr>, Some (GetSignaturePublicKey E strangerKey), 0)"
    using signed_offer_arrives [OF assms(1), of "[ProtocolLegacy]" 0 ProtocolLegacy 0 "[]" strangerKey]
    by (auto simp: version_consts)
  let ?nt1 = "setPeerCapabilities a 0 (setPeerVersion now a ProtocolLegacy nt)"
  have "SelectBestVersion (negotiator nt) [ProtocolLegacy] = ProtocolLegacy"
    by (simp add: SelectBestVersion_def selectBest_Max default_supported [OF assms(2)] version_consts)
  then obtain evs where "handleVersionNegotiation E now d a nt = (Ok (), ?nt1, evs)"
    using request_answered [OF assms(1,2) default_caps(1,3) _ d(2), of now a] default_caps(5) by auto
  moreover have "Send_begin E now sent p a ?nt1 = (Some (Ok ()), ?nt1, [SentLegacy p a])"
    by (simp add: Send_begin_def getPeerVersion_set_caps sendWithVersion_def version_consts)
  ultimately show ?thesis using d(1) madeD(7) [OF assms(2)]
    by (auto simp: DefaultProtocolCapabilities_def)
qed

text \<open>
  Two endpoints with the same capabilities that refuse any downgrade do not come together, because
  the answer to a negotiation never carries capabilities: the initiator refuses the answer of its
  equal as a downgrade. The version was stored before the refusal, so the next packet is nevertheless
  sent, in the version of the refused peer.
\<close>

theorem equal_peers_refused:
  assumes "ed_correct E" and "made c kA A" and "made c kB B" and "length (CapSupportedVersions c) \<le> 16"
    and "AdvertisedCapabilities c \<noteq> 0" and "DisallowCapabilityDowngrade c"
    and "unat (hd (CapSupportedVersions c)) + 1 \<noteq> length (CapSupportedVersions c)"
  shows "\<exists>req A1 resp B1 A2 v.
     Send_begin E t1 True p b A = (None, A1, [Negotiation req b]) \<and>
     handleVersionNegotiation E t2 req a B = (Ok (), B1, [Negotiation resp a]) \<and>
     handleVersionNegotiation E t3 resp b A1 = (Err (CapabilityDowngradeRefused (AdvertisedCapabilities c)), A2, []) \<and>
     getPeerVersion t3 b A2 = (v, A2) \<and>
     v = Max (insert ProtocolLegacy (set (supportedVersions (negotiator A)) \<inter> set (CapSupportedVersions c))) \<and>
     (v \<noteq> 255 \<longrightarrow> Send_begin E t3 sent p b A2 = (Some (fst (sendWithVersion p b v A2)), A2, snd (sendWithVersion p b v A2)))"
proof -
  note A = madeD [OF assms(2)] and B = madeD [OF assms(3)]
  let ?A1 = "A\<lparr>negotiator := registerPendingNegotiation b (negotiator A), waiting := [(b, [p])]\<rparr>"
  obtain req pkA where req: "Send_begin E t1 True p b A = (None, ?A1, [Negotiation req b])"
    and "ParseVersionPacket E (negotiator B) req =
        Ok (\<lparr>SupportedVersions = supportedVersions (negotiator A), PreferredVersion = preferredVersion (negotiator A)\<rparr>,
            Some pkA, AdvertisedCapabilities c)"
    using first_send_negotiates [OF assms(1,2,4,5)] by blast
  from request_answered [OF assms(1,3,4,7) _ this(2), of t2 a]
  obtain resp B1 where hB: "handleVersionNegotiation E t2 req a B = (Ok (), B1, [Negotiation resp a])"
    and "\<forall>vn. \<exists>pk w. ParseVersionPacket E vn resp =
        Ok (\<lparr>SupportedVersions = CapSupportedVersions c, PreferredVersion = w\<rparr>, Some pk, 0)"
    by auto
  then obtain pkB w where resp: "ParseVersionPacket E (negotiator ?A1) resp =
        Ok (\<lparr>SupportedVersions = CapSupportedVersions c, PreferredVersion = w\<rparr>, Some pkB, 0)" by blast
  let ?v = "SelectBestVersion (negotiator ?A1) (CapSupportedVersions c)"
  let ?A2 = "setPeerCapabilities b 0 (setPeerVersion t3 b ?v ?A1)"
  have hA: "handleVersionNegotiation E t3 resp b ?A1 =
      (Err (CapabilityDowngradeRefused (AdvertisedCapabilities c)), ?A2, [])"
    using resp assms(5,6) A(1)
    by (simp add: handleVersionNegotiation_def parseAndValidatePacket_def Let_def NegotiateCapabilities_def)
  have v: "?v = Max (insert ProtocolLegacy (set (supportedVersions (negotiator A)) \<inter> set (CapSupportedVersions c)))"
    by (simp add: SelectBestVersion_def selectBest_Max registerPendingNegotiation_def)
  have g: "getPeerVersion t3 b ?A2 = (?v, ?A2)" by (rule getPeerVersion_set_caps)
  have "?v \<noteq> 255 \<Longrightarrow> Send_begin E t3 sent p b ?A2 =
      (Some (fst (sendWithVersion p b ?v ?A2)), ?A2, snd (sendWithVersion p b ?v ?A2))"
    unfolding Send_begin_def g by (simp split: prod.splits)
  with req hB hA v g show ?thesis by blast
qed

text \<open>
  The answer ignores the session policy. A responder whose policy allows only Legacy keeps Legacy
  for the peer but answers with all its configured versions, so that an initiator with the default
  configuration keeps Noise-IK: the two sides disagree.
\<close>

theorem policy_missing_in_answer:
  assumes "ed_correct E" and "made DefaultProtocolCapabilities kA A"
    and "made (DefaultProtocolCapabilities\<lparr>SessionPolicyOf := PolicyLegacyOnly\<rparr>) kB B"
  shows "\<exists>req A1 resp B1 A2.
     Send_begin E t1 True p b A = (None, A1, [Negotiation req b]) \<and>
     handleVersionNegotiation E t2 req a B = (Ok (), B1, [Negotiation resp a]) \<and>
     handleVersionNegotiation E t3 resp b A1 = (Ok (), A2, []) \<and>
     getPeerVersion t2 a B1 = (ProtocolLegacy, B1) \<and> getPeerVersion t3 b A2 = (ProtocolNoiseIK, A2)"
proof -
  let ?cB = "DefaultProtocolCapabilities\<lparr>SessionPolicyOf := PolicyLegacyOnly\<rparr>"
  note A = madeD [OF assms(2)] and B = madeD [OF assms(3)] and D = DefaultProtocolCapabilities_def version_consts
  let ?A1 = "A\<lparr>negotiator := registerPendingNegotiation b (negotiator A), waiting := [(b, [p])]\<rparr>"
  obtain req pkA where req: "Send_begin E t1 True p b A = (None, ?A1, [Negotiation req b])"
    and pA: "ParseVersionPacket E (negotiator B) req =
        Ok (\<lparr>SupportedVersions = supportedVersions (negotiator A), PreferredVersion = preferredVersion (negotiator A)\<rparr>,
            Some pkA, AdvertisedCapabilities DefaultProtocolCapabilities)"
    using first_send_negotiates [OF assms(1,2) default_caps(1,2)] by blast
  have sB: "supportedVersions (negotiator B) = [0]"
    using B(2) by (simp add: createVersionNegotiator_supported applied_versions D)
  have cB: "length (CapSupportedVersions ?cB) \<le> 16" "CapSupportedVersions ?cB = [0, 1]"
    "unat (hd (CapSupportedVersions ?cB)) + 1 \<noteq> length (CapSupportedVersions ?cB)"
    by (simp_all add: D)
  obtain resp where hB: "handleVersionNegotiation E t2 req a B = (Ok (), setPeerCapabilities a
        (AdvertisedCapabilities ?cB AND AdvertisedCapabilities DefaultProtocolCapabilities)
        (setPeerVersion t2 a (SelectBestVersion (negotiator B) (supportedVersions (negotiator A))) B), [Negotiation resp a])"
    and "\<forall>vn. \<exists>pk w. ParseVersionPacket E vn resp =
        Ok (\<lparr>SupportedVersions = [0, 1], PreferredVersion = w\<rparr>, Some pk, 0)"
    using request_answered [OF assms(1,3) cB(1,3) _ pA, of t2 a] cB(2) default_caps(5) by auto
  then obtain pkB w where resp: "ParseVersionPacket E (negotiator ?A1) resp =
        Ok (\<lparr>SupportedVersions = [0, 1], PreferredVersion = w\<rparr>, Some pkB, 0)" by blast
  have vB: "SelectBestVersion (negotiator B) (supportedVersions (negotiator A)) = ProtocolLegacy"
    by (simp add: SelectBestVersion_def selectBest_Max sB default_supported [OF assms(2)] version_consts)
  have vA: "ProtocolNoiseIK = SelectBestVersion (negotiator ?A1) [0, 1]"
    by (simp add: SelectBestVersion_def selectBest_Max default_supported [OF assms(2)] version_consts
        registerPendingNegotiation_def)
  from answer_taken [OF _ _ resp, of b ProtocolNoiseIK t3] vA A(1) default_caps(5)
  obtain m where hA: "handleVersionNegotiation E t3 resp b ?A1 = (Ok (), setPeerCapabilities b 0
      (setPeerVersion t3 b ProtocolNoiseIK ?A1)\<lparr>negotiator := m\<rparr>, [])"
    by (simp add: registerPendingNegotiation_def dict_simps)
  have "getPeerVersion t3 b (setPeerCapabilities b 0 (setPeerVersion t3 b ProtocolNoiseIK ?A1)\<lparr>negotiator := m\<rparr>) =
      (ProtocolNoiseIK, setPeerCapabilities b 0 (setPeerVersion t3 b ProtocolNoiseIK ?A1)\<lparr>negotiator := m\<rparr>)"
    by (simp add: getPeerVersion_def setPeerVersion_def setPeerCapabilities_def dict_simps Let_def
        version_consts)
  with req hB [unfolded vB] hA getPeerVersion_set_caps [of t2 a _ ProtocolLegacy B] show ?thesis by blast
qed

section \<open>Witnesses\<close>

lemma default_made_nat: "\<exists>nt :: nat NegotiatingTransport. made DefaultProtocolCapabilities 3 nt"
  by (rule default_made) simp

lemma altered_made:
  assumes "k \<noteq> 0" and "c = DefaultProtocolCapabilities\<lparr>SessionPolicyOf := PolicyLegacyOnly\<rparr> \<or>
     c = DefaultProtocolCapabilities\<lparr>DisallowCapabilityDowngrade := True\<rparr>"
  shows "\<exists>nt :: nat NegotiatingTransport. made c k nt"
  using assms
  by (auto simp: made_def NewNegotiatingTransport_def normalizeCapabilities_def validateAndCopyStaticKey_def
      requiresStaticKey_def createNoiseTransportIfSupported_def DefaultProtocolCapabilities_def Let_def)

theorem stranger_forces_legacy_witness:
  "\<exists>(nt :: nat NegotiatingTransport) d nt' evs. made DefaultProtocolCapabilities 3 nt \<and> fallbackEnabled nt = False \<and>
     handleVersionNegotiation toy_ed25519 0 d ''a'' nt = (Ok (), nt', evs) \<and>
     Send_begin toy_ed25519 0 True 7 ''a'' nt' = (Some (Ok ()), nt', [SentLegacy 7 ''a''])"
proof -
  obtain nt :: "nat NegotiatingTransport" where nt: "made DefaultProtocolCapabilities 3 nt"
    using default_made_nat by blast
  from stranger_forces_legacy [OF toy_ed25519_correct nt, of 9 0 "''a''" True 7] nt show ?thesis by blast
qed

theorem equal_peers_refused_witness:
  "\<exists>(A :: nat NegotiatingTransport) req A1 resp A2.
     Send_begin toy_ed25519 0 True 7 ''b'' A = (None, A1, [Negotiation req ''b'']) \<and>
     handleVersionNegotiation toy_ed25519 2 resp ''b'' A1 = (Err (CapabilityDowngradeRefused 7), A2, []) \<and>
     Send_begin toy_ed25519 2 True 7 ''b'' A2 = (Some (fst (sendWithVersion 7 ''b'' 1 A2)), A2, snd (sendWithVersion 7 ''b'' 1 A2))"
proof -
  let ?c = "DefaultProtocolCapabilities\<lparr>DisallowCapabilityDowngrade := True\<rparr>"
  obtain A B :: "nat NegotiatingTransport" where AB: "made ?c 3 A" "made ?c 4 B"
    using altered_made [of 3 ?c] altered_made [of 4 ?c] by auto
  have c: "length (CapSupportedVersions ?c) \<le> 16" "AdvertisedCapabilities ?c \<noteq> 0" "DisallowCapabilityDowngrade ?c"
    "unat (hd (CapSupportedVersions ?c)) + 1 \<noteq> length (CapSupportedVersions ?c)" "AdvertisedCapabilities ?c = 7"
    "CapSupportedVersions ?c = [0, 1]"
    using default_caps by (simp_all add: DefaultProtocolCapabilities_def version_consts
     )
  have "supportedVersions (negotiator A) = [0, 1]" using madeD(2) [OF AB(1)]
    by (simp add: createVersionNegotiator_supported applied_versions DefaultProtocolCapabilities_def version_consts)
  then have "Max (insert ProtocolLegacy (set (supportedVersions (negotiator A)) \<inter> set (CapSupportedVersions ?c))) = 1"
    using c(6) by (simp add: version_consts)
  from equal_peers_refused [OF toy_ed25519_correct AB c(1-4), of 0 7 "''b''" 1 "''a''" 2 True, unfolded c(5) this]
  show ?thesis by auto blast
qed

theorem policy_missing_in_answer_witness:
  "\<exists>(A :: nat NegotiatingTransport) B req A1 resp B1 A2.
     made DefaultProtocolCapabilities 3 A \<and>
     Send_begin toy_ed25519 0 True 7 ''b'' A = (None, A1, [Negotiation req ''b'']) \<and>
     handleVersionNegotiation toy_ed25519 1 req ''a'' (B :: nat NegotiatingTransport) = (Ok (), B1, [Negotiation resp ''a'']) \<and>
     handleVersionNegotiation toy_ed25519 2 resp ''b'' A1 = (Ok (), A2, []) \<and>
     getPeerVersion 1 ''a'' B1 = (0, B1) \<and> getPeerVersion 2 ''b'' A2 = (1, A2)"
proof -
  let ?c = "DefaultProtocolCapabilities\<lparr>SessionPolicyOf := PolicyLegacyOnly\<rparr>"
  obtain A B :: "nat NegotiatingTransport" where AB: "made DefaultProtocolCapabilities 3 A" "made ?c 4 B"
    using altered_made [of 4 ?c] default_made_nat by auto
  from policy_missing_in_answer [OF toy_ed25519_correct AB, of 0 7 "''b''" 1 "''a''" 2] AB(1)
  show ?thesis unfolding version_consts by blast
qed

text \<open>The run of the attack is one to which the reasons above apply.\<close>

lemma attack_run:
  "\<exists>(nt :: nat NegotiatingTransport) d nt' evs. made DefaultProtocolCapabilities 3 nt \<and>
     nt_run toy_ed25519 [Receive 0 d ''a'', CallSend 0 True 7 ''a''] nt = (nt', evs @ [SentLegacy 7 ''a''])"
proof -
  obtain nt :: "nat NegotiatingTransport" where nt: "made DefaultProtocolCapabilities 3 nt"
    using default_made_nat by blast
  let ?p = "\<lparr>SupportedVersions = [0], PreferredVersion = 0\<rparr>"
  obtain d pk where d: "ParseVersionPacket toy_ed25519 (negotiator nt) d = Ok (?p, Some pk, 0)"
    using signed_offer_arrives [OF toy_ed25519_correct, of "[0]" 0 0 0 "[]" 9] by auto
  have "SelectBestVersion (negotiator nt) [0] = ProtocolLegacy"
    by (simp add: SelectBestVersion_def selectBest_Max default_supported [OF nt] version_consts)
  then obtain evs where "handleVersionNegotiation toy_ed25519 0 d ''a'' nt =
      (Ok (), setPeerCapabilities ''a'' 0 (setPeerVersion 0 ''a'' ProtocolLegacy nt), evs)"
    using request_answered [OF toy_ed25519_correct nt default_caps(1,3) _ d, of 0 "''a''"] default_caps(5) by auto
  moreover have "Send_begin toy_ed25519 0 True 7 ''a'' (setPeerCapabilities ''a'' 0 (setPeerVersion 0 ''a'' ProtocolLegacy nt)) =
      (Some (Ok ()), setPeerCapabilities ''a'' 0 (setPeerVersion 0 ''a'' ProtocolLegacy nt), [SentLegacy 7 ''a''])"
    by (simp add: Send_begin_def getPeerVersion_set_caps sendWithVersion_def version_consts)
  ultimately show ?thesis using nt legacy_run [OF nt] by blast
qed

theorem legacy_needs_signed_offer_witness:
  "\<exists>(nt :: nat NegotiatingTransport) d nt' evs q. made DefaultProtocolCapabilities 3 nt \<and>
     nt_run toy_ed25519 [Receive 0 d ''a'', CallSend 0 True 7 ''a''] nt = (nt', evs @ [SentLegacy 7 ''a'']) \<and>
     ParseSignedVersionNegotiation toy_ed25519 d = Ok q"
proof -
  obtain nt :: "nat NegotiatingTransport" and d nt' evs where nt: "made DefaultProtocolCapabilities 3 nt"
    and run: "nt_run toy_ed25519 [Receive 0 d ''a'', CallSend 0 True 7 ''a''] nt = (nt', evs @ [SentLegacy 7 ''a''])"
    using attack_run by blast
  have "\<not> EnableLegacyFallback DefaultProtocolCapabilities" by (simp add: DefaultProtocolCapabilities_def)
  from legacy_needs_signed_offer [OF nt this run, of 7 "''a''"] nt run show ?thesis by auto
qed

end
