(* ===== verification/Wire_Packet.thy ===== *)
theory Wire_Packet
  imports Version_Packets
begin

text \<open>
  The frames of the transport: packets and node packets (\<^verbatim>\<open>transport/packet.go\<close>), the header of
  extension packets (\<^verbatim>\<open>transport/packet_extensions.go\<close>), and the versioned handshake messages with
  the manager that exchanges them (\<^verbatim>\<open>transport/versioned_handshake.go\<close>). The Noise handshake itself
  belongs to another package and is a parameter.
\<close>

section \<open>Packets\<close>

type_synonym PacketType = u8

text \<open>A slice that may be \<^verbatim>\<open>nil\<close> is an option where the code tells the two apart.\<close>

record Packet =
  PacketTypeOf :: PacketType
  Data :: "bytes option"

datatype packet_error = PacketDataNil | PacketTooShort | NodePacketTooShort

definition Packet_Serialize :: "Packet \<Rightarrow> packet_error + bytes" where
  "Packet_Serialize p = (case Data p of None \<Rightarrow> Err PacketDataNil | Some d \<Rightarrow> Ok (PacketTypeOf p # d))"

definition ParsePacket :: "bytes \<Rightarrow> packet_error + Packet" where
  "ParsePacket data =
     (if length data < 1 then Err PacketTooShort
      else Ok \<lparr>PacketTypeOf = data ! 0, Data = Some (drop 1 data)\<rparr>)"

record NodePacket =
  PublicKey :: key32
  Nonce :: "192 word"
  Payload :: bytes

definition nonce_bytes :: "192 word \<Rightarrow> bytes" where "nonce_bytes n = be_bytes 24 (unat n)"
definition bytes_nonce :: "bytes \<Rightarrow> 192 word" where "bytes_nonce bs = word_of_nat (be_val bs)"

definition NodePacket_Serialize :: "NodePacket \<Rightarrow> bytes" where
  "NodePacket_Serialize np = key_bytes (PublicKey np) @ nonce_bytes (Nonce np) @ Payload np"

definition ParseNodePacket :: "bytes \<Rightarrow> packet_error + NodePacket" where
  "ParseNodePacket data =
     (if length data < 56 then Err NodePacketTooShort
      else Ok \<lparr>PublicKey = bytes_key (slice 0 32 data), Nonce = bytes_nonce (slice 32 56 data),
               Payload = drop 56 data\<rparr>)"

section \<open>Extension packets\<close>

abbreviation (input) ExtensionVendorMagic :: byte where "ExtensionVendorMagic \<equiv> 0xAB"
abbreviation (input) ExtensionProtocolVersion :: byte where "ExtensionProtocolVersion \<equiv> 0x01"
abbreviation (input) ExtensionPacketRangeStart :: PacketType where "ExtensionPacketRangeStart \<equiv> 249"
abbreviation (input) ExtensionPacketRangeEnd :: PacketType where "ExtensionPacketRangeEnd \<equiv> 254"

definition IsExtensionPacket :: "PacketType \<Rightarrow> bool" where
  "IsExtensionPacket pt \<longleftrightarrow> pt \<ge> ExtensionPacketRangeStart \<and> pt \<le> ExtensionPacketRangeEnd"

record ExtensionPacketHeader =
  VendorMagic :: byte
  ExtVersion :: byte

definition ValidateExtensionHeader :: "ExtensionPacketHeader option \<Rightarrow> bool" where
  "ValidateExtensionHeader header =
     (case header of None \<Rightarrow> False
      | Some h \<Rightarrow> VendorMagic h = ExtensionVendorMagic \<and> ExtVersion h \<le> ExtensionProtocolVersion)"

definition ParseExtensionHeader :: "bytes \<Rightarrow> ExtensionPacketHeader option" where
  "ParseExtensionHeader data =
     (if length data < 2 then None
      else let header = \<lparr>VendorMagic = data ! 0, ExtVersion = data ! 1\<rparr>
       in if \<not> ValidateExtensionHeader (Some header) then None else Some header)"

definition SerializeExtensionHeader :: bytes where
  "SerializeExtensionHeader = [ExtensionVendorMagic, ExtensionProtocolVersion]"

section \<open>Handshake messages\<close>

abbreviation (input) MaxNoiseMessageSize :: nat where "MaxNoiseMessageSize \<equiv> 65535"

definition writeNoiseMessage :: "bytes \<Rightarrow> bytes" where
  "writeNoiseMessage noiseMessage =
     (let noiseLen = length noiseMessage
      in word_of_nat (noiseLen div 256) # word_of_nat (noiseLen mod 256) # noiseMessage)"

record VersionedHandshakeRequest =
  RequestVersion :: ProtocolVersion
  RequestVersions :: "ProtocolVersion list"
  RequestNoise :: bytes
  RequestLegacy :: bytes

record VersionedHandshakeResponse =
  AgreedVersion :: ProtocolVersion
  ResponseNoise :: bytes
  ResponseLegacy :: bytes

datatype 'n handshake_error =
    HandshakeNil
  | HandshakeNoVersions
  | HandshakeTooManyVersions
  | NoiseMessageTooLarge
  | ErrInvalidVersionData
  | NoiseLengthExceeds nat
  | ErrVersionMismatch
  | NoiseMessageRequired
  | NoiseFailed 'n
  | HandshakeSendFailed
  | ErrHandshakeTimeout

definition SerializeVersionedHandshakeRequest :: "VersionedHandshakeRequest option \<Rightarrow> 'n handshake_error + bytes" where
  "SerializeVersionedHandshakeRequest request =
     (case request of None \<Rightarrow> Err HandshakeNil
      | Some req \<Rightarrow>
        if length (RequestVersions req) = 0 then Err HandshakeNoVersions
        else if length (RequestVersions req) > 255 then Err HandshakeTooManyVersions
        else if length (RequestNoise req) > 65535 then Err NoiseMessageTooLarge
        else Ok ([RequestVersion req, word_of_nat (length (RequestVersions req))] @ RequestVersions req @
               writeNoiseMessage (RequestNoise req) @ RequestLegacy req))"

definition readSupportedVersions :: "bytes \<Rightarrow> nat \<Rightarrow> 'n handshake_error + (ProtocolVersion list \<times> nat)" where
  "readSupportedVersions data offset =
     (let numVersions = unat (data ! offset); offset = offset + 1
      in if length data < offset + numVersions + 2 then Err ErrInvalidVersionData
         else Ok (slice offset (offset + numVersions) data, offset + numVersions))"

definition readNoiseMessage :: "bytes \<Rightarrow> nat \<Rightarrow> 'n handshake_error + (bytes \<times> nat)" where
  "readNoiseMessage data offset =
     (if length data < offset + 2 then Err ErrInvalidVersionData
      else let noiseLen = unat (data ! offset) * 256 + unat (data ! (offset + 1)); offset = offset + 2
       in if noiseLen > MaxNoiseMessageSize then Err (NoiseLengthExceeds noiseLen)
          else if length data < offset + noiseLen then Err ErrInvalidVersionData
          else Ok (slice offset (offset + noiseLen) data, offset + noiseLen))"

definition ParseVersionedHandshakeRequest :: "bytes \<Rightarrow> 'n handshake_error + VersionedHandshakeRequest" where
  "ParseVersionedHandshakeRequest data =
     (if length data < 4 then Err ErrInvalidVersionData
      else (case readSupportedVersions data 1 of Inl e \<Rightarrow> Err e
        | Inr (supported, offset) \<Rightarrow>
          (case readNoiseMessage data offset of Inl e \<Rightarrow> Err e
           | Inr (noiseMessage, offset2) \<Rightarrow>
             Ok \<lparr>RequestVersion = data ! 0, RequestVersions = supported, RequestNoise = noiseMessage,
                 RequestLegacy = drop offset2 data\<rparr>)))"

definition SerializeVersionedHandshakeResponse :: "VersionedHandshakeResponse option \<Rightarrow> 'n handshake_error + bytes" where
  "SerializeVersionedHandshakeResponse response =
     (case response of None \<Rightarrow> Err HandshakeNil
      | Some resp \<Rightarrow>
        if length (ResponseNoise resp) > 65535 then Err NoiseMessageTooLarge
        else Ok ([AgreedVersion resp] @ writeNoiseMessage (ResponseNoise resp) @ ResponseLegacy resp))"

definition ParseVersionedHandshakeResponse :: "bytes \<Rightarrow> 'n handshake_error + VersionedHandshakeResponse" where
  "ParseVersionedHandshakeResponse data =
     (if length data < 3 then Err ErrInvalidVersionData
      else let noiseLen = unat (data ! 1) * 256 + unat (data ! 2)
       in if length data < 3 + noiseLen then Err ErrInvalidVersionData
          else Ok \<lparr>AgreedVersion = data ! 0, ResponseNoise = slice 3 (3 + noiseLen) data,
                   ResponseLegacy = drop (3 + noiseLen) data\<rparr>)"

section \<open>The handshake manager\<close>

text \<open>
  The Noise-IK handshake: the message an initiator writes for a peer key, and the message a responder
  writes after reading one. Both may fail.
\<close>

record 'n noise_ik =
  ik_initiate :: "key32 \<Rightarrow> key32 \<Rightarrow> 'n + bytes"
  ik_respond :: "key32 \<Rightarrow> bytes \<Rightarrow> 'n + bytes"

text \<open>A pending handshake is its response channel of capacity 1.\<close>

record VersionedHandshakeManager =
  vhm_staticPrivKey :: key32
  vhm_supportedVersions :: "ProtocolVersion list"
  vhm_preferredVersion :: ProtocolVersion
  vhm_pending :: "(string, VersionedHandshakeResponse option) gomap"

definition NewVersionedHandshakeManager :: "key32 \<Rightarrow> ProtocolVersion list \<Rightarrow> ProtocolVersion \<Rightarrow> VersionedHandshakeManager" where
  "NewVersionedHandshakeManager staticPrivKey supported preferred =
     \<lparr>vhm_staticPrivKey = staticPrivKey, vhm_supportedVersions = supported,
      vhm_preferredVersion = preferred, vhm_pending = []\<rparr>"

definition prepareNoiseHandshake :: "'n noise_ik \<Rightarrow> VersionedHandshakeManager \<Rightarrow> key32 \<Rightarrow> 'n handshake_error + bytes" where
  "prepareNoiseHandshake IK vhm peerPubKey =
     (if \<not> supportsProtocolVersion (vhm_supportedVersions vhm) ProtocolNoiseIK then Ok []
      else (case ik_initiate IK (vhm_staticPrivKey vhm) peerPubKey of
              Inl e \<Rightarrow> Err (NoiseFailed e) | Inr message \<Rightarrow> Ok message))"

text \<open>The legacy part is \<^verbatim>\<open>nil\<close> or empty; the wire format does not tell the two apart.\<close>

definition prepareLegacyHandshake :: "VersionedHandshakeManager \<Rightarrow> bytes" where
  "prepareLegacyHandshake vhm = []"

definition createHandshakeRequest :: "VersionedHandshakeManager \<Rightarrow> bytes \<Rightarrow> bytes \<Rightarrow> VersionedHandshakeRequest" where
  "createHandshakeRequest vhm noiseMessage legacyData =
     \<lparr>RequestVersion = vhm_preferredVersion vhm, RequestVersions = vhm_supportedVersions vhm,
      RequestNoise = noiseMessage, RequestLegacy = legacyData\<rparr>"

text \<open>
  \<^verbatim>\<open>InitiateHandshake\<close> up to the point where it waits: the packet data and the manager with the
  registered handshake; then the end of the wait.
\<close>

definition InitiateHandshake_begin :: "'n noise_ik \<Rightarrow> bool \<Rightarrow> key32 \<Rightarrow> string \<Rightarrow> VersionedHandshakeManager \<Rightarrow>
    ('n handshake_error + bytes) \<times> VersionedHandshakeManager" where
  "InitiateHandshake_begin IK sent peerPubKey peerAddr vhm =
     (case prepareNoiseHandshake IK vhm peerPubKey of Inl e \<Rightarrow> (Err e, vhm)
      | Inr noiseMessage \<Rightarrow>
        (case SerializeVersionedHandshakeRequest (Some (createHandshakeRequest vhm noiseMessage (prepareLegacyHandshake vhm))) of
           Inl e \<Rightarrow> (Err e, vhm)
         | Inr data \<Rightarrow> if sent then (Ok data, vhm\<lparr>vhm_pending := mput peerAddr None (vhm_pending vhm)\<rparr>)
                        else (Err HandshakeSendFailed, vhm\<lparr>vhm_pending := mdel peerAddr (vhm_pending vhm)\<rparr>)))"

definition InitiateHandshake_end :: "string \<Rightarrow> VersionedHandshakeManager \<Rightarrow>
    ('n handshake_error + VersionedHandshakeResponse) \<times> VersionedHandshakeManager" where
  "InitiateHandshake_end peerAddr vhm =
     ((case mget (vhm_pending vhm) peerAddr of
         Some (Some response) \<Rightarrow> Ok response | _ \<Rightarrow> Err ErrHandshakeTimeout),
      vhm\<lparr>vhm_pending := mdel peerAddr (vhm_pending vhm)\<rparr>)"

definition handleHandshakeResponse :: "bytes \<Rightarrow> string \<Rightarrow> VersionedHandshakeManager \<Rightarrow>
    ('n handshake_error + unit) \<times> VersionedHandshakeManager" where
  "handleHandshakeResponse data addr vhm =
     (case ParseVersionedHandshakeResponse data of Inl e \<Rightarrow> (Err e, vhm)
      | Inr response \<Rightarrow>
        (case mget (vhm_pending vhm) addr of
           Some None \<Rightarrow> (Ok (), vhm\<lparr>vhm_pending := mput addr (Some response) (vhm_pending vhm)\<rparr>)
         | _ \<Rightarrow> (Ok (), vhm)))"

definition processNoiseHandshake :: "'n noise_ik \<Rightarrow> VersionedHandshakeManager \<Rightarrow> VersionedHandshakeRequest \<Rightarrow>
    'n handshake_error + (bytes \<times> bytes)" where
  "processNoiseHandshake IK vhm request =
     (if length (RequestNoise request) = 0 then Err NoiseMessageRequired
      else (case ik_respond IK (vhm_staticPrivKey vhm) (RequestNoise request) of
              Inl e \<Rightarrow> Err (NoiseFailed e) | Inr message \<Rightarrow> Ok (message, [])))"

definition processHandshakeByVersion :: "'n noise_ik \<Rightarrow> VersionedHandshakeManager \<Rightarrow> ProtocolVersion \<Rightarrow>
    VersionedHandshakeRequest \<Rightarrow> 'n handshake_error + (bytes \<times> bytes)" where
  "processHandshakeByVersion IK vhm version request =
     (if version = ProtocolNoiseIK then processNoiseHandshake IK vhm request
      else if version = ProtocolLegacy then Ok ([], [])
      else Err ErrVersionMismatch)"

text \<open>The response and the data of the packet that carries it; \<open>sent\<close> is the outcome of sending.\<close>

definition HandleHandshakeRequest :: "'n noise_ik \<Rightarrow> bool \<Rightarrow> VersionedHandshakeRequest \<Rightarrow> VersionedHandshakeManager \<Rightarrow>
    'n handshake_error + (VersionedHandshakeResponse \<times> bytes)" where
  "HandleHandshakeRequest IK sent request vhm =
     (let agreedVersion = selectBestSupportedVersion (vhm_supportedVersions vhm) (RequestVersions request)
      in case processHandshakeByVersion IK vhm agreedVersion request of Inl e \<Rightarrow> Err e
         | Inr (noise, legacy) \<Rightarrow>
           let response = \<lparr>AgreedVersion = agreedVersion, ResponseNoise = noise, ResponseLegacy = legacy\<rparr>
           in (case SerializeVersionedHandshakeResponse (Some response) of Inl e \<Rightarrow> Err e
               | Inr data \<Rightarrow> if sent then Ok (response, data) else Err HandshakeSendFailed))"

section \<open>Round trips\<close>

lemma bytes_nonce_nonce_bytes [simp, wire_simps]: "bytes_nonce (nonce_bytes n) = n"
  unfolding bytes_nonce_def nonce_bytes_def by (rule word_be_roundtrip) simp

lemma length_nonce_bytes [simp, wire_simps]: "length (nonce_bytes n) = 24"
  by (simp add: nonce_bytes_def)

lemma nonce_bytes_bytes_nonce: "length bs = 24 \<Longrightarrow> nonce_bytes (bytes_nonce bs) = bs"
  using be_word_roundtrip [of bs, where 'a = 192] by (simp add: nonce_bytes_def bytes_nonce_def)

interpretation node_packet: codec NodePacket_Serialize ParseNodePacket "\<lambda>_. True"
  by unfold_locales (simp add: NodePacket_Serialize_def ParseNodePacket_def wire_simps)

lemma ParseNodePacket_Ok_serialize:
  assumes "ParseNodePacket data = Ok np"
  shows "NodePacket_Serialize np = data"
proof -
  have len: "56 \<le> length data" and np: "np = \<lparr>PublicKey = bytes_key (slice 0 32 data),
      Nonce = bytes_nonce (slice 32 56 data), Payload = drop 56 data\<rparr>"
    using assms by (auto simp: ParseNodePacket_def split: if_splits)
  have "length (slice 0 32 data) = 32" "length (slice 32 56 data) = 24" using len by (auto simp: wire_simps)
  then have "NodePacket_Serialize np = slice 0 32 data @ slice 32 56 data @ drop 56 data"
    by (simp add: NodePacket_Serialize_def np key_bytes_bytes_key nonce_bytes_bytes_nonce)
  also have "\<dots> = slice 0 56 data @ drop 56 data"
    using slice_split [of 0 32 56 data] by simp
  finally show ?thesis by (simp add: slice_def)
qed

text \<open>Every byte string but the empty one is the encoding of exactly one packet.\<close>

lemma ParsePacket_Ok_iff:
  "ParsePacket data = Ok p \<longleftrightarrow> Data p \<noteq> None \<and> Packet_Serialize p = Ok data"
  by (cases p; cases data) (auto simp: ParsePacket_def Packet_Serialize_def split: option.splits)

text \<open>The length prefix of a Noise message, read back.\<close>

lemma noise_length_read:
  assumes "length noise \<le> 65535"
  shows "unat (word_of_nat (length noise div 256) :: byte) * 256 +
     unat (word_of_nat (length noise mod 256) :: byte) = length noise"
proof -
  have "length noise div 256 < 256" using assms by (simp add: div_less_iff_less_mult)
  then show ?thesis by (simp add: unat_byte_of_nat)
qed

lemma readNoiseMessage_write:
  assumes "length noise \<le> 65535" and "offset = length pre"
  shows "readNoiseMessage (pre @ writeNoiseMessage noise @ rest) offset = Ok (noise, offset + 2 + length noise)"
  using assms noise_length_read [OF assms(1)]
  by (simp add: readNoiseMessage_def writeNoiseMessage_def Let_def nth_append slice_def)

lemma readSupportedVersions_write:
  assumes "length vs \<le> 255" and "2 \<le> length rest"
  shows "readSupportedVersions ([v, word_of_nat (length vs)] @ vs @ rest) 1 = Ok (vs, 2 + length vs)"
  using assms by (simp add: readSupportedVersions_def Let_def unat_byte_of_nat slice_def)

lemma request_roundtrip:
  assumes "1 \<le> length (RequestVersions req)" and "length (RequestVersions req) \<le> 255"
    and "length (RequestNoise req) \<le> 65535"
  shows "\<exists>d. SerializeVersionedHandshakeRequest (Some req) = (Ok d :: 'n handshake_error + bytes) \<and>
     ParseVersionedHandshakeRequest d = (Ok req :: 'm handshake_error + VersionedHandshakeRequest)"
proof -
  let ?rest = "writeNoiseMessage (RequestNoise req) @ RequestLegacy req"
  let ?pre = "[RequestVersion req, word_of_nat (length (RequestVersions req))] @ RequestVersions req"
  have ser: "SerializeVersionedHandshakeRequest (Some req) = (Ok (?pre @ ?rest) :: 'n handshake_error + bytes)"
    using assms by (auto simp: SerializeVersionedHandshakeRequest_def)
  have "2 \<le> length ?rest" by (simp add: writeNoiseMessage_def Let_def)
  from readSupportedVersions_write [OF assms(2) this, of "RequestVersion req"]
  have "readSupportedVersions (?pre @ ?rest) 1 = (Ok (RequestVersions req, 2 + length (RequestVersions req)) :: 'm handshake_error + _)"
    by simp
  moreover have "readNoiseMessage (?pre @ ?rest) (2 + length (RequestVersions req)) =
      (Ok (RequestNoise req, 2 + length (RequestVersions req) + 2 + length (RequestNoise req)) :: 'm handshake_error + _)"
    by (rule readNoiseMessage_write [OF assms(3)]) simp
  moreover have "4 \<le> length (?pre @ ?rest)" by (simp add: writeNoiseMessage_def Let_def)
  ultimately have "ParseVersionedHandshakeRequest (?pre @ ?rest) = (Ok req :: 'm handshake_error + _)"
    by (simp add: ParseVersionedHandshakeRequest_def writeNoiseMessage_def Let_def)
  with ser show ?thesis by blast
qed

lemma response_roundtrip:
  assumes "length (ResponseNoise resp) \<le> 65535"
  shows "\<exists>d. SerializeVersionedHandshakeResponse (Some resp) = (Ok d :: 'n handshake_error + bytes) \<and>
     ParseVersionedHandshakeResponse d = (Ok resp :: 'm handshake_error + VersionedHandshakeResponse)"
  using assms noise_length_read [OF assms]
  by (simp add: SerializeVersionedHandshakeResponse_def ParseVersionedHandshakeResponse_def
      writeNoiseMessage_def Let_def slice_def numeral_3_eq_3)

section \<open>Properties\<close>

text \<open>
  A versioned handshake completes. When the initiator's Noise message can be written and the
  responder can answer it, the initiator's request is understood by the responder, the answer reaches
  the waiting initiator unchanged, and it names the highest version both sides support, with the
  responder's Noise message exactly when that version is Noise-IK.
\<close>

theorem handshake_completes:
  fixes IK :: "'n noise_ik"
  assumes "1 \<le> length (vhm_supportedVersions A)" and "length (vhm_supportedVersions A) \<le> 255"
    and "ik_initiate IK (vhm_staticPrivKey A) pkB = Ok m" and "m \<noteq> []" and "length m \<le> 65535"
    and "ik_respond IK (vhm_staticPrivKey B) m = Ok m2" and "length m2 \<le> 65535"
    and "\<forall>v \<in> set (vhm_supportedVersions A) \<inter> set (vhm_supportedVersions B). v = ProtocolLegacy \<or> v = ProtocolNoiseIK"
    and v: "v = Max (insert ProtocolLegacy (set (vhm_supportedVersions A) \<inter> set (vhm_supportedVersions B)))"
  shows "\<exists>d A1 req resp d2 A2 A3. InitiateHandshake_begin IK True pkB b A = (Ok d, A1) \<and>
     ParseVersionedHandshakeRequest d = (Ok req :: 'n handshake_error + _) \<and>
     HandleHandshakeRequest IK True req B = Ok (resp, d2) \<and>
     handleHandshakeResponse d2 b A1 = ((Ok () :: 'n handshake_error + _), A2) \<and>
     InitiateHandshake_end b A2 = ((Ok resp :: 'n handshake_error + _), A3) \<and>
     AgreedVersion resp = v \<and> ResponseNoise resp = (if v = ProtocolNoiseIK then m2 else [])"
proof -
  define noise where "noise = (if ProtocolNoiseIK \<in> set (vhm_supportedVersions A) then m else [])"
  define req where "req = createHandshakeRequest A noise []"
  let ?A1 = "A\<lparr>vhm_pending := mput b None (vhm_pending A)\<rparr>"
  have len: "1 \<le> length (RequestVersions req)" "length (RequestVersions req) \<le> 255" "length (RequestNoise req) \<le> 65535"
    using assms(1,2,5) by (simp_all add: req_def createHandshakeRequest_def noise_def)
  obtain d where d: "SerializeVersionedHandshakeRequest (Some req) = (Ok d :: 'n handshake_error + _)"
    and preq: "ParseVersionedHandshakeRequest d = (Ok req :: 'n handshake_error + _)"
    using request_roundtrip [OF len] by blast
  have start: "InitiateHandshake_begin IK True pkB b A = (Ok d, ?A1)"
    using d assms(3)
    by (auto simp: InitiateHandshake_begin_def prepareNoiseHandshake_def prepareLegacyHandshake_def req_def noise_def)
  have sel: "selectBestSupportedVersion (vhm_supportedVersions B) (RequestVersions req) = v"
    by (simp add: selectBest_Max v req_def createHandshakeRequest_def Int_commute)
  have "v \<in> insert ProtocolLegacy (set (vhm_supportedVersions A) \<inter> set (vhm_supportedVersions B))"
    unfolding v by (rule Max_in) auto
  with assms(8) have v01: "v = ProtocolLegacy \<or> v = ProtocolNoiseIK \<and> ProtocolNoiseIK \<in> set (vhm_supportedVersions A)"
    by auto
  define resp where "resp = \<lparr>AgreedVersion = v, ResponseNoise = (if v = ProtocolNoiseIK then m2 else []), ResponseLegacy = []\<rparr>"
  have lenr: "length (ResponseNoise resp) \<le> 65535" using assms(7) by (simp add: resp_def)
  obtain d2 where d2: "SerializeVersionedHandshakeResponse (Some resp) = (Ok d2 :: 'n handshake_error + _)"
    and presp: "ParseVersionedHandshakeResponse d2 = (Ok resp :: 'n handshake_error + _)"
    using response_roundtrip [OF lenr] by blast
  have "processHandshakeByVersion IK B v req = Ok (ResponseNoise resp, [])"
    using v01 assms(4,6) by (auto simp: processHandshakeByVersion_def processNoiseHandshake_def req_def
        createHandshakeRequest_def noise_def resp_def version_consts)
  then have h: "HandleHandshakeRequest IK True req B = Ok (resp, d2)"
    using sel d2 by (simp add: HandleHandshakeRequest_def resp_def)
  have "handleHandshakeResponse d2 b ?A1 = ((Ok () :: 'n handshake_error + _),
      ?A1\<lparr>vhm_pending := mput b (Some resp) (vhm_pending ?A1)\<rparr>)"
    using presp by (simp add: handleHandshakeResponse_def dict_simps)
  moreover have "InitiateHandshake_end b (?A1\<lparr>vhm_pending := mput b (Some resp) (vhm_pending ?A1)\<rparr>) =
      ((Ok resp :: 'n handshake_error + _), A\<lparr>vhm_pending := mdel b (mput b (Some resp) (vhm_pending ?A1))\<rparr>)"
    by (simp add: InitiateHandshake_end_def dict_simps)
  ultimately show ?thesis using start preq h by (fastforce simp: resp_def)
qed

theorem handshake_completes_witness:
  "\<exists>d A1 req resp d2 A2 A3.
     InitiateHandshake_begin \<lparr>ik_initiate = (\<lambda>k p. Ok [1, 2]), ik_respond = (\<lambda>k m. Ok [3] :: unit + bytes)\<rparr> True 9 ''b''
        (NewVersionedHandshakeManager 1 [0, 1] 1) = (Ok d, A1) \<and>
     ParseVersionedHandshakeRequest d = (Ok req :: unit handshake_error + _) \<and>
     HandleHandshakeRequest \<lparr>ik_initiate = (\<lambda>k p. Ok [1, 2]), ik_respond = (\<lambda>k m. Ok [3] :: unit + bytes)\<rparr> True req
        (NewVersionedHandshakeManager 2 [1] 1) = Ok (resp, d2) \<and>
     handleHandshakeResponse d2 ''b'' A1 = ((Ok () :: unit handshake_error + _), A2) \<and>
     InitiateHandshake_end ''b'' A2 = ((Ok resp :: unit handshake_error + _), A3) \<and>
     AgreedVersion resp = 1 \<and> ResponseNoise resp = [3]"
  using handshake_completes [of "NewVersionedHandshakeManager 1 [0, 1] 1"
      "\<lparr>ik_initiate = (\<lambda>k p. Ok [1, 2]), ik_respond = (\<lambda>k m. Ok [3] :: unit + bytes)\<rparr>" 9 "[1, 2]"
      "NewVersionedHandshakeManager 2 [1] 1" "[3]" 1 "''b''"]
  by (simp add: NewVersionedHandshakeManager_def version_consts)

text \<open>
  The initiator does not compare the agreed version with what it offered: a response naming any
  version at all is handed to the caller.
\<close>

lemma any_agreed_version_accepted:
  assumes "mget (vhm_pending vhm) b = Some None" and "length (ResponseNoise resp) \<le> 65535"
  shows "\<exists>d vhm1. SerializeVersionedHandshakeResponse (Some resp) = (Ok d :: 'n handshake_error + _) \<and>
     handleHandshakeResponse d b vhm = ((Ok () :: 'n handshake_error + _), vhm1) \<and>
     fst (InitiateHandshake_end b vhm1) = (Ok resp :: 'n handshake_error + _)"
proof -
  obtain d where "SerializeVersionedHandshakeResponse (Some resp) = (Ok d :: 'n handshake_error + _)"
    and "ParseVersionedHandshakeResponse d = (Ok resp :: 'n handshake_error + _)"
    using response_roundtrip [OF assms(2)] by blast
  then show ?thesis using assms(1)
    by (simp add: handleHandshakeResponse_def InitiateHandshake_end_def dict_simps)
qed

end
