(* ===== verification/Version_Commitment.thy ===== *)
theory Version_Commitment
  imports Version_Packets
begin

text \<open>
  Version commitments (\<^verbatim>\<open>transport/version_commitment.go\<close>): after a handshake both peers exchange a
  message that binds the version they selected to the handshake by a MAC. HMAC-SHA256 is a parameter
  (\<open>mac\<close> of the key and the message), of which the code relies on the 32 bytes it returns. Unix
  seconds and durations are \<^verbatim>\<open>int64\<close>, kept as 64-bit words and compared as signed numbers, because
  the conversion of an age from seconds to nanoseconds can wrap around.
\<close>

type_synonym hmac = "bytes \<Rightarrow> bytes \<Rightarrow> bytes"

definition mac_size :: "hmac \<Rightarrow> bool" where
  "mac_size mac \<longleftrightarrow> (\<forall>k m. length (mac k m) = 32)"

record VersionCommitment =
  Version :: ProtocolVersion
  Timestamp :: "64 word"
  HMAC :: key32

definition Second :: "64 word" where "Second = 1000000000"
abbreviation (input) CommitmentMaxAge :: "64 word" where "CommitmentMaxAge \<equiv> 5 * 60 * Second"
abbreviation (input) CommitmentMaxFutureDrift :: "64 word" where "CommitmentMaxFutureDrift \<equiv> 60 * Second"

datatype commitment_error =
    EmptyHandshakeHash
  | CommitmentNil
  | CommitmentLength nat
  | ErrCommitmentVersionMismatch ProtocolVersion ProtocolVersion
  | ErrCommitmentTooOld "64 word"
  | ErrCommitmentFromFuture "64 word"
  | ErrInvalidCommitmentMAC
  | LocalCommitmentFailed commitment_error
  | PeerCommitmentUnparsable commitment_error
  | PeerCommitmentInvalid commitment_error
  | ExchangeNotComplete

definition computeCommitmentMAC :: "hmac \<Rightarrow> ProtocolVersion \<Rightarrow> 64 word \<Rightarrow> bytes \<Rightarrow> bytes" where
  "computeCommitmentMAC mac version timestamp handshakeHash =
     mac handshakeHash ([version] @ PutUint64 timestamp)"

definition CreateVersionCommitment :: "hmac \<Rightarrow> 64 word \<Rightarrow> ProtocolVersion \<Rightarrow> bytes \<Rightarrow> commitment_error + VersionCommitment" where
  "CreateVersionCommitment mac now version handshakeHash =
     (if length handshakeHash = 0 then Err EmptyHandshakeHash
      else Ok \<lparr>Version = version, Timestamp = now,
               HMAC = bytes_key (computeCommitmentMAC mac version now handshakeHash)\<rparr>)"

definition SerializeVersionCommitment :: "VersionCommitment option \<Rightarrow> commitment_error + bytes" where
  "SerializeVersionCommitment c =
     (case c of None \<Rightarrow> Err CommitmentNil
      | Some c \<Rightarrow> Ok ([Version c] @ PutUint64 (Timestamp c) @ key_bytes (HMAC c)))"

definition ParseVersionCommitment :: "bytes \<Rightarrow> commitment_error + VersionCommitment" where
  "ParseVersionCommitment data =
     (if length data \<noteq> 41 then Err (CommitmentLength (length data))
      else Ok \<lparr>Version = data ! 0, Timestamp = Uint64 (slice 1 9 data), HMAC = bytes_key (slice 9 41 data)\<rparr>)"

definition VerifyVersionCommitment :: "hmac \<Rightarrow> 64 word \<Rightarrow> VersionCommitment option \<Rightarrow> ProtocolVersion \<Rightarrow> bytes \<Rightarrow>
    commitment_error + unit" where
  "VerifyVersionCommitment mac now commitment expectedVersion handshakeHash =
     (case commitment of None \<Rightarrow> Err CommitmentNil
      | Some c \<Rightarrow>
        if Version c \<noteq> expectedVersion then Err (ErrCommitmentVersionMismatch expectedVersion (Version c))
        else
          let age = (now - Timestamp c) * Second; futureTime = (Timestamp c - now) * Second
          in if sint age > sint CommitmentMaxAge then Err (ErrCommitmentTooOld age)
             else if sint futureTime > sint CommitmentMaxFutureDrift then Err (ErrCommitmentFromFuture futureTime)
             else if key_bytes (HMAC c) \<noteq> computeCommitmentMAC mac (Version c) (Timestamp c) handshakeHash
             then Err ErrInvalidCommitmentMAC
             else Ok ())"

record VersionCommitmentExchange =
  localVersion :: ProtocolVersion
  handshakeHash :: bytes
  localCommitment :: VersionCommitment
  peerCommitment :: "VersionCommitment option"
  verified :: bool

definition NewVersionCommitmentExchange :: "hmac \<Rightarrow> 64 word \<Rightarrow> ProtocolVersion \<Rightarrow> bytes \<Rightarrow>
    commitment_error + VersionCommitmentExchange" where
  "NewVersionCommitmentExchange mac now version hash =
     (case CreateVersionCommitment mac now version hash of Inl e \<Rightarrow> Err (LocalCommitmentFailed e)
      | Inr commitment \<Rightarrow> Ok \<lparr>localVersion = version, handshakeHash = hash, localCommitment = commitment,
          peerCommitment = None, verified = False\<rparr>)"

definition GetLocalCommitment :: "VersionCommitmentExchange \<Rightarrow> commitment_error + bytes" where
  "GetLocalCommitment vce = SerializeVersionCommitment (Some (localCommitment vce))"

definition ProcessPeerCommitment :: "hmac \<Rightarrow> 64 word \<Rightarrow> bytes \<Rightarrow> VersionCommitmentExchange \<Rightarrow>
    (commitment_error + unit) \<times> VersionCommitmentExchange" where
  "ProcessPeerCommitment mac now data vce =
     (case ParseVersionCommitment data of Inl e \<Rightarrow> (Err (PeerCommitmentUnparsable e), vce)
      | Inr commitment \<Rightarrow>
        (case VerifyVersionCommitment mac now (Some commitment) (localVersion vce) (handshakeHash vce) of
           Inl e \<Rightarrow> (Err (PeerCommitmentInvalid e), vce)
         | Inr _ \<Rightarrow> (Ok (), vce\<lparr>peerCommitment := Some commitment, verified := True\<rparr>)))"

definition GetAgreedVersion :: "VersionCommitmentExchange \<Rightarrow> commitment_error + ProtocolVersion" where
  "GetAgreedVersion vce = (if \<not> verified vce then Err ExchangeNotComplete else Ok (localVersion vce))"

section \<open>Lemmas\<close>

interpretation commitment: codec "\<lambda>c. projr (SerializeVersionCommitment (Some c))" ParseVersionCommitment "\<lambda>_. True"
  by unfold_locales
    (simp add: SerializeVersionCommitment_def ParseVersionCommitment_def wire_simps slice_def)

lemma ParseVersionCommitment_serialize:
  "ParseVersionCommitment ([Version c] @ PutUint64 (Timestamp c) @ key_bytes (HMAC c)) = Ok c"
  using commitment.dec_enc [of c] by (simp add: SerializeVersionCommitment_def)

text \<open>A distance of at most \<open>2 ^ 32\<close> seconds keeps its sign and size in nanoseconds.\<close>

lemma sint_word_of_int_64:
  "- (2 ^ 63) \<le> x \<Longrightarrow> x < 2 ^ 63 \<Longrightarrow> sint (word_of_int x :: 64 word) = x"
  by (simp add: sint_sbintrunc' signed_take_bit_int_eq_self)

lemma sint_seconds:
  assumes "\<bar>d\<bar> \<le> 2 ^ 32"
  shows "sint ((word_of_int d :: 64 word) * Second) = d * 1000000000"
proof -
  have e: "(word_of_int d :: 64 word) * Second = word_of_int (d * 1000000000)" by (simp add: Second_def)
  have "- (2 ^ 63) \<le> d * 1000000000" "d * 1000000000 < 2 ^ 63" using assms by (auto simp: abs_le_iff)
  then show ?thesis unfolding e by (rule sint_word_of_int_64)
qed

lemma seconds_le: "(d :: int) * 1000000000 \<le> k * 1000000000 \<longleftrightarrow> d \<le> k"
  by simp

lemma exchange_made:
  assumes "NewVersionCommitmentExchange mac now v h = Ok A" and "mac_size mac"
  shows "localVersion A = v" and "handshakeHash A = h"
    and "GetLocalCommitment A = Ok ([v] @ PutUint64 now @ mac h ([v] @ PutUint64 now))"
    and "ParseVersionCommitment ([v] @ PutUint64 now @ mac h ([v] @ PutUint64 now)) =
      Ok \<lparr>Version = v, Timestamp = now, HMAC = bytes_key (mac h ([v] @ PutUint64 now))\<rparr>"
    and "verified A = False"
proof -
  have len: "length (mac h ([v] @ PutUint64 now)) = 32" using assms(2) by (simp add: mac_size_def)
  then have k: "key_bytes (bytes_key (mac h ([v] @ PutUint64 now))) = mac h ([v] @ PutUint64 now)"
    by (rule key_bytes_bytes_key)
  show "localVersion A = v" "handshakeHash A = h" "verified A = False"
    "GetLocalCommitment A = Ok ([v] @ PutUint64 now @ mac h ([v] @ PutUint64 now))"
    using assms(1) k by (auto simp: NewVersionCommitmentExchange_def CreateVersionCommitment_def GetLocalCommitment_def
        SerializeVersionCommitment_def computeCommitmentMAC_def split: sum.splits if_splits)
  show "ParseVersionCommitment ([v] @ PutUint64 now @ mac h ([v] @ PutUint64 now)) =
      Ok \<lparr>Version = v, Timestamp = now, HMAC = bytes_key (mac h ([v] @ PutUint64 now))\<rparr>"
    using ParseVersionCommitment_serialize [of "\<lparr>Version = v, Timestamp = now, HMAC = bytes_key (mac h ([v] @ PutUint64 now))\<rparr>"] k
    by simp
qed

lemma verify_made:
  assumes "mac_size mac"
  shows "VerifyVersionCommitment mac now (Some \<lparr>Version = v, Timestamp = t, HMAC = bytes_key (mac h ([v] @ PutUint64 t))\<rparr>) v' h' = Ok () \<longleftrightarrow>
     v = v' \<and> sint ((now - t) * Second) \<le> sint CommitmentMaxAge \<and>
     sint ((t - now) * Second) \<le> sint CommitmentMaxFutureDrift \<and> mac h ([v] @ PutUint64 t) = mac h' ([v] @ PutUint64 t)"
proof -
  have "length (mac h ([v] @ PutUint64 t)) = 32" using assms by (simp add: mac_size_def)
  then have "key_bytes (bytes_key (mac h ([v] @ PutUint64 t))) = mac h ([v] @ PutUint64 t)"
    by (rule key_bytes_bytes_key)
  then show ?thesis by (auto simp: VerifyVersionCommitment_def Let_def computeCommitmentMAC_def)
qed

lemma process_made:
  assumes "mac_size mac" and "NewVersionCommitmentExchange mac t v h = Ok A"
  shows "\<exists>d. GetLocalCommitment A = Ok d \<and>
     (let (r, B') = ProcessPeerCommitment mac now d B in
       (r = Ok () \<longleftrightarrow> v = localVersion B \<and> sint ((now - t) * Second) \<le> sint CommitmentMaxAge \<and>
          sint ((t - now) * Second) \<le> sint CommitmentMaxFutureDrift \<and>
          mac h ([v] @ PutUint64 t) = mac (handshakeHash B) ([v] @ PutUint64 t)) \<and>
       (if r = Ok () then GetAgreedVersion B' = Ok v else B' = B))"
  using exchange_made [OF assms(2,1)] verify_made [OF assms(1), of now v t h "localVersion B" "handshakeHash B"]
  by (auto simp: ProcessPeerCommitment_def GetAgreedVersion_def split: sum.splits)

section \<open>Properties\<close>

text \<open>
  What a commitment proves. A peer accepts the commitment of the other side exactly when both
  selected the same version, the commitment is at most five minutes old and at most one minute ahead
  of its own clock, and the MAC under its own handshake hash is the one sent; it then reports the
  common version, and otherwise it is left unchanged. The clocks are assumed to be less than 136 years
  apart, so that no conversion overflows.
\<close>

theorem commitment_binds_version:
  assumes "mac_size mac" and "NewVersionCommitmentExchange mac (word_of_int tA) vA hA = Ok A"
    and "NewVersionCommitmentExchange mac t0 vB hB = Ok B" and "\<bar>now - tA\<bar> \<le> 2 ^ 32"
  shows "\<exists>d. GetLocalCommitment A = Ok d \<and>
     (let (r, B') = ProcessPeerCommitment mac (word_of_int now) d B in
       (r = Ok () \<longleftrightarrow> vA = vB \<and> now - tA \<le> 300 \<and> tA - now \<le> 60 \<and>
          mac hA ([vA] @ PutUint64 (word_of_int tA)) = mac hB ([vA] @ PutUint64 (word_of_int tA))) \<and>
       (if r = Ok () then GetAgreedVersion B' = Ok vA else B' = B))"
proof -
  have swapped: "\<bar>tA - now\<bar> \<le> 2 ^ 32" using assms(4) by (simp only: abs_minus_commute)
  have bounds: "sint CommitmentMaxAge = 300 * 1000000000" "sint CommitmentMaxFutureDrift = 60 * 1000000000"
    by (simp_all add: Second_def)
  have age: "sint ((word_of_int now - word_of_int tA :: 64 word) * Second) \<le> sint CommitmentMaxAge \<longleftrightarrow> now - tA \<le> 300"
    using sint_seconds [OF assms(4)]
    by (simp only: of_int_diff bounds seconds_le)
  have drift: "sint ((word_of_int tA - word_of_int now :: 64 word) * Second) \<le> sint CommitmentMaxFutureDrift \<longleftrightarrow> tA - now \<le> 60"
    using sint_seconds [OF swapped]
    by (simp only: of_int_diff bounds seconds_le)
  show ?thesis
    using process_made [OF assms(1,2), of "word_of_int now" B] exchange_made(1,2) [OF assms(3,1)]
    unfolding age drift by simp
qed

definition toy_mac :: hmac where "toy_mac k m = replicate 31 0 @ [foldl (+) 0 (k @ m)]"

lemma toy_mac_size: "mac_size toy_mac"
  by (simp add: mac_size_def toy_mac_def)

lemma toy_exchange:
  "h \<noteq> [] \<Longrightarrow> \<exists>A. NewVersionCommitmentExchange toy_mac t v h = Ok A"
  by (simp add: NewVersionCommitmentExchange_def CreateVersionCommitment_def)

theorem commitment_binds_version_witness:
  "\<exists>A B d. NewVersionCommitmentExchange toy_mac (word_of_int 1000) 1 [5] = Ok A \<and>
     NewVersionCommitmentExchange toy_mac 1001 1 [5] = Ok B \<and> GetLocalCommitment A = Ok d \<and>
     fst (ProcessPeerCommitment toy_mac (word_of_int 1100) d B) = Ok ()"
proof -
  obtain A B where AB: "NewVersionCommitmentExchange toy_mac (word_of_int 1000) 1 [5] = Ok A"
    "NewVersionCommitmentExchange toy_mac 1001 1 [5] = Ok B"
    using toy_exchange [of "[5]" "word_of_int 1000" 1] toy_exchange [of "[5]" 1001 1] by auto
  with commitment_binds_version [OF toy_mac_size AB, of 1100] show ?thesis
    by (auto simp: Let_def case_prod_beta)
qed

text \<open>
  The conversion of the age to nanoseconds overflows: a commitment that is \<open>2 ^ 55\<close> seconds old,
  more than a thousand million years, has age 0 and passes the freshness check.
\<close>

theorem ancient_commitment_accepted:
  assumes "mac_size mac" and "NewVersionCommitmentExchange mac t v h = Ok A"
    and "NewVersionCommitmentExchange mac t0 v h = Ok B"
  shows "\<exists>d. GetLocalCommitment A = Ok d \<and>
     fst (ProcessPeerCommitment mac (t + 2 ^ 55) d B) = Ok ()"
proof -
  have "(t + 2 ^ 55 - t) * Second = 0" "(t - (t + 2 ^ 55)) * Second = 0" by (simp_all add: Second_def)
  moreover have "0 \<le> sint CommitmentMaxAge" "0 \<le> sint CommitmentMaxFutureDrift"
    by (simp_all add: Second_def)
  ultimately show ?thesis
    using process_made [OF assms(1,2), of "t + 2 ^ 55" B] exchange_made(1,2) [OF assms(3,1)]
    by (auto simp: Let_def case_prod_beta simp del: add_diff_cancel_left')
qed

theorem ancient_commitment_accepted_witness:
  "\<exists>A B d. NewVersionCommitmentExchange toy_mac 0 1 [5] = Ok A \<and>
     NewVersionCommitmentExchange toy_mac 1001 1 [5] = Ok B \<and> GetLocalCommitment A = Ok d \<and>
     fst (ProcessPeerCommitment toy_mac (2 ^ 55) d B) = Ok ()"
proof -
  obtain A B where AB: "NewVersionCommitmentExchange toy_mac 0 1 [5] = Ok A"
    "NewVersionCommitmentExchange toy_mac 1001 1 [5] = Ok B"
    using toy_exchange [of "[5]" 0 1] toy_exchange [of "[5]" 1001 1] by auto
  with ancient_commitment_accepted [OF toy_mac_size AB] show ?thesis by auto
qed

end
