(* ===== verification/Trust_Store.thy ===== *)
theory Trust_Store
  imports Version_Packets
begin

text \<open>
  Trust on first use (\<^verbatim>\<open>transport/tofu.go\<close>): the store of the key each peer is trusted with, the
  alarm when another key appears, and its acknowledgement. Then the choice of the session mode from
  the policy, the negotiated version and the ratchet capability of the peer
  (\<^verbatim>\<open>transport/ratchet_capability.go\<close>).
\<close>

section \<open>The trust store\<close>

datatype TrustState = TrustUnknown | TrustOnFirstUse | TrustKeyChanged | TrustVerified

record PeerTrustRecord =
  State :: TrustState
  TrustedKey :: key32
  AlarmKey :: key32
  FirstSeen :: time
  LastUpdated :: time

text \<open>
  Every access to a record happens under the store's lock and callers get copies, so the records are
  kept by value. \<open>alarmSet\<close> says whether an alarm callback is registered; a call of it is an event
  with the peer, the old and the new key.
\<close>

record TOFUStore =
  records :: "(key32, PeerTrustRecord) gomap"
  alarmSet :: bool

definition NewTOFUStore :: TOFUStore where
  "NewTOFUStore = \<lparr>records = [], alarmSet = False\<rparr>"

definition SetAlarmCallback :: "bool \<Rightarrow> TOFUStore \<Rightarrow> TOFUStore" where
  "SetAlarmCallback cb s = s\<lparr>alarmSet := cb\<rparr>"

type_synonym alarm = "key32 \<times> key32 \<times> key32"

definition Observe :: "time \<Rightarrow> key32 \<Rightarrow> key32 \<Rightarrow> TOFUStore \<Rightarrow> PeerTrustRecord \<times> TOFUStore \<times> alarm list" where
  "Observe now peerID observedKey s =
     (case mget (records s) peerID of
        None \<Rightarrow>
          let r = \<lparr>State = TrustOnFirstUse, TrustedKey = observedKey, AlarmKey = 0, FirstSeen = now, LastUpdated = now\<rparr>
          in (r, s\<lparr>records := mput peerID r (records s)\<rparr>, [])
      | Some r \<Rightarrow>
          if TrustedKey r = observedKey then (r, s, [])
          else
            let oldKey = TrustedKey r;
                r' = r\<lparr>AlarmKey := observedKey, State := TrustKeyChanged, LastUpdated := now\<rparr>
            in (r', s\<lparr>records := mput peerID r' (records s)\<rparr>,
                if alarmSet s then [(peerID, oldKey, observedKey)] else []))"

definition tofu_Get :: "key32 \<Rightarrow> TOFUStore \<Rightarrow> PeerTrustRecord option" where
  "tofu_Get peerID s = mget (records s) peerID"

definition tofu_State :: "key32 \<Rightarrow> TOFUStore \<Rightarrow> TrustState" where
  "tofu_State peerID s = (case mget (records s) peerID of None \<Rightarrow> TrustUnknown | Some r \<Rightarrow> State r)"

definition MarkVerified :: "time \<Rightarrow> key32 \<Rightarrow> TOFUStore \<Rightarrow> bool \<times> TOFUStore" where
  "MarkVerified now peerID s =
     (case mget (records s) peerID of
        None \<Rightarrow> (False, s)
      | Some r \<Rightarrow>
          let r1 = (if State r = TrustKeyChanged then r\<lparr>TrustedKey := AlarmKey r, AlarmKey := 0\<rparr> else r);
              r2 = r1\<lparr>State := TrustVerified, LastUpdated := now\<rparr>
          in (True, s\<lparr>records := mput peerID r2 (records s)\<rparr>))"

definition tofu_Remove :: "key32 \<Rightarrow> TOFUStore \<Rightarrow> TOFUStore" where
  "tofu_Remove peerID s = s\<lparr>records := mdel peerID (records s)\<rparr>"

text \<open>The operations on a store as steps.\<close>

datatype tofu_op =
    DoObserve time key32 key32
  | DoVerify time key32
  | DoRemove key32
  | DoAlarm bool

fun tofu_step :: "tofu_op \<Rightarrow> TOFUStore \<Rightarrow> TOFUStore \<times> alarm list" where
  "tofu_step (DoObserve now p k) s = snd (Observe now p k s)"
| "tofu_step (DoVerify now p) s = (snd (MarkVerified now p s), [])"
| "tofu_step (DoRemove p) s = (tofu_Remove p s, [])"
| "tofu_step (DoAlarm cb) s = (SetAlarmCallback cb s, [])"

fun tofu_run :: "tofu_op list \<Rightarrow> TOFUStore \<Rightarrow> TOFUStore \<times> alarm list" where
  "tofu_run [] s = (s, [])"
| "tofu_run (op # ops) s = (let (s1, a1) = tofu_step op s; (s2, a2) = tofu_run ops s1 in (s2, a1 @ a2))"

text \<open>
  The operations with which the application itself decides about a peer, and the keys other than
  \<open>k\<close> that were observed for it.
\<close>

fun decides :: "key32 \<Rightarrow> tofu_op \<Rightarrow> bool" where
  "decides p (DoVerify _ q) = (q = p)"
| "decides p (DoRemove q) = (q = p)"
| "decides p _ = False"

fun foreign_keys :: "key32 \<Rightarrow> key32 \<Rightarrow> tofu_op list \<Rightarrow> key32 list" where
  "foreign_keys p k [] = []"
| "foreign_keys p k (DoObserve _ q k' # ops) =
     (if q = p \<and> k' \<noteq> k then k' # foreign_keys p k ops else foreign_keys p k ops)"
| "foreign_keys p k (_ # ops) = foreign_keys p k ops"

lemma tofu_Get_step:
  assumes "tofu_Get p s = Some r" and "\<not> decides p op"
  shows "\<exists>r'. tofu_Get p (fst (tofu_step op s)) = Some r' \<and> TrustedKey r' = TrustedKey r \<and>
     (if foreign_keys p (TrustedKey r) [op] = [] then State r' = State r \<and> AlarmKey r' = AlarmKey r
      else State r' = TrustKeyChanged \<and> AlarmKey r' = hd (foreign_keys p (TrustedKey r) [op]))"
proof (cases op)
  case (DoObserve now q k)
  then show ?thesis using assms(1)
    by (cases "q = p") (simp_all add: tofu_Get_def Observe_def Let_def dict_simps split: option.splits)
next
  case (DoVerify now q)
  then show ?thesis using assms
    by (simp add: tofu_Get_def MarkVerified_def Let_def dict_simps split: option.splits)
next
  case (DoRemove q)
  then show ?thesis using assms by (simp add: tofu_Get_def tofu_Remove_def dict_simps)
next
  case (DoAlarm cb)
  then show ?thesis using assms by (simp add: tofu_Get_def SetAlarmCallback_def)
qed

lemma foreign_keys_Cons: "foreign_keys p k (op # ops) = foreign_keys p k [op] @ foreign_keys p k ops"
  by (cases op) auto

lemma foreign_keys_single: "foreign_keys p k [op] = [] \<or> (\<exists>k'. foreign_keys p k [op] = [k'])"
  by (cases op) auto

lemma tofu_Get_run:
  assumes "tofu_Get p s = Some r" and "\<forall>op \<in> set ops. \<not> decides p op"
  shows "\<exists>r'. tofu_Get p (fst (tofu_run ops s)) = Some r' \<and> TrustedKey r' = TrustedKey r \<and>
     (if foreign_keys p (TrustedKey r) ops = [] then State r' = State r \<and> AlarmKey r' = AlarmKey r
      else State r' = TrustKeyChanged \<and> AlarmKey r' = last (foreign_keys p (TrustedKey r) ops))"
  using assms
proof (induction ops arbitrary: s r)
  case (Cons op ops)
  from tofu_Get_step [of p s r op] Cons.prems
  obtain r1 where 1: "tofu_Get p (fst (tofu_step op s)) = Some r1" "TrustedKey r1 = TrustedKey r"
    "if foreign_keys p (TrustedKey r) [op] = [] then State r1 = State r \<and> AlarmKey r1 = AlarmKey r
      else State r1 = TrustKeyChanged \<and> AlarmKey r1 = hd (foreign_keys p (TrustedKey r) [op])" by auto
  from Cons.IH [OF 1(1)] Cons.prems(2)
  obtain r2 where 2: "tofu_Get p (fst (tofu_run ops (fst (tofu_step op s)))) = Some r2" "TrustedKey r2 = TrustedKey r"
    "if foreign_keys p (TrustedKey r) ops = [] then State r2 = State r1 \<and> AlarmKey r2 = AlarmKey r1
      else State r2 = TrustKeyChanged \<and> AlarmKey r2 = last (foreign_keys p (TrustedKey r) ops)" using 1(2) by auto
  have "fst (tofu_run (op # ops) s) = fst (tofu_run ops (fst (tofu_step op s)))"
    by (simp add: case_prod_beta)
  with 1 2 foreign_keys_single [of p "TrustedKey r" op] foreign_keys_Cons [of p "TrustedKey r" op ops]
  show ?case by (auto split: if_splits)
qed simp

section \<open>Ratchet capabilities and session modes\<close>

datatype RatchetCapability = RatchetUnknown | RatchetUnsupported | RatchetSupported

type_synonym RatchetCapabilityTracker = "(string, RatchetCapability) gomap"

definition NewRatchetCapabilityTracker :: RatchetCapabilityTracker where
  "NewRatchetCapabilityTracker = []"

definition GetCapability :: "string \<Rightarrow> RatchetCapabilityTracker \<Rightarrow> RatchetCapability" where
  "GetCapability addr rct = (case mget rct addr of Some cap \<Rightarrow> cap | None \<Rightarrow> RatchetUnknown)"

definition TrackCapability :: "string \<Rightarrow> RatchetCapability \<Rightarrow> RatchetCapabilityTracker \<Rightarrow> RatchetCapabilityTracker" where
  "TrackCapability addr cap rct = mput addr cap rct"

definition MarkSupported :: "string \<Rightarrow> RatchetCapabilityTracker \<Rightarrow> RatchetCapabilityTracker" where
  "MarkSupported addr rct = TrackCapability addr RatchetSupported rct"

definition MarkUnsupported :: "string \<Rightarrow> RatchetCapabilityTracker \<Rightarrow> RatchetCapabilityTracker" where
  "MarkUnsupported addr rct = TrackCapability addr RatchetUnsupported rct"

definition IsSupported :: "string \<Rightarrow> RatchetCapabilityTracker \<Rightarrow> bool" where
  "IsSupported addr rct \<longleftrightarrow> GetCapability addr rct = RatchetSupported"

definition RemovePeer :: "string \<Rightarrow> RatchetCapabilityTracker \<Rightarrow> RatchetCapabilityTracker" where
  "RemovePeer addr rct = mdel addr rct"

definition ClearCapabilities :: "RatchetCapabilityTracker \<Rightarrow> RatchetCapabilityTracker" where
  "ClearCapabilities rct = []"

datatype SessionMode = SessionModeLegacy | SessionModeNoise | SessionModeNoiseWithRatchet

datatype mode_error = ErrRatchetRequired

definition SelectSessionMode :: "SessionPolicy \<Rightarrow> ProtocolVersion \<Rightarrow> RatchetCapability \<Rightarrow> PolicyConfig option \<Rightarrow>
    mode_error + SessionMode" where
  "SelectSessionMode policy protocolVersion peerRatchetCap policyConfig =
     (if protocolVersion = ProtocolLegacy then Ok SessionModeLegacy
      else if protocolVersion = ProtocolNoiseIK then
        (if policy = PolicyNoiseWithRatchet then
           (if peerRatchetCap = RatchetSupported then Ok SessionModeNoiseWithRatchet
            else (case policyConfig of
                Some c \<Rightarrow> if RequireRatchetForNoise c \<and> \<not> AllowUnauthenticatedFallback c
                           then Err ErrRatchetRequired else Ok SessionModeNoise
              | None \<Rightarrow> Ok SessionModeNoise))
         else Ok SessionModeNoise)
      else Ok SessionModeLegacy)"

definition CanUseRatchet :: "SessionMode \<Rightarrow> bool" where
  "CanUseRatchet sm \<longleftrightarrow> sm = SessionModeNoiseWithRatchet"

definition IsEncrypted :: "SessionMode \<Rightarrow> bool" where
  "IsEncrypted sm \<longleftrightarrow> sm \<noteq> SessionModeLegacy"

text \<open>
  With the strict configuration a Noise session always has the ratchet. The configuration is not
  consulted for any other version: whatever the policy, Legacy and every unknown version give a
  legacy session without an error.
\<close>

lemma strict_noise_has_ratchet:
  "SelectSessionMode PolicyNoiseWithRatchet ProtocolNoiseIK cap (Some StrictPolicyConfig) = Ok mode \<Longrightarrow>
     CanUseRatchet mode \<and> cap = RatchetSupported"
  by (auto simp: SelectSessionMode_def StrictPolicyConfig_def CanUseRatchet_def version_consts split: if_splits)

lemma strict_config_allows_legacy:
  "version \<noteq> ProtocolNoiseIK \<Longrightarrow> SelectSessionMode policy version cap (Some StrictPolicyConfig) = Ok SessionModeLegacy"
  by (simp add: SelectSessionMode_def)

lemma legacy_policy_gets_noise:
  "SelectSessionMode PolicyLegacyOnly ProtocolNoiseIK cap config = Ok SessionModeNoise"
  by (simp add: SelectSessionMode_def version_consts)

section \<open>Properties\<close>

text \<open>
  C35. The key a peer is trusted with is the first one seen until the application decides otherwise:
  after the first observation, in every run of observations for any peers and decisions about other
  peers, the trusted key is unchanged, and the peer is in the alarm state, with the last foreign key
  recorded, exactly when some foreign key was observed for it.
\<close>

theorem first_key_stays_trusted:
  assumes "tofu_Get p s = None" and "\<forall>op \<in> set ops. \<not> decides p op"
  shows "\<exists>r. tofu_Get p (fst (tofu_run (DoObserve now p k # ops) s)) = Some r \<and> TrustedKey r = k \<and>
     (if foreign_keys p k ops = [] then State r = TrustOnFirstUse
      else State r = TrustKeyChanged \<and> AlarmKey r = last (foreign_keys p k ops))"
proof -
  define r0 where "r0 = \<lparr>State = TrustOnFirstUse, TrustedKey = k, AlarmKey = 0, FirstSeen = now, LastUpdated = now\<rparr>"
  let ?s = "fst (tofu_step (DoObserve now p k) s)"
  have "tofu_Get p ?s = Some r0" using assms(1)
    by (simp add: tofu_Get_def Observe_def Let_def dict_simps r0_def)
  moreover have "fst (tofu_run (DoObserve now p k # ops) s) = fst (tofu_run ops ?s)"
    by (simp add: case_prod_beta)
  ultimately show ?thesis using tofu_Get_run [of p ?s r0 ops] assms(2) by (auto simp: r0_def split: if_splits)
qed

theorem first_key_stays_trusted_witness:
  "\<exists>r. tofu_Get 1 (fst (tofu_run [DoObserve 0 1 7, DoObserve 5 2 8, DoObserve 6 1 9, DoVerify 7 2, DoObserve 8 1 7]
       NewTOFUStore)) = Some r \<and> TrustedKey r = 7 \<and> State r = TrustKeyChanged \<and> AlarmKey r = 9"
  using first_key_stays_trusted [of 1 NewTOFUStore "[DoObserve 5 2 8, DoObserve 6 1 9, DoVerify 7 2, DoObserve 8 1 7]" 0 7]
  by (simp add: tofu_Get_def NewTOFUStore_def)

text \<open>
  The acknowledgement does not say which key was confirmed. When a third key is observed between
  the alarm for a second key and the call of \<^verbatim>\<open>MarkVerified\<close>, it is the third key that becomes trusted
  and verified, although the user confirmed the second.
\<close>

theorem unconfirmed_key_verified:
  assumes "tofu_Get p s = Some r" and "TrustedKey r \<noteq> k2" and "TrustedKey r \<noteq> k3"
  shows "\<exists>r'. tofu_Get p (fst (tofu_run [DoObserve t1 p k2, DoObserve t2 p k3, DoVerify t3 p] s)) = Some r' \<and>
     TrustedKey r' = k3 \<and> State r' = TrustVerified"
  using assms by (simp add: tofu_Get_def Observe_def MarkVerified_def Let_def dict_simps)

theorem unconfirmed_key_verified_witness:
  "\<exists>s r'. tofu_Get 1 (fst (tofu_run [DoObserve 2 1 8, DoObserve 3 1 9, DoVerify 4 1] s)) = Some r' \<and>
     TrustedKey r' = 9 \<and> State r' = TrustVerified"
  using unconfirmed_key_verified [of 1 "\<lparr>records = [(1, \<lparr>State = TrustVerified, TrustedKey = 7, AlarmKey = 0,
      FirstSeen = 0, LastUpdated = 0\<rparr>)], alarmSet = True\<rparr>" _ 8 9 2 3 4]
  by (fastforce simp: tofu_Get_def mget_def)

end
