(* ===== verification/Sender_Key.thy ===== *)
theory Sender_Key
  imports Tox_Prelude
begin

text \<open>
  Sender keys of group chats (\<^verbatim>\<open>group/sender_key.go\<close>): a member encrypts its messages once, with a
  symmetric key it has distributed to every other member. Curve25519, SHA-256 and the two AEADs
  (ChaCha20-Poly1305 with 12-byte and XChaCha20-Poly1305 with 24-byte nonces) are parameters; random
  bytes are arguments, \<open>None\<close> where the generator fails.
\<close>

section \<open>Primitives and little-endian integers\<close>

record group_crypto =
  gX25519 :: "key32 \<Rightarrow> key32 \<Rightarrow> key32 option"
  gScalarBaseMult :: "key32 \<Rightarrow> key32"
  gSum256 :: "bytes \<Rightarrow> key32"
  gSeal :: "key32 \<Rightarrow> bytes \<Rightarrow> bytes \<Rightarrow> bytes \<Rightarrow> bytes"
  gOpen :: "key32 \<Rightarrow> bytes \<Rightarrow> bytes \<Rightarrow> bytes \<Rightarrow> bytes option"

text \<open>
  Key agreement with a public key made by \<^verbatim>\<open>ScalarBaseMult\<close> succeeds and is symmetric; what was sealed
  opens again and is 16 bytes longer than the plaintext.
\<close>

definition group_dh :: "group_crypto \<Rightarrow> bool" where
  "group_dh G \<longleftrightarrow> (\<forall>a b. gX25519 G a (gScalarBaseMult G b) = gX25519 G b (gScalarBaseMult G a) \<and>
     gX25519 G a (gScalarBaseMult G b) \<noteq> None)"

definition group_aead :: "group_crypto \<Rightarrow> bool" where
  "group_aead G \<longleftrightarrow> (\<forall>k n p ad. gOpen G k n (gSeal G k n p ad) ad = Some p \<and>
     length (gSeal G k n p ad) = length p + 16)"

text \<open>\<^verbatim>\<open>binary.LittleEndian\<close>: the bytes of the big-endian form reversed.\<close>

definition LePutUint32 :: "u32 \<Rightarrow> bytes" where "LePutUint32 v = rev (PutUint32 v)"
definition LePutUint64 :: "u64 \<Rightarrow> bytes" where "LePutUint64 v = rev (PutUint64 v)"
definition LeUint32 :: "bytes \<Rightarrow> u32" where "LeUint32 bs = Uint32 (rev bs)"
definition LeUint64 :: "bytes \<Rightarrow> u64" where "LeUint64 bs = Uint64 (rev bs)"

lemma le_roundtrips [simp, wire_simps]:
  "LeUint32 (LePutUint32 v) = v" "LeUint64 (LePutUint64 w) = w"
  "length (LePutUint32 v) = 4" "length (LePutUint64 w) = 8"
  by (simp_all add: LeUint32_def LePutUint32_def LeUint64_def LePutUint64_def)

section \<open>State\<close>

record SenderKeyState =
  sk_KeyID :: u32
  sk_Key :: key32
  sk_ChainKey :: key32
  MessageCounter :: u64
  SeenFirstMessage :: bool
  CreatedAt :: time

record SenderKeyDistribution =
  d_GroupID :: key32
  d_SenderPublicKey :: key32
  d_KeyID :: u32
  EphemeralPublicKey :: key32
  EncryptedKey :: bytes
  d_Nonce :: bytes

record SenderKeyMessage =
  m_GroupID :: key32
  m_SenderPublicKey :: key32
  m_KeyID :: u32
  Counter :: u64
  Ciphertext :: bytes

record SenderKeyManager =
  groupID :: key32
  selfPublicKey :: key32
  selfPrivateKey :: key32
  mySenderKey :: "SenderKeyState option"
  peerSenderKeys :: "(key32, SenderKeyState) gomap"
  maxMessageCounter :: u64
  onKeyRotation :: bool

datatype group_error =
    RandomFailed
  | NoSenderKey
  | StaticDHFailed
  | EphemeralDHFailed
  | GroupIDMismatch
  | SenderKeyUndecryptable
  | InvalidSenderKeyLength
  | SenderKeyExhausted u64
  | NoPeerSenderKey
  | KeyIDMismatch u32 u32
  | ReplayDetected u64 u64
  | MessageUndecryptable
  | DataTooShort
  | LengthExceeds nat

section \<open>Generating and distributing keys\<close>

definition generateNewSenderKey :: "time \<Rightarrow> key32 option \<Rightarrow> key32 option \<Rightarrow> SenderKeyManager \<Rightarrow>
    (group_error + unit) \<times> SenderKeyManager" where
  "generateNewSenderKey now rndKey rndChain skm =
     (case rndKey of None \<Rightarrow> (Err RandomFailed, skm)
      | Some key \<Rightarrow> (case rndChain of None \<Rightarrow> (Err RandomFailed, skm)
        | Some chainKey \<Rightarrow>
          let keyID = (case mySenderKey skm of None \<Rightarrow> 1 | Some k \<Rightarrow> sk_KeyID k + 1)
          in (Ok (), skm\<lparr>mySenderKey := Some \<lparr>sk_KeyID = keyID, sk_Key = key, sk_ChainKey = chainKey,
                MessageCounter = 0, SeenFirstMessage = False, CreatedAt = now\<rparr>\<rparr>)))"

definition NewSenderKeyManager :: "time \<Rightarrow> key32 option \<Rightarrow> key32 option \<Rightarrow> key32 \<Rightarrow> key32 \<Rightarrow> key32 \<Rightarrow>
    group_error + SenderKeyManager" where
  "NewSenderKeyManager now rndKey rndChain gid publicKey privateKey =
     (case generateNewSenderKey now rndKey rndChain \<lparr>groupID = gid, selfPublicKey = publicKey,
          selfPrivateKey = privateKey, mySenderKey = None, peerSenderKeys = [],
          maxMessageCounter = 1000, onKeyRotation = False\<rparr> of
        (Inl e, _) \<Rightarrow> Err e | (Inr _, skm) \<Rightarrow> Ok skm)"

definition combineAndDeriveKey :: "group_crypto \<Rightarrow> key32 \<Rightarrow> key32 \<Rightarrow> key32" where
  "combineAndDeriveKey G dhA dhB = gSum256 G (key_bytes dhA @ key_bytes dhB)"

definition generateEphemeralKeyPair :: "group_crypto \<Rightarrow> key32 option \<Rightarrow> group_error + (key32 \<times> key32)" where
  "generateEphemeralKeyPair G rnd =
     (case rnd of None \<Rightarrow> Err RandomFailed | Some private \<Rightarrow> Ok (private, gScalarBaseMult G private))"

definition encryptSenderKeyForPeer :: "group_crypto \<Rightarrow> bytes option \<Rightarrow> key32 \<Rightarrow> key32 \<Rightarrow> SenderKeyState \<Rightarrow>
    group_error + (bytes \<times> bytes)" where
  "encryptSenderKeyForPeer G rndNonce encKey gid my =
     (case rndNonce of None \<Rightarrow> Err RandomFailed
      | Some nonce \<Rightarrow> Ok (gSeal G encKey nonce (key_bytes (sk_Key my) @ key_bytes (sk_ChainKey my)) (key_bytes gid), nonce))"

definition createDistributionForPeer :: "group_crypto \<Rightarrow> key32 option \<Rightarrow> bytes option \<Rightarrow> key32 \<Rightarrow> SenderKeyState \<Rightarrow>
    SenderKeyManager \<Rightarrow> group_error + SenderKeyDistribution" where
  "createDistributionForPeer G rndEph rndNonce peerPublicKey my skm =
     (case generateEphemeralKeyPair G rndEph of Inl e \<Rightarrow> Err e
      | Inr (ephemeralPrivate, ephemeralPublic) \<Rightarrow>
        (case gX25519 G (selfPrivateKey skm) peerPublicKey of None \<Rightarrow> Err StaticDHFailed
         | Some staticDH \<Rightarrow>
           (case gX25519 G ephemeralPrivate peerPublicKey of None \<Rightarrow> Err EphemeralDHFailed
            | Some ephemeralDH \<Rightarrow>
              (case encryptSenderKeyForPeer G rndNonce (combineAndDeriveKey G staticDH ephemeralDH) (groupID skm) my of
                 Inl e \<Rightarrow> Err e
               | Inr (ciphertext, nonce) \<Rightarrow>
                   Ok \<lparr>d_GroupID = groupID skm, d_SenderPublicKey = selfPublicKey skm, d_KeyID = sk_KeyID my,
                       EphemeralPublicKey = ephemeralPublic, EncryptedKey = ciphertext, d_Nonce = nonce\<rparr>))))"

text \<open>
  The distributions for a list of peers, each with the random bytes drawn for it; peers for whom it
  fails are skipped.
\<close>

fun distribution_loop :: "group_crypto \<Rightarrow> SenderKeyState \<Rightarrow> SenderKeyManager \<Rightarrow>
    (key32 \<times> key32 option \<times> bytes option) list \<Rightarrow> SenderKeyDistribution list" where
  "distribution_loop G my skm [] = []"
| "distribution_loop G my skm ((peerPK, rndEph, rndNonce) # rest) =
     (case createDistributionForPeer G rndEph rndNonce peerPK my skm of
        Inl _ \<Rightarrow> distribution_loop G my skm rest
      | Inr dist \<Rightarrow> dist # distribution_loop G my skm rest)"

definition CreateDistributions :: "group_crypto \<Rightarrow> (key32 \<times> key32 option \<times> bytes option) list \<Rightarrow> SenderKeyManager \<Rightarrow>
    group_error + SenderKeyDistribution list" where
  "CreateDistributions G peers skm =
     (case mySenderKey skm of None \<Rightarrow> Err NoSenderKey | Some my \<Rightarrow> Ok (distribution_loop G my skm peers))"

text \<open>The third component is the distribution handed to the rotation callback, if any.\<close>

definition RotateSenderKey :: "group_crypto \<Rightarrow> time \<Rightarrow> key32 option \<Rightarrow> key32 option \<Rightarrow>
    (key32 \<times> key32 option \<times> bytes option) list \<Rightarrow> SenderKeyManager \<Rightarrow>
    (group_error + SenderKeyDistribution list) \<times> SenderKeyManager \<times> SenderKeyDistribution option" where
  "RotateSenderKey G now rndKey rndChain peers skm =
     (case generateNewSenderKey now rndKey rndChain skm of (Inl e, skm1) \<Rightarrow> (Err e, skm1, None)
      | (Inr _, skm1) \<Rightarrow>
        (case CreateDistributions G peers skm1 of Inl e \<Rightarrow> (Err e, skm1, None)
         | Inr dists \<Rightarrow> (Ok dists, skm1, if onKeyRotation skm1 \<and> length dists > 0 then Some (dists ! 0) else None)))"

definition decryptSenderKeyFromDist :: "group_crypto \<Rightarrow> SenderKeyDistribution \<Rightarrow> SenderKeyManager \<Rightarrow>
    group_error + (key32 \<times> key32)" where
  "decryptSenderKeyFromDist G dist skm =
     (case gX25519 G (selfPrivateKey skm) (d_SenderPublicKey dist) of None \<Rightarrow> Err StaticDHFailed
      | Some staticDH \<Rightarrow>
        (case gX25519 G (selfPrivateKey skm) (EphemeralPublicKey dist) of None \<Rightarrow> Err EphemeralDHFailed
         | Some ephemeralDH \<Rightarrow>
           (case gOpen G (combineAndDeriveKey G staticDH ephemeralDH) (d_Nonce dist) (EncryptedKey dist)
                   (key_bytes (groupID skm)) of
              None \<Rightarrow> Err SenderKeyUndecryptable
            | Some plaintext \<Rightarrow>
              if length plaintext \<noteq> 64 then Err InvalidSenderKeyLength
              else Ok (bytes_key (take 32 plaintext), bytes_key (drop 32 plaintext)))))"

definition ProcessDistribution :: "group_crypto \<Rightarrow> time \<Rightarrow> SenderKeyDistribution \<Rightarrow> SenderKeyManager \<Rightarrow>
    (group_error + unit) \<times> SenderKeyManager" where
  "ProcessDistribution G now dist skm =
     (if d_GroupID dist \<noteq> groupID skm then (Err GroupIDMismatch, skm)
      else (case decryptSenderKeyFromDist G dist skm of Inl e \<Rightarrow> (Err e, skm)
        | Inr (key, chainKey) \<Rightarrow>
          (Ok (), skm\<lparr>peerSenderKeys := mput (d_SenderPublicKey dist)
             \<lparr>sk_KeyID = d_KeyID dist, sk_Key = key, sk_ChainKey = chainKey, MessageCounter = 0,
              SeenFirstMessage = False, CreatedAt = now\<rparr> (peerSenderKeys skm)\<rparr>)))"

section \<open>Messages\<close>

definition deriveNonce :: "u64 \<Rightarrow> bytes" where
  "deriveNonce counter = LePutUint64 counter @ replicate 4 0"

definition EncryptMessage :: "group_crypto \<Rightarrow> bytes \<Rightarrow> SenderKeyManager \<Rightarrow>
    (group_error + SenderKeyMessage) \<times> SenderKeyManager" where
  "EncryptMessage G plaintext skm =
     (case mySenderKey skm of None \<Rightarrow> (Err NoSenderKey, skm)
      | Some my \<Rightarrow>
        if MessageCounter my \<ge> maxMessageCounter skm then (Err (SenderKeyExhausted (MessageCounter my)), skm)
        else
          let nonce = deriveNonce (MessageCounter my);
              ciphertext = gSeal G (sk_Key my) nonce plaintext (key_bytes (groupID skm));
              msg = \<lparr>m_GroupID = groupID skm, m_SenderPublicKey = selfPublicKey skm, m_KeyID = sk_KeyID my,
                     Counter = MessageCounter my, Ciphertext = ciphertext\<rparr>
          in (Ok msg, skm\<lparr>mySenderKey := Some (my\<lparr>MessageCounter := MessageCounter my + 1\<rparr>)\<rparr>))"

definition validatePeerMessageLocked :: "SenderKeyMessage \<Rightarrow> SenderKeyManager \<Rightarrow> group_error + SenderKeyState" where
  "validatePeerMessageLocked msg skm =
     (if m_GroupID msg \<noteq> groupID skm then Err GroupIDMismatch
      else (case mget (peerSenderKeys skm) (m_SenderPublicKey msg) of None \<Rightarrow> Err NoPeerSenderKey
        | Some senderKey \<Rightarrow>
          if m_KeyID msg \<noteq> sk_KeyID senderKey then Err (KeyIDMismatch (sk_KeyID senderKey) (m_KeyID msg))
          else if SeenFirstMessage senderKey \<and> Counter msg \<le> MessageCounter senderKey
          then Err (ReplayDetected (Counter msg) (MessageCounter senderKey))
          else Ok senderKey))"

definition skm_DecryptMessage :: "group_crypto \<Rightarrow> SenderKeyMessage \<Rightarrow> SenderKeyManager \<Rightarrow>
    (group_error + bytes) \<times> SenderKeyManager" where
  "skm_DecryptMessage G msg skm =
     (case validatePeerMessageLocked msg skm of Inl e \<Rightarrow> (Err e, skm)
      | Inr senderKey \<Rightarrow>
        (case gOpen G (sk_Key senderKey) (deriveNonce (Counter msg)) (Ciphertext msg) (key_bytes (groupID skm)) of
           None \<Rightarrow> (Err MessageUndecryptable, skm)
         | Some plaintext \<Rightarrow>
           (Ok plaintext, skm\<lparr>peerSenderKeys := mput (m_SenderPublicKey msg)
              (senderKey\<lparr>MessageCounter := Counter msg, SeenFirstMessage := True\<rparr>) (peerSenderKeys skm)\<rparr>)))"

definition skm_RemovePeer :: "key32 \<Rightarrow> SenderKeyManager \<Rightarrow> SenderKeyManager" where
  "skm_RemovePeer peerPublicKey skm = skm\<lparr>peerSenderKeys := mdel peerPublicKey (peerSenderKeys skm)\<rparr>"

definition SetMaxMessageCounter :: "u64 \<Rightarrow> SenderKeyManager \<Rightarrow> SenderKeyManager" where
  "SetMaxMessageCounter m skm = skm\<lparr>maxMessageCounter := m\<rparr>"

definition NeedsKeyRotation :: "SenderKeyManager \<Rightarrow> bool" where
  "NeedsKeyRotation skm = (case mySenderKey skm of None \<Rightarrow> True | Some my \<Rightarrow> MessageCounter my \<ge> maxMessageCounter skm)"

section \<open>Wire formats\<close>

abbreviation (input) maxCiphertextLen :: nat where "maxCiphertextLen \<equiv> 16 * 1024 * 1024"

definition SerializeSenderKeyMessage :: "SenderKeyMessage \<Rightarrow> bytes" where
  "SerializeSenderKeyMessage msg =
     key_bytes (m_GroupID msg) @ key_bytes (m_SenderPublicKey msg) @ LePutUint32 (m_KeyID msg) @
     LePutUint64 (Counter msg) @ LePutUint32 (word_of_nat (length (Ciphertext msg))) @ Ciphertext msg"

definition DeserializeSenderKeyMessage :: "bytes \<Rightarrow> group_error + SenderKeyMessage" where
  "DeserializeSenderKeyMessage data =
     (if length data < 80 then Err DataTooShort
      else let ciphertextLen = unat (LeUint32 (slice 76 80 data))
       in if ciphertextLen > maxCiphertextLen then Err (LengthExceeds ciphertextLen)
          else if length data < 80 + ciphertextLen then Err DataTooShort
          else Ok \<lparr>m_GroupID = bytes_key (slice 0 32 data), m_SenderPublicKey = bytes_key (slice 32 64 data),
                   m_KeyID = LeUint32 (slice 64 68 data), Counter = LeUint64 (slice 68 76 data),
                   Ciphertext = slice 80 (80 + ciphertextLen) data\<rparr>)"

definition SerializeSenderKeyDistribution :: "SenderKeyDistribution \<Rightarrow> bytes" where
  "SerializeSenderKeyDistribution dist =
     key_bytes (d_GroupID dist) @ key_bytes (d_SenderPublicKey dist) @ LePutUint32 (d_KeyID dist) @
     key_bytes (EphemeralPublicKey dist) @ d_Nonce dist @
     LePutUint32 (word_of_nat (length (EncryptedKey dist))) @ EncryptedKey dist"

definition DeserializeSenderKeyDistribution :: "bytes \<Rightarrow> group_error + SenderKeyDistribution" where
  "DeserializeSenderKeyDistribution data =
     (if length data < 128 then Err DataTooShort
      else let encKeyLen = unat (LeUint32 (slice 124 128 data))
       in if encKeyLen > maxCiphertextLen then Err (LengthExceeds encKeyLen)
          else if length data < 128 + encKeyLen then Err DataTooShort
          else Ok \<lparr>d_GroupID = bytes_key (slice 0 32 data), d_SenderPublicKey = bytes_key (slice 32 64 data),
                   d_KeyID = LeUint32 (slice 64 68 data), EphemeralPublicKey = bytes_key (slice 68 100 data),
                   EncryptedKey = slice 128 (128 + encKeyLen) data, d_Nonce = slice 100 124 data\<rparr>)"

lemma length_word_u32: "n \<le> maxCiphertextLen \<Longrightarrow> unat (word_of_nat n :: u32) = n"
  by (rule unat_of_nat_u32) simp

interpretation sender_message: codec SerializeSenderKeyMessage DeserializeSenderKeyMessage
  "\<lambda>m. length (Ciphertext m) \<le> maxCiphertextLen"
  by unfold_locales
    (simp add: SerializeSenderKeyMessage_def DeserializeSenderKeyMessage_def Let_def wire_simps length_word_u32)

interpretation sender_distribution: codec SerializeSenderKeyDistribution DeserializeSenderKeyDistribution
  "\<lambda>d. length (EncryptedKey d) \<le> maxCiphertextLen \<and> length (d_Nonce d) = 24"
  by unfold_locales
    (simp add: SerializeSenderKeyDistribution_def DeserializeSenderKeyDistribution_def Let_def wire_simps length_word_u32)

end
