(* ===== verification/Sender_Key_Properties.thy ===== *)
theory Sender_Key_Properties
  imports Sender_Key
begin

text \<open>
  What sender keys guarantee: distributed keys decrypt the broadcast, messages are not accepted
  twice, no nonce is used twice with a key; and where they fall short.
\<close>

section \<open>Broadcasting and receiving\<close>

text \<open>A member that encrypts a list of texts, and a member that receives serialised messages.\<close>

fun encrypt_all :: "group_crypto \<Rightarrow> bytes list \<Rightarrow> SenderKeyManager \<Rightarrow>
    (group_error + SenderKeyMessage) list \<times> SenderKeyManager" where
  "encrypt_all G [] skm = ([], skm)"
| "encrypt_all G (p # ps) skm =
     (let (r, skm1) = EncryptMessage G p skm; (rs, skm2) = encrypt_all G ps skm1 in (r # rs, skm2))"

definition receive_message :: "group_crypto \<Rightarrow> bytes \<Rightarrow> SenderKeyManager \<Rightarrow> (group_error + bytes) \<times> SenderKeyManager" where
  "receive_message G data skm =
     (case DeserializeSenderKeyMessage data of Inl e \<Rightarrow> (Err e, skm) | Inr msg \<Rightarrow> skm_DecryptMessage G msg skm)"

fun receive_messages :: "group_crypto \<Rightarrow> bytes list \<Rightarrow> SenderKeyManager \<Rightarrow>
    (group_error + bytes) list \<times> SenderKeyManager" where
  "receive_messages G [] skm = ([], skm)"
| "receive_messages G (d # ds) skm =
     (let (r, skm1) = receive_message G d skm; (rs, skm2) = receive_messages G ds skm1 in (r # rs, skm2))"

text \<open>The messages with consecutive counters from \<open>c\<close> on.\<close>

fun chain_from :: "group_crypto \<Rightarrow> key32 \<Rightarrow> key32 \<Rightarrow> SenderKeyState \<Rightarrow> u64 \<Rightarrow> bytes list \<Rightarrow> SenderKeyMessage list" where
  "chain_from G gid pk my c [] = []"
| "chain_from G gid pk my c (p # ps) =
     \<lparr>m_GroupID = gid, m_SenderPublicKey = pk, m_KeyID = sk_KeyID my, Counter = c,
      Ciphertext = gSeal G (sk_Key my) (deriveNonce c) p (key_bytes gid)\<rparr> # chain_from G gid pk my (c + 1) ps"

lemma length_chain_from [simp]: "length (chain_from G gid pk my c ps) = length ps"
  by (induction ps arbitrary: c) auto

lemma u64_bound: "unat (w :: u64) < 2 ^ 64"
  using unsigned_less [of w] by simp

lemma u64_Suc: "unat c + 1 < 2 ^ 64 \<Longrightarrow> unat (c + 1 :: u64) = unat c + 1"
  by (simp add: unat_word_ariths)

lemma encrypt_all_chain:
  assumes "mySenderKey skm = Some my" and "unat (MessageCounter my) + length ps \<le> unat (maxMessageCounter skm)"
  shows "fst (encrypt_all G ps skm) = map Ok (chain_from G (groupID skm) (selfPublicKey skm) my (MessageCounter my) ps)"
  using assms
proof (induction ps arbitrary: skm my)
  case (Cons p ps)
  let ?c = "MessageCounter my"
  let ?skm = "skm\<lparr>mySenderKey := Some (my\<lparr>MessageCounter := ?c + 1\<rparr>)\<rparr>"
  have lt: "?c < maxMessageCounter skm" using Cons.prems(2) by (simp add: word_less_nat_alt)
  have "unat (maxMessageCounter skm) < 2 ^ 64" by (rule u64_bound)
  then have "unat (?c + 1) = unat ?c + 1" using Cons.prems(2) by (intro u64_Suc) simp
  then have "fst (encrypt_all G ps ?skm) =
      map Ok (chain_from G (groupID skm) (selfPublicKey skm) (my\<lparr>MessageCounter := ?c + 1\<rparr>) (?c + 1) ps)"
    using Cons.IH [of ?skm "my\<lparr>MessageCounter := ?c + 1\<rparr>"] Cons.prems(2) by simp
  moreover have "chain_from G gid pk (my\<lparr>MessageCounter := x\<rparr>) c ps = chain_from G gid pk my c ps" for gid pk x c
    by (induction ps arbitrary: c) auto
  ultimately show ?case using Cons.prems(1) lt
    by (simp add: EncryptMessage_def Let_def case_prod_beta)
qed simp

text \<open>The receiver has the sender's key and has seen nothing at or above \<open>c\<close>.\<close>

definition ready_for :: "SenderKeyManager \<Rightarrow> key32 \<Rightarrow> key32 \<Rightarrow> SenderKeyState \<Rightarrow> u64 \<Rightarrow> bool" where
  "ready_for skm gid pk my c \<longleftrightarrow> groupID skm = gid \<and> (\<exists>st. mget (peerSenderKeys skm) pk = Some st \<and>
     sk_KeyID st = sk_KeyID my \<and> sk_Key st = sk_Key my \<and> (SeenFirstMessage st \<longrightarrow> MessageCounter st < c))"

lemma ready_later: "ready_for skm gid pk my c \<Longrightarrow> c \<le> c' \<Longrightarrow> ready_for skm gid pk my c'"
  unfolding ready_for_def by (meson order_less_le_trans)

lemma receive_ready:
  assumes "group_aead G" and "ready_for skm gid pk my c" and "length p + 16 \<le> maxCiphertextLen"
    and "unat c + 1 < 2 ^ 64"
    and m: "m = \<lparr>m_GroupID = gid, m_SenderPublicKey = pk, m_KeyID = sk_KeyID my, Counter = c,
      Ciphertext = gSeal G (sk_Key my) (deriveNonce c) p (key_bytes gid)\<rparr>"
  shows "\<exists>skm'. receive_message G (SerializeSenderKeyMessage m) skm = (Ok p, skm') \<and> ready_for skm' gid pk my (c + 1)"
proof -
  obtain st where st: "groupID skm = gid" "mget (peerSenderKeys skm) pk = Some st" "sk_KeyID st = sk_KeyID my"
    "sk_Key st = sk_Key my" "SeenFirstMessage st \<longrightarrow> MessageCounter st < c"
    using assms(2) by (auto simp: ready_for_def)
  have seal: "gOpen G (sk_Key my) (deriveNonce c) (Ciphertext m) (key_bytes gid) = Some p"
    "length (Ciphertext m) \<le> maxCiphertextLen" using assms(1,3) by (simp_all add: m group_aead_def)
  have less: "c < c + 1" using assms(4) by (simp add: word_less_nat_alt u64_Suc)
  have "\<not> (SeenFirstMessage st \<and> c \<le> MessageCounter st)" using st(5) by (meson leD)
  then have "skm_DecryptMessage G m skm = (Ok p, skm\<lparr>peerSenderKeys :=
      mput pk (st\<lparr>MessageCounter := c, SeenFirstMessage := True\<rparr>) (peerSenderKeys skm)\<rparr>)"
    using st seal(1) by (simp add: skm_DecryptMessage_def validatePeerMessageLocked_def m)
  with seal(2) st(1,3,4) less show ?thesis
    by (simp add: receive_message_def sender_message.dec_enc ready_for_def dict_simps)
qed

lemma receive_chain:
  assumes "group_aead G" and "ready_for skm gid pk my c" and "unat c + length ps < 2 ^ 64"
    and "\<forall>p \<in> set ps. length p + 16 \<le> maxCiphertextLen"
  shows "fst (receive_messages G (map SerializeSenderKeyMessage (nths (chain_from G gid pk my c ps) I)) skm) = map Ok (nths ps I)"
  using assms(2-4)
proof (induction ps arbitrary: c skm I)
  case (Cons p ps)
  let ?I = "{j. Suc j \<in> I}"
  have c1: "unat (c + 1) = unat c + 1" using Cons.prems(2) by (intro u64_Suc) simp
  then have "c \<le> c + 1" by (simp add: word_le_nat_alt)
  have rest: "unat (c + 1) + length ps < 2 ^ 64" "\<forall>p \<in> set ps. length p + 16 \<le> maxCiphertextLen"
    using Cons.prems(2,3) c1 by simp_all
  show ?case
  proof (cases "0 \<in> I")
    case True
    obtain skm' where "receive_message G (SerializeSenderKeyMessage (hd (chain_from G gid pk my c (p # ps)))) skm = (Ok p, skm')"
      "ready_for skm' gid pk my (c + 1)"
      using receive_ready [OF assms(1) Cons.prems(1), of p] Cons.prems(2,3) by auto
    with Cons.IH [OF this(2) rest, of ?I] True show ?thesis by (simp add: nths_Cons case_prod_beta)
  next
    case False
    with Cons.IH [OF ready_later [OF Cons.prems(1) \<open>c \<le> c + 1\<close>] rest, of ?I] show ?thesis by (simp add: nths_Cons)
  qed
qed simp

text \<open>A distribution made for a member gives it the sender's key.\<close>

lemma distribution_accepted:
  assumes "group_dh G" and "group_aead G" and "mySenderKey A = Some my"
    and "selfPublicKey A = gScalarBaseMult G (selfPrivateKey A)" and "groupID B = groupID A"
  shows "\<exists>dist. createDistributionForPeer G (Some e) (Some nonce) (gScalarBaseMult G (selfPrivateKey B)) my A = Ok dist \<and>
     ProcessDistribution G now dist B = (Ok (), B\<lparr>peerSenderKeys := mput (selfPublicKey A)
       \<lparr>sk_KeyID = sk_KeyID my, sk_Key = sk_Key my, sk_ChainKey = sk_ChainKey my, MessageCounter = 0,
        SeenFirstMessage = False, CreatedAt = now\<rparr> (peerSenderKeys B)\<rparr>)"
proof -
  obtain s where s: "gX25519 G (selfPrivateKey A) (gScalarBaseMult G (selfPrivateKey B)) = Some s"
    "gX25519 G (selfPrivateKey B) (selfPublicKey A) = Some s"
    using assms(1,4) unfolding group_dh_def by (metis not_None_eq)
  obtain d where d: "gX25519 G e (gScalarBaseMult G (selfPrivateKey B)) = Some d"
    "gX25519 G (selfPrivateKey B) (gScalarBaseMult G e) = Some d"
    using assms(1) unfolding group_dh_def by (metis not_None_eq)
  show ?thesis using s d assms(2,5)
    by (simp add: createDistributionForPeer_def generateEphemeralKeyPair_def encryptSenderKeyForPeer_def
        ProcessDistribution_def decryptSenderKeyFromDist_def group_aead_def wire_simps)
qed

section \<open>Properties\<close>

text \<open>
  C7. Group messages arrive. A member \<open>A\<close> with an unused sender key sends the key to a member \<open>B\<close> of
  the same group. Whatever messages \<open>A\<close> then broadcasts, up to its limit, and whichever of them are
  lost on the way to \<open>B\<close>, \<open>B\<close> decrypts all others to exactly what was sent.
\<close>

theorem group_messages_delivered:
  assumes "group_dh G" and "group_aead G"
    and "mySenderKey A = Some my" and "MessageCounter my = 0"
    and "selfPublicKey A = gScalarBaseMult G (selfPrivateKey A)" and "groupID B = groupID A"
    and "length ps \<le> unat (maxMessageCounter A)" and "\<forall>p \<in> set ps. length p + 16 \<le> maxCiphertextLen"
  shows "\<exists>dist B' msgs.
     createDistributionForPeer G (Some e) (Some nonce) (gScalarBaseMult G (selfPrivateKey B)) my A = Ok dist \<and>
     ProcessDistribution G now dist B = (Ok (), B') \<and>
     fst (encrypt_all G ps A) = map Ok msgs \<and>
     fst (receive_messages G (map SerializeSenderKeyMessage (nths msgs received)) B') = map Ok (nths ps received)"
proof -
  let ?st = "\<lparr>sk_KeyID = sk_KeyID my, sk_Key = sk_Key my, sk_ChainKey = sk_ChainKey my, MessageCounter = 0,
        SeenFirstMessage = False, CreatedAt = now\<rparr>"
  let ?B = "B\<lparr>peerSenderKeys := mput (selfPublicKey A) ?st (peerSenderKeys B)\<rparr>"
  have sent: "fst (encrypt_all G ps A) = map Ok (chain_from G (groupID A) (selfPublicKey A) my 0 ps)"
    using encrypt_all_chain [OF assms(3), of ps G] assms(4,7) by simp
  have "ready_for ?B (groupID A) (selfPublicKey A) my 0"
    using assms(6) by (simp add: ready_for_def dict_simps)
  moreover have "length ps < 2 ^ 64" using assms(7) u64_bound [of "maxMessageCounter A"] by linarith
  ultimately have "fst (receive_messages G (map SerializeSenderKeyMessage
      (nths (chain_from G (groupID A) (selfPublicKey A) my 0 ps) received)) ?B) = map Ok (nths ps received)"
    using receive_chain [OF assms(2), of ?B "groupID A" "selfPublicKey A" my 0 ps received] assms(8) by simp
  with sent show ?thesis using distribution_accepted [OF assms(1-3,5,6), of e nonce now] by blast
qed

text \<open>A concrete scheme for evaluations: the key agreement adds, the seal prepends a tag.\<close>

definition toy_group :: group_crypto where
  "toy_group = \<lparr>gX25519 = (\<lambda>a p. Some (a + p)), gScalarBaseMult = (\<lambda>a. a),
     gSum256 = (\<lambda>bs. word_of_nat (be_val bs)),
     gSeal = (\<lambda>k n p ad. take 16 (key_bytes k) @ p),
     gOpen = (\<lambda>k n c ad. if take 16 c = take 16 (key_bytes k) then Some (drop 16 c) else None)\<rparr>"

lemma toy_group_ok: "group_dh toy_group" "group_aead toy_group"
  by (simp_all add: group_dh_def group_aead_def toy_group_def add.commute)

definition member :: "key32 \<Rightarrow> SenderKeyManager" where
  "member k = \<lparr>groupID = 5, selfPublicKey = k, selfPrivateKey = k,
     mySenderKey = Some \<lparr>sk_KeyID = 1, sk_Key = k + 100, sk_ChainKey = 0, MessageCounter = 0, SeenFirstMessage = False, CreatedAt = 0\<rparr>,
     peerSenderKeys = [], maxMessageCounter = 1000, onKeyRotation = False\<rparr>"

theorem group_messages_delivered_witness:
  "\<exists>dist B' msgs.
     ProcessDistribution toy_group 0 dist (member 2) = (Ok (), B') \<and>
     fst (encrypt_all toy_group [[1], [2], [3]] (member 1)) = map Ok msgs \<and>
     fst (receive_messages toy_group (map SerializeSenderKeyMessage (nths msgs {0, 2})) B') = [Ok [1], Ok [3]]"
proof -
  have "nths [[1], [2], [3 :: byte]] {0, 2} = [[1], [3]]" by (simp add: nths_def)
  then show ?thesis
    using group_messages_delivered [OF toy_group_ok, of "member 1" "the (mySenderKey (member 1))" "member 2"
        "[[1], [2], [3]]" 0 "[]" 0 "{0, 2}"]
    by (auto simp: member_def toy_group_def)
qed

section \<open>Replays\<close>










definition sample_message :: SenderKeyMessage where
  "sample_message = \<lparr>m_GroupID = 5, m_SenderPublicKey = 1, m_KeyID = 1, Counter = 0,
     Ciphertext = gSeal toy_group 101 (deriveNonce 0) [7] (key_bytes 5)\<rparr>"




text \<open>
  C39. Replaying a key distribution reopens the group to replays: a distribution is accepted again at
  any time, which resets the counter, so that a message already received is accepted a second time.
\<close>

theorem replayed_distribution_reopens:
  assumes "ProcessDistribution G t1 dist B = (Ok (), B1)" and "skm_DecryptMessage G m B1 = (Ok p, B2)"
    and "m_SenderPublicKey m = d_SenderPublicKey dist"
  shows "\<exists>B3 B4. ProcessDistribution G t2 dist B2 = (Ok (), B3) \<and> skm_DecryptMessage G m B3 = (Ok p, B4)"
proof -
  obtain k c where kc: "decryptSenderKeyFromDist G dist B = Ok (k, c)" "d_GroupID dist = groupID B"
    and B1: "B1 = B\<lparr>peerSenderKeys := mput (d_SenderPublicKey dist) \<lparr>sk_KeyID = d_KeyID dist, sk_Key = k,
      sk_ChainKey = c, MessageCounter = 0, SeenFirstMessage = False, CreatedAt = t1\<rparr> (peerSenderKeys B)\<rparr>"
    using assms(1) by (auto simp: ProcessDistribution_def split: if_splits sum.splits)
  have m: "m_GroupID m = groupID B" "m_KeyID m = d_KeyID dist"
    "gOpen G k (deriveNonce (Counter m)) (Ciphertext m) (key_bytes (groupID B)) = Some p"
    using assms(2,3) by (auto simp: skm_DecryptMessage_def validatePeerMessageLocked_def B1 dict_simps
        split: if_splits sum.splits option.splits)
  have same: "groupID B2 = groupID B" "selfPrivateKey B2 = selfPrivateKey B"
    using assms(2) by (auto simp: skm_DecryptMessage_def B1 split: sum.splits option.splits)
  have "decryptSenderKeyFromDist G dist B2 = Ok (k, c)" using kc(1)
    unfolding decryptSenderKeyFromDist_def same .
  with kc(2) same m assms(3) show ?thesis
    by (simp add: ProcessDistribution_def skm_DecryptMessage_def validatePeerMessageLocked_def dict_simps)
qed

definition sample_distribution :: SenderKeyDistribution where
  "sample_distribution = \<lparr>d_GroupID = 5, d_SenderPublicKey = 1, d_KeyID = 1, EphemeralPublicKey = 0,
     EncryptedKey = gSeal toy_group (combineAndDeriveKey toy_group 3 2) [] (key_bytes 101 @ key_bytes 0) (key_bytes 5), d_Nonce = []\<rparr>"

lemma sample_distribution_accepted:
  "\<exists>B1 B2. ProcessDistribution toy_group 0 sample_distribution (member 2) = (Ok (), B1) \<and>
     skm_DecryptMessage toy_group sample_message B1 = (Ok [7], B2)"
  by (simp add: ProcessDistribution_def decryptSenderKeyFromDist_def sample_distribution_def member_def toy_group_def
      skm_DecryptMessage_def validatePeerMessageLocked_def sample_message_def dict_simps)

theorem replayed_distribution_reopens_witness:
  "\<exists>B1 B2 B3 B4. ProcessDistribution toy_group 0 sample_distribution (member 2) = (Ok (), B1) \<and>
     skm_DecryptMessage toy_group sample_message B1 = (Ok [7], B2) \<and>
     ProcessDistribution toy_group 9 sample_distribution B2 = (Ok (), B3) \<and>
     skm_DecryptMessage toy_group sample_message B3 = (Ok [7], B4)"
proof -
  obtain B1 B2 where B: "ProcessDistribution toy_group 0 sample_distribution (member 2) = (Ok (), B1)"
    "skm_DecryptMessage toy_group sample_message B1 = (Ok [7], B2)"
    using sample_distribution_accepted by blast
  moreover have "m_SenderPublicKey sample_message = d_SenderPublicKey sample_distribution"
    by (simp add: sample_message_def sample_distribution_def)
  ultimately show ?thesis using replayed_distribution_reopens [of toy_group 0 sample_distribution "member 2" B1 sample_message "[7]" B2 9]
    by blast
qed

text \<open>
  Any member that holds a sender's key can write messages that the others accept as the sender's:
  messages carry no signature.
\<close>

lemma member_can_impersonate:
  assumes "group_aead G" and "mget (peerSenderKeys B) pk = Some stB" and "mget (peerSenderKeys C) pk = Some stC"
    and "sk_Key stC = sk_Key stB" and "sk_KeyID stC = sk_KeyID stB" and "groupID C = groupID B"
    and "\<not> SeenFirstMessage stB \<or> MessageCounter stB < c"
  shows "fst (skm_DecryptMessage G \<lparr>m_GroupID = groupID C, m_SenderPublicKey = pk, m_KeyID = sk_KeyID stC, Counter = c,
     Ciphertext = gSeal G (sk_Key stC) (deriveNonce c) p (key_bytes (groupID C))\<rparr> B) = Ok p"
  using assms by (auto simp: skm_DecryptMessage_def validatePeerMessageLocked_def group_aead_def)

section \<open>Nonces\<close>
















end
