(* ===== verification/Group_Chat.thy ===== *)
theory Group_Chat
  imports Sender_Key_Properties
begin

text \<open>
  Group chats (\<^verbatim>\<open>group/chat.go\<close>): members and their roles, invitations, broadcasts to the members and
  the discovery of members from their announcements. The transport is seen through what it is handed
  and whether a send succeeds; the nodes the DHT finds near a key, the answer of the DHT to a query for
  a group (announcing a new group to the DHT has no effect on the chat and is left out), random identifiers and the clock are arguments. A broadcast releases the chat's lock and
  sends from several workers; only the set of sends and the number of failures matter for its result,
  so it is one step here. The JSON form of a broadcast is not modelled: a broadcast message is a record.
\<close>

section \<open>Data\<close>

type_synonym Role = u8

abbreviation (input) RoleUser :: Role where "RoleUser \<equiv> 0"
abbreviation (input) RoleModerator :: Role where "RoleModerator \<equiv> 1"
abbreviation (input) RoleAdmin :: Role where "RoleAdmin \<equiv> 2"
abbreviation (input) RoleFounder :: Role where "RoleFounder \<equiv> 3"

abbreviation (input) PrivacyPublic :: u8 where "PrivacyPublic \<equiv> 0"
abbreviation (input) PrivacyPrivate :: u8 where "PrivacyPrivate \<equiv> 1"

type_synonym addr = string

record Peer =
  p_ID :: u32
  p_Name :: string
  p_Role :: Role
  Connection :: u8
  p_PublicKey :: key32
  Address :: "addr option"
  LastActive :: time

record Invitation =
  FriendID :: u32
  i_GroupID :: u32
  i_Timestamp :: time
  Expires :: time

record GroupInfo =
  g_Name :: string
  g_Type :: u8
  g_Privacy :: u8

type_synonym registry = "(u32, GroupInfo) gomap"

record PeerAnnounceData =
  a_PeerID :: u32
  a_Name :: string
  a_PublicKey :: key32
  a_Connection :: u8
  a_Role :: Role

datatype group_update =
    GroupMessageData u32 string int
  | EncryptedGroupMessageData u32 bytes int
  | PeerLeaveData u32 string
  | PeerKickData u32 u32 string
  | PeerRoleChangeData u32 Role Role
  | GroupNameChangeData string string
  | GroupPrivacyChangeData u8 u8
  | PeerNameChangeData u32 string
  | PeerAnnounce PeerAnnounceData
  | PeerListRequestData u32
  | PeerListResponseData u32 "PeerAnnounceData list"

record BroadcastMessage =
  b_ChatID :: u32
  b_SenderID :: u32
  b_Timestamp :: time
  b_Data :: group_update

record Chat =
  ch_ID :: u32
  ch_Name :: string
  ch_Type :: u8
  ch_Privacy :: u8
  PeerCount :: u32
  SelfPeerID :: u32
  Peers :: "(u32, Peer) gomap"
  Created :: time
  PendingInvitations :: "(u32, Invitation) gomap"
  hasTransport :: bool
  hasDht :: bool
  friendResolver :: "(u32 \<Rightarrow> addr option) option"
  senderKeyManager :: "SenderKeyManager option"
  ch_keyPair :: "(key32 \<times> key32) option"
  messageCallback :: bool
  peerCallback :: bool
  peerDiscoveredCallback :: bool

datatype chat_error =
    GroupNameEmpty
  | RandomIDFailed
  | InvalidGroupID
  | DhtUnavailable
  | DhtQueryTimeout
  | GroupNotFound
  | PasswordRequired
  | InvalidFriendID
  | AlreadyInvited
  | AlreadyInGroup
  | GroupNameTooLong
  | TransportUnavailable
  | ResolverMissing
  | FriendUnresolved
  | InvitationSendFailed
  | MessageEmpty
  | MessageTooLong
  | NotInGroup
  | SelfPeerMissing
  | EncryptFailed group_error
  | PeerNotFound
  | ErrNotMember
  | InsufficientPrivileges
  | EqualOrHigherRole
  | RoleTooHigh
  | FounderRole
  | NameEmpty
  | AllBroadcastsFailed
  | PeerOffline
  | SendViaDhtFailed
  | PeerUnreachable
  | BroadcastCancelled

datatype chat_event =
    SentTo addr BroadcastMessage
  | SentInvitation addr bytes
  | MessageCalled u32 u32 string
  | DiscoveredCalled u32 u32 Peer

section \<open>Broadcasting\<close>

record broadcast_env =
  sendOk :: "addr \<Rightarrow> bool"
  dhtNodes :: "key32 \<Rightarrow> addr option list"
  cancelled :: "u32 \<Rightarrow> bool"

text \<open>The events are the successful sends.\<close>

fun attemptPacketTransmission :: "broadcast_env \<Rightarrow> BroadcastMessage \<Rightarrow> bool \<Rightarrow> addr option list \<Rightarrow>
    (chat_error + unit) \<times> chat_event list" where
  "attemptPacketTransmission env msg lastErr [] = (Err (if lastErr then SendViaDhtFailed else PeerUnreachable), [])"
| "attemptPacketTransmission env msg lastErr (None # nodes) = attemptPacketTransmission env msg lastErr nodes"
| "attemptPacketTransmission env msg lastErr (Some a # nodes) =
     (if sendOk env a then (Ok (), [SentTo a msg]) else attemptPacketTransmission env msg True nodes)"

definition discoverPeerViaDHT :: "broadcast_env \<Rightarrow> Peer \<Rightarrow> Chat \<Rightarrow> addr option list" where
  "discoverPeerViaDHT env peer g = (if hasDht g then dhtNodes env (p_PublicKey peer) else [])"

definition validatePeerForBroadcast :: "u32 \<Rightarrow> Chat \<Rightarrow> chat_error + Peer" where
  "validatePeerForBroadcast peerID g =
     (case mget (Peers g) peerID of None \<Rightarrow> Err PeerNotFound
      | Some peer \<Rightarrow> if Connection peer = 0 then Err PeerOffline else Ok peer)"

definition broadcastPeerUpdate :: "broadcast_env \<Rightarrow> u32 \<Rightarrow> BroadcastMessage \<Rightarrow> Chat \<Rightarrow>
    (chat_error + unit) \<times> chat_event list" where
  "broadcastPeerUpdate env peerID msg g =
     (if \<not> hasTransport g then (Err TransportUnavailable, [])
      else (case validatePeerForBroadcast peerID g of Inl e \<Rightarrow> (Err e, [])
        | Inr peer \<Rightarrow>
          (case Address peer of
             Some a \<Rightarrow> if sendOk env a then (Ok (), [SentTo a msg])
                        else attemptPacketTransmission env msg False (discoverPeerViaDHT env peer g)
           | None \<Rightarrow> attemptPacketTransmission env msg False (discoverPeerViaDHT env peer g))))"

definition processBroadcastJob :: "broadcast_env \<Rightarrow> u32 \<Rightarrow> BroadcastMessage \<Rightarrow> Chat \<Rightarrow>
    (chat_error + unit) \<times> chat_event list" where
  "processBroadcastJob env peerID msg g =
     (if cancelled env peerID then (Err BroadcastCancelled, []) else broadcastPeerUpdate env peerID msg g)"

definition collectOnlinePeerJobs :: "Chat \<Rightarrow> u32 list" where
  "collectOnlinePeerJobs g =
     map fst (filter (\<lambda>(peerID, peer). peerID \<noteq> SelfPeerID g \<and> Connection peer \<noteq> 0) (Peers g))"

definition sendToConnectedPeers :: "broadcast_env \<Rightarrow> BroadcastMessage \<Rightarrow> Chat \<Rightarrow> nat \<times> nat \<times> chat_event list" where
  "sendToConnectedPeers env msg g =
     (let results = map (\<lambda>peerID. processBroadcastJob env peerID msg g) (collectOnlinePeerJobs g)
      in (length (filter (\<lambda>r. \<not> isl (fst r)) results), length (filter (\<lambda>r. isl (fst r)) results), concat (map snd results)))"

definition createBroadcastMessage :: "time \<Rightarrow> group_update \<Rightarrow> Chat \<Rightarrow> BroadcastMessage" where
  "createBroadcastMessage now upd g =
     \<lparr>b_ChatID = ch_ID g, b_SenderID = SelfPeerID g, b_Timestamp = now, b_Data = upd\<rparr>"

definition validateBroadcastResults :: "nat \<Rightarrow> nat \<Rightarrow> chat_error + unit" where
  "validateBroadcastResults successfulBroadcasts broadcastErrors =
     (if successfulBroadcasts = 0 \<and> broadcastErrors > 0 then Err AllBroadcastsFailed else Ok ())"

definition broadcastGroupUpdate :: "broadcast_env \<Rightarrow> time \<Rightarrow> group_update \<Rightarrow> Chat \<Rightarrow>
    (chat_error + unit) \<times> chat_event list" where
  "broadcastGroupUpdate env now upd g =
     (let (ok, failed, evs) = sendToConnectedPeers env (createBroadcastMessage now upd g) g
      in (validateBroadcastResults ok failed, evs))"

section \<open>Creating, joining and leaving\<close>

text \<open>The four bytes read from the random source, \<open>None\<close> when reading fails.\<close>

definition generateRandomID :: "bytes option \<Rightarrow> chat_error + u32" where
  "generateRandomID rnd = (case rnd of None \<Rightarrow> Err RandomIDFailed | Some buf \<Rightarrow> Ok (Uint32 buf))"

definition initChatIDs :: "bytes option \<Rightarrow> bytes option \<Rightarrow> chat_error + (u32 \<times> u32)" where
  "initChatIDs rndGroup rndSelf =
     (case generateRandomID rndGroup of Inl e \<Rightarrow> Err e
      | Inr gid \<Rightarrow> (case generateRandomID rndSelf of Inl e \<Rightarrow> Err e | Inr selfPeerID \<Rightarrow> Ok (gid, selfPeerID)))"

definition initSenderKeyManager :: "time \<Rightarrow> key32 option \<Rightarrow> key32 option \<Rightarrow> u32 \<Rightarrow> (key32 \<times> key32) option \<Rightarrow> SenderKeyManager option" where
  "initSenderKeyManager now rndKey rndChain gid keyPair =
     (case keyPair of None \<Rightarrow> None
      | Some (public, private) \<Rightarrow>
        (case NewSenderKeyManager now rndKey rndChain (bytes_key (PutUint32 gid @ replicate 28 0)) public private of
           Inl _ \<Rightarrow> None | Inr skm \<Rightarrow> Some skm))"

definition createFounderPeer :: "time \<Rightarrow> u32 \<Rightarrow> (key32 \<times> key32) option \<Rightarrow> Peer" where
  "createFounderPeer now peerID keyPair =
     \<lparr>p_ID = peerID, p_Name = ''Self'', p_Role = RoleFounder, Connection = 2,
      p_PublicKey = (case keyPair of None \<Rightarrow> 0 | Some (public, _) \<Rightarrow> public), Address = None, LastActive = now\<rparr>"

definition registerGroup :: "u32 \<Rightarrow> GroupInfo \<Rightarrow> registry \<Rightarrow> registry" where
  "registerGroup chatID info reg = mput chatID info reg"

definition unregisterGroup :: "u32 \<Rightarrow> registry \<Rightarrow> registry" where
  "unregisterGroup chatID reg = mdel chatID reg"

definition CreateWithKeyPair :: "time \<Rightarrow> bytes option \<Rightarrow> bytes option \<Rightarrow> key32 option \<Rightarrow> key32 option \<Rightarrow>
    string \<Rightarrow> u8 \<Rightarrow> u8 \<Rightarrow> bool \<Rightarrow> bool \<Rightarrow> (key32 \<times> key32) option \<Rightarrow> registry \<Rightarrow> (chat_error + Chat) \<times> registry" where
  "CreateWithKeyPair now rndGroup rndSelf rndKey rndChain name chatType privacy transport dhtRouting kp reg =
     (if length name = 0 then (Err GroupNameEmpty, reg)
      else (case initChatIDs rndGroup rndSelf of Inl e \<Rightarrow> (Err e, reg)
        | Inr (gid, selfPeerID) \<Rightarrow>
          (Ok \<lparr>ch_ID = gid, ch_Name = name, ch_Type = chatType, ch_Privacy = privacy, PeerCount = 1, SelfPeerID = selfPeerID,
               Peers = mput selfPeerID (createFounderPeer now selfPeerID kp) [], Created = now,
               PendingInvitations = [], hasTransport = transport, hasDht = dhtRouting, friendResolver = None,
               senderKeyManager = initSenderKeyManager now rndKey rndChain gid kp, ch_keyPair = kp,
               messageCallback = False, peerCallback = False, peerDiscoveredCallback = False\<rparr>,
           registerGroup gid \<lparr>g_Name = name, g_Type = chatType, g_Privacy = privacy\<rparr> reg)))"

text \<open>\<open>Create\<close> does the same steps without a key pair (\<open>buildCreatedChat\<close>, \<open>finalizeCreatedChat\<close>).\<close>

definition Create :: "time \<Rightarrow> bytes option \<Rightarrow> bytes option \<Rightarrow> string \<Rightarrow> u8 \<Rightarrow> u8 \<Rightarrow> bool \<Rightarrow> bool \<Rightarrow> registry \<Rightarrow>
    (chat_error + Chat) \<times> registry" where
  "Create now rndGroup rndSelf name chatType privacy transport dhtRouting reg =
     CreateWithKeyPair now rndGroup rndSelf None None name chatType privacy transport dhtRouting None reg"

text \<open>\<open>dhtAnswer\<close> is the outcome of the routing table's query for the group: an error, or the announcement if any.\<close>

definition queryDHTNetwork :: "unit + GroupInfo option \<Rightarrow> chat_error + GroupInfo" where
  "queryDHTNetwork dhtAnswer =
     (case dhtAnswer of Inl _ \<Rightarrow> Err DhtQueryTimeout | Inr (Some info) \<Rightarrow> Ok info | Inr None \<Rightarrow> Err GroupNotFound)"

definition queryDHTForGroup :: "u32 \<Rightarrow> bool \<Rightarrow> bool \<Rightarrow> unit + GroupInfo option \<Rightarrow> registry \<Rightarrow> chat_error + GroupInfo" where
  "queryDHTForGroup chatID dhtRouting transport dhtAnswer reg =
     (case mget reg chatID of Some info \<Rightarrow> Ok info
      | None \<Rightarrow> if \<not> dhtRouting \<or> \<not> transport then Err DhtUnavailable else queryDHTNetwork dhtAnswer)"

definition createJoinedChat :: "time \<Rightarrow> bytes option \<Rightarrow> u32 \<Rightarrow> GroupInfo \<Rightarrow> bool \<Rightarrow> bool \<Rightarrow> chat_error + Chat" where
  "createJoinedChat now rndSelf chatID info transport dhtRouting =
     (case generateRandomID rndSelf of Inl e \<Rightarrow> Err e
      | Inr selfPeerID \<Rightarrow>
        Ok \<lparr>ch_ID = chatID, ch_Name = g_Name info, ch_Type = g_Type info, ch_Privacy = g_Privacy info,
            PeerCount = 1, SelfPeerID = selfPeerID,
            Peers = mput selfPeerID \<lparr>p_ID = selfPeerID, p_Name = ''Self'', p_Role = RoleUser, Connection = 1,
              p_PublicKey = 0, Address = None, LastActive = now\<rparr> [],
            Created = now, PendingInvitations = [], hasTransport = transport, hasDht = dhtRouting, friendResolver = None,
            senderKeyManager = None, ch_keyPair = None,
            messageCallback = False, peerCallback = False, peerDiscoveredCallback = False\<rparr>)"

definition validatePrivateGroupPassword :: "u8 \<Rightarrow> string \<Rightarrow> chat_error + unit" where
  "validatePrivateGroupPassword privacy password =
     (if privacy = PrivacyPrivate \<and> length password = 0 then Err PasswordRequired else Ok ())"

definition AnnounceSelf :: "broadcast_env \<Rightarrow> time \<Rightarrow> Chat \<Rightarrow> (chat_error + unit) \<times> chat_event list" where
  "AnnounceSelf env now g =
     (case mget (Peers g) (SelfPeerID g) of None \<Rightarrow> (Err SelfPeerMissing, [])
      | Some self \<Rightarrow> broadcastGroupUpdate env now (PeerAnnounce \<lparr>a_PeerID = p_ID self, a_Name = p_Name self,
          a_PublicKey = p_PublicKey self, a_Connection = Connection self, a_Role = p_Role self\<rparr>) g)"

definition RequestPeerList :: "broadcast_env \<Rightarrow> time \<Rightarrow> Chat \<Rightarrow> (chat_error + unit) \<times> chat_event list" where
  "RequestPeerList env now g = broadcastGroupUpdate env now (PeerListRequestData (SelfPeerID g)) g"

definition performPostJoinDiscovery :: "broadcast_env \<Rightarrow> time \<Rightarrow> bool \<Rightarrow> Chat \<Rightarrow> chat_event list" where
  "performPostJoinDiscovery env now transport chat =
     (if \<not> transport then [] else snd (AnnounceSelf env now chat) @ snd (RequestPeerList env now chat))"

definition group_Join :: "broadcast_env \<Rightarrow> time \<Rightarrow> bytes option \<Rightarrow> u32 \<Rightarrow> string \<Rightarrow> bool \<Rightarrow> bool \<Rightarrow> unit + GroupInfo option \<Rightarrow>
    registry \<Rightarrow> (chat_error + Chat) \<times> chat_event list" where
  "group_Join env now rndSelf chatID password transport dhtRouting dhtAnswer reg =
     (if chatID = 0 then (Err InvalidGroupID, [])
      else (case queryDHTForGroup chatID dhtRouting transport dhtAnswer reg of Inl e \<Rightarrow> (Err e, [])
        | Inr info \<Rightarrow> (case createJoinedChat now rndSelf chatID info transport dhtRouting of Inl e \<Rightarrow> (Err e, [])
          | Inr chat \<Rightarrow> (case validatePrivateGroupPassword (ch_Privacy chat) password of Inl e \<Rightarrow> (Err e, [])
            | Inr _ \<Rightarrow> (Ok chat, performPostJoinDiscovery env now transport chat)))))"

definition Leave :: "broadcast_env \<Rightarrow> time \<Rightarrow> string \<Rightarrow> Chat \<Rightarrow> registry \<Rightarrow> Chat \<times> registry \<times> chat_event list" where
  "Leave env now message g reg =
     (let isFounder = (case mget (Peers g) (SelfPeerID g) of Some peer \<Rightarrow> p_Role peer = RoleFounder | None \<Rightarrow> False);
          evs = snd (broadcastGroupUpdate env now (PeerLeaveData (SelfPeerID g) message) g);
          reg = (if isFounder then unregisterGroup (ch_ID g) reg else reg)
      in (g\<lparr>Peers := mdel (SelfPeerID g) (Peers g), SelfPeerID := 0, messageCallback := False\<rparr>, reg, evs))"

section \<open>Invitations\<close>

definition validateInvitationEligibility :: "u32 \<Rightarrow> Chat \<Rightarrow> chat_error + unit" where
  "validateInvitationEligibility friendID g =
     (if mget (PendingInvitations g) friendID \<noteq> None then Err AlreadyInvited
      else if (\<exists>peer \<in> snd ` set (Peers g). p_ID peer = friendID) then Err AlreadyInGroup
      else Ok ())"

definition createPendingInvitation :: "time \<Rightarrow> u32 \<Rightarrow> Chat \<Rightarrow> Invitation \<times> Chat" where
  "createPendingInvitation now friendID g =
     (let invitation = \<lparr>FriendID = friendID, i_GroupID = ch_ID g, i_Timestamp = now,
            Expires = now + 24 * 3600 * 10 ^ 9\<rparr>
      in (invitation, g\<lparr>PendingInvitations := mput friendID invitation (PendingInvitations g)\<rparr>))"

definition createInvitationPacket :: "Invitation \<Rightarrow> Chat \<Rightarrow> chat_error + bytes" where
  "createInvitationPacket invitation g =
     (let nameBytes = map (\<lambda>c. word_of_nat (of_char c)) (ch_Name g) :: bytes
      in if length nameBytes > 255 then Err GroupNameTooLong
         else Ok (PutUint32 (ch_ID g) @ [word_of_nat (length nameBytes)] @ nameBytes @
                PutUint64 (word_of_int (Expires invitation div 10 ^ 9)) @ [ch_Privacy g]))"

definition processInvitationPacket :: "(addr \<Rightarrow> bool) \<Rightarrow> Invitation \<Rightarrow> Chat \<Rightarrow> (chat_error + unit) \<times> chat_event list" where
  "processInvitationPacket send invitation g =
     (case createInvitationPacket invitation g of Inl e \<Rightarrow> (Err e, [])
      | Inr packet \<Rightarrow>
        if \<not> hasTransport g then (Err TransportUnavailable, [])
        else (case friendResolver g of None \<Rightarrow> (Err ResolverMissing, [])
          | Some resolve \<Rightarrow>
            (case resolve (FriendID invitation) of None \<Rightarrow> (Err FriendUnresolved, [])
             | Some a \<Rightarrow> if send a then (Ok (), [SentInvitation a packet]) else (Err InvitationSendFailed, []))))"

definition InviteFriend :: "(addr \<Rightarrow> bool) \<Rightarrow> time \<Rightarrow> u32 \<Rightarrow> Chat \<Rightarrow> (chat_error + unit) \<times> Chat \<times> chat_event list" where
  "InviteFriend send now friendID g =
     (if friendID = 0 then (Err InvalidFriendID, g, [])
      else (case validateInvitationEligibility friendID g of Inl e \<Rightarrow> (Err e, g, [])
        | Inr _ \<Rightarrow>
          let (invitation, g1) = createPendingInvitation now friendID g
          in (case processInvitationPacket send invitation g1 of
                (Inl e, evs) \<Rightarrow> (Err e, g1\<lparr>PendingInvitations := mdel friendID (PendingInvitations g1)\<rparr>, evs)
              | (Inr _, evs) \<Rightarrow> (Ok (), g1, evs))))"

definition CleanupExpiredInvitations :: "time \<Rightarrow> Chat \<Rightarrow> Chat" where
  "CleanupExpiredInvitations now g =
     g\<lparr>PendingInvitations := filter (\<lambda>(_, invitation). \<not> now > Expires invitation) (PendingInvitations g)\<rparr>"

section \<open>Messages\<close>

definition validateSendMessage :: "string \<Rightarrow> Chat \<Rightarrow> chat_error + unit" where
  "validateSendMessage message g =
     (if length message = 0 then Err MessageEmpty
      else if length message > 1372 then Err MessageTooLong
      else if SelfPeerID g = 0 then Err NotInGroup
      else if mget (Peers g) (SelfPeerID g) = None then Err SelfPeerMissing
      else Ok ())"

definition sendEncryptedGroupMessage :: "group_crypto \<Rightarrow> broadcast_env \<Rightarrow> time \<Rightarrow> string \<Rightarrow> SenderKeyManager \<Rightarrow> Chat \<Rightarrow>
    (chat_error + unit) \<times> Chat \<times> chat_event list" where
  "sendEncryptedGroupMessage G env now message skm g =
     (case EncryptMessage G (map (\<lambda>c. word_of_nat (of_char c)) message) skm of
        (Inl e, skm1) \<Rightarrow> (Err (EncryptFailed e), g\<lparr>senderKeyManager := Some skm1\<rparr>, [])
      | (Inr encryptedMsg, skm1) \<Rightarrow>
          let (r, evs) = broadcastGroupUpdate env now
                (EncryptedGroupMessageData (SelfPeerID g) (SerializeSenderKeyMessage encryptedMsg) (now div 10 ^ 9)) g
          in (r, g\<lparr>senderKeyManager := Some skm1\<rparr>, evs))"

definition sendPlaintextGroupMessage :: "broadcast_env \<Rightarrow> time \<Rightarrow> string \<Rightarrow> Chat \<Rightarrow> (chat_error + unit) \<times> chat_event list" where
  "sendPlaintextGroupMessage env now message g =
     broadcastGroupUpdate env now (GroupMessageData (SelfPeerID g) message (now div 10 ^ 9)) g"

definition group_SendMessage :: "group_crypto \<Rightarrow> broadcast_env \<Rightarrow> time \<Rightarrow> string \<Rightarrow> Chat \<Rightarrow>
    (chat_error + unit) \<times> Chat \<times> chat_event list" where
  "group_SendMessage G env now message g =
     (case validateSendMessage message g of Inl e \<Rightarrow> (Err e, g, [])
      | Inr _ \<Rightarrow>
        let (r, g1, evs) = (case senderKeyManager g of
               Some skm \<Rightarrow> sendEncryptedGroupMessage G env now message skm g
             | None \<Rightarrow> (let (r, evs) = sendPlaintextGroupMessage env now message g in (r, g, evs)))
        in (case r of Inl e \<Rightarrow> (Err e, g1, evs)
            | Inr _ \<Rightarrow> (Ok (), g1, evs @ (if messageCallback g then [MessageCalled (ch_ID g) (SelfPeerID g) message] else []))))"

section \<open>Roles\<close>

definition requireSelfRoleLocked :: "Role \<Rightarrow> Chat \<Rightarrow> chat_error + Peer" where
  "requireSelfRoleLocked requiredRole g =
     (case mget (Peers g) (SelfPeerID g) of None \<Rightarrow> Err ErrNotMember
      | Some selfPeer \<Rightarrow> if p_Role selfPeer < requiredRole then Err InsufficientPrivileges else Ok selfPeer)"

definition validatePeerPermission :: "u32 \<Rightarrow> Role \<Rightarrow> Chat \<Rightarrow> chat_error + (Peer \<times> Peer)" where
  "validatePeerPermission targetPeerID requiredRole g =
     (case mget (Peers g) targetPeerID of None \<Rightarrow> Err PeerNotFound
      | Some targetPeer \<Rightarrow>
        (case requireSelfRoleLocked requiredRole g of Inl e \<Rightarrow> Err e
         | Inr selfPeer \<Rightarrow> if p_Role selfPeer \<le> p_Role targetPeer then Err EqualOrHigherRole
                            else Ok (targetPeer, selfPeer)))"

definition KickPeer :: "broadcast_env \<Rightarrow> time \<Rightarrow> u32 \<Rightarrow> Chat \<Rightarrow> (chat_error + unit) \<times> Chat \<times> chat_event list" where
  "KickPeer env now peerID g =
     (case validatePeerPermission peerID RoleModerator g of Inl e \<Rightarrow> (Err e, g, [])
      | Inr (peerToKick, _) \<Rightarrow>
        (case broadcastGroupUpdate env now (PeerKickData peerID (SelfPeerID g) (p_Name peerToKick)) g of
           (Inl e, evs) \<Rightarrow> (Err e, g, evs)
         | (Inr _, evs) \<Rightarrow> (Ok (), g\<lparr>Peers := mdel peerID (Peers g)\<rparr>, evs)))"

definition SetPeerRole :: "broadcast_env \<Rightarrow> time \<Rightarrow> u32 \<Rightarrow> Role \<Rightarrow> Chat \<Rightarrow> (chat_error + unit) \<times> Chat \<times> chat_event list" where
  "SetPeerRole env now peerID role g =
     (case validatePeerPermission peerID RoleAdmin g of Inl e \<Rightarrow> (Err e, g, [])
      | Inr (targetPeer, selfPeer) \<Rightarrow>
        if role \<ge> p_Role selfPeer then (Err RoleTooHigh, g, [])
        else if p_Role targetPeer = RoleFounder then (Err FounderRole, g, [])
        else
          let oldRole = p_Role targetPeer;
              g1 = g\<lparr>Peers := mput peerID (targetPeer\<lparr>p_Role := role\<rparr>) (Peers g)\<rparr>;
              (r, evs) = broadcastGroupUpdate env now (PeerRoleChangeData peerID role oldRole) g1
          in (r, g1, evs))"

definition SetName :: "broadcast_env \<Rightarrow> time \<Rightarrow> string \<Rightarrow> Chat \<Rightarrow> (chat_error + unit) \<times> Chat \<times> chat_event list" where
  "SetName env now name g =
     (if length name = 0 then (Err GroupNameEmpty, g, [])
      else (case requireSelfRoleLocked RoleAdmin g of Inl e \<Rightarrow> (Err e, g, [])
        | Inr _ \<Rightarrow>
          let oldName = ch_Name g; g1 = g\<lparr>ch_Name := name\<rparr>;
              (r, evs) = broadcastGroupUpdate env now (GroupNameChangeData oldName name) g1
          in (r, g1, evs)))"

definition SetPrivacy :: "broadcast_env \<Rightarrow> time \<Rightarrow> u8 \<Rightarrow> Chat \<Rightarrow> (chat_error + unit) \<times> Chat \<times> chat_event list" where
  "SetPrivacy env now privacy g =
     (case requireSelfRoleLocked RoleAdmin g of Inl e \<Rightarrow> (Err e, g, [])
      | Inr _ \<Rightarrow>
        let oldPrivacy = ch_Privacy g; g1 = g\<lparr>ch_Privacy := privacy\<rparr>;
            (r, evs) = broadcastGroupUpdate env now (GroupPrivacyChangeData oldPrivacy privacy) g1
        in (r, g1, evs))"

definition SetSelfName :: "broadcast_env \<Rightarrow> time \<Rightarrow> string \<Rightarrow> Chat \<Rightarrow> (chat_error + unit) \<times> Chat \<times> chat_event list" where
  "SetSelfName env now name g =
     (if length name = 0 then (Err NameEmpty, g, [])
      else (case mget (Peers g) (SelfPeerID g) of None \<Rightarrow> (Err SelfPeerMissing, g, [])
        | Some selfPeer \<Rightarrow>
          let g1 = g\<lparr>Peers := mput (SelfPeerID g) (selfPeer\<lparr>p_Name := name\<rparr>) (Peers g)\<rparr>;
              (r, evs) = broadcastGroupUpdate env now (PeerNameChangeData (SelfPeerID g) name) g1
          in (r, g1, evs)))"

section \<open>Discovery\<close>

definition UpdatePeerAddress :: "time \<Rightarrow> u32 \<Rightarrow> addr option \<Rightarrow> Chat \<Rightarrow> (chat_error + unit) \<times> Chat" where
  "UpdatePeerAddress now peerID a g =
     (case mget (Peers g) peerID of None \<Rightarrow> (Err PeerNotFound, g)
      | Some peer \<Rightarrow> (Ok (), g\<lparr>Peers := mput peerID (peer\<lparr>Address := a, LastActive := now\<rparr>) (Peers g)\<rparr>))"

definition HandlePeerAnnounce :: "time \<Rightarrow> PeerAnnounceData \<Rightarrow> addr option \<Rightarrow> Chat \<Rightarrow> bool \<times> Chat \<times> chat_event list" where
  "HandlePeerAnnounce now data sourceAddr g =
     (if a_PeerID data = SelfPeerID g then (False, g, [])
      else (case mget (Peers g) (a_PeerID data) of
          Some existingPeer \<Rightarrow>
            (False, g\<lparr>Peers := mput (a_PeerID data)
               (existingPeer\<lparr>Address := sourceAddr, LastActive := now, Connection := a_Connection data\<rparr>) (Peers g)\<rparr>, [])
        | None \<Rightarrow>
          let newPeer = \<lparr>p_ID = a_PeerID data, p_Name = a_Name data, p_Role = RoleUser, Connection = a_Connection data,
                p_PublicKey = a_PublicKey data, Address = sourceAddr, LastActive = now\<rparr>
          in (True, g\<lparr>Peers := mput (a_PeerID data) newPeer (Peers g)\<rparr>,
              if peerDiscoveredCallback g then [DiscoveredCalled (ch_ID g) (a_PeerID data) newPeer] else [])))"

abbreviation announce_of :: "Peer \<Rightarrow> PeerAnnounceData" where
  "announce_of peer \<equiv> \<lparr>a_PeerID = p_ID peer, a_Name = p_Name peer, a_PublicKey = p_PublicKey peer,
     a_Connection = Connection peer, a_Role = p_Role peer\<rparr>"

definition HandlePeerListRequest :: "broadcast_env \<Rightarrow> time \<Rightarrow> u32 \<Rightarrow> Chat \<Rightarrow> (chat_error + unit) \<times> chat_event list" where
  "HandlePeerListRequest env now requesterID g =
     (if requesterID = SelfPeerID g then (Ok (), [])
      else
        let others = map (\<lambda>(_, peer). announce_of peer)
              (filter (\<lambda>(peerID, _). peerID \<noteq> requesterID \<and> peerID \<noteq> SelfPeerID g) (Peers g));
            peers = others @ (case mget (Peers g) (SelfPeerID g) of Some self \<Rightarrow> [announce_of self] | None \<Rightarrow> [])
        in if length peers = 0 then (Ok (), [])
           else broadcastGroupUpdate env now (PeerListResponseData (SelfPeerID g) peers) g)"

fun HandlePeerListResponse :: "time \<Rightarrow> u32 \<Rightarrow> PeerAnnounceData list \<Rightarrow> addr option \<Rightarrow> Chat \<Rightarrow> Chat \<times> chat_event list" where
  "HandlePeerListResponse now responderID [] sourceAddr g = (g, [])"
| "HandlePeerListResponse now responderID (peerData # rest) sourceAddr g =
     (let a = (if a_PeerID peerData = responderID then sourceAddr else None);
          (_, g1, evs) = HandlePeerAnnounce now peerData a g;
          (g2, evs2) = HandlePeerListResponse now responderID rest sourceAddr g1
      in (g2, evs @ evs2))"

end
