(* ===== verification/Group_Properties.thy ===== *)
theory Group_Properties
  imports Group_Chat
begin

text \<open>
  What a group chat keeps whatever sequence of operations and announcements reaches it: who the founder
  is, what a member's rank allows, whom a broadcast reaches, and that a sender key is never renewed.
\<close>

section \<open>Runs of a chat\<close>

datatype chat_op =
    OpInvite "addr \<Rightarrow> bool" time u32
  | OpCleanup time
  | OpSend group_crypto broadcast_env time string
  | OpLeave broadcast_env time string
  | OpKick broadcast_env time u32
  | OpRole broadcast_env time u32 Role
  | OpName broadcast_env time string
  | OpPrivacy broadcast_env time u8
  | OpSelfName broadcast_env time string
  | OpAddress time u32 "addr option"
  | OpAnnounced time PeerAnnounceData "addr option"
  | OpListed time u32 "PeerAnnounceData list" "addr option"

fun chat_step :: "chat_op \<Rightarrow> Chat \<Rightarrow> Chat" where
  "chat_step (OpInvite send now friendID) g = fst (snd (InviteFriend send now friendID g))"
| "chat_step (OpCleanup now) g = CleanupExpiredInvitations now g"
| "chat_step (OpSend G env now message) g = fst (snd (group_SendMessage G env now message g))"
| "chat_step (OpLeave env now message) g = fst (Leave env now message g [])"
| "chat_step (OpKick env now peerID) g = fst (snd (KickPeer env now peerID g))"
| "chat_step (OpRole env now peerID role) g = fst (snd (SetPeerRole env now peerID role g))"
| "chat_step (OpName env now name) g = fst (snd (SetName env now name g))"
| "chat_step (OpPrivacy env now privacy) g = fst (snd (SetPrivacy env now privacy g))"
| "chat_step (OpSelfName env now name) g = fst (snd (SetSelfName env now name g))"
| "chat_step (OpAddress now peerID a) g = snd (UpdatePeerAddress now peerID a g)"
| "chat_step (OpAnnounced now data a) g = fst (snd (HandlePeerAnnounce now data a g))"
| "chat_step (OpListed now responderID list a) g = fst (HandlePeerListResponse now responderID list a g)"

fun is_leave :: "chat_op \<Rightarrow> bool" where
  "is_leave (OpLeave _ _ _) = True"
| "is_leave _ = False"

definition role_of :: "Chat \<Rightarrow> u32 \<Rightarrow> Role option" where
  "role_of g peerID = map_option p_Role (mget (Peers g) peerID)"

text \<open>
  The effect of one operation on the roles: it leaves them as they are, drops a peer of lower rank, gives
  a peer a role below one's own, or adds a user.
\<close>

inductive role_change :: "Chat \<Rightarrow> Chat \<Rightarrow> bool" for g where
  same: "role_of g' = role_of g \<Longrightarrow> role_change g g'"
| kick: "role_of g (SelfPeerID g) = Some s \<Longrightarrow> RoleModerator \<le> s \<Longrightarrow> role_of g peerID = Some r \<Longrightarrow> r < s \<Longrightarrow>
    role_of g' = (role_of g)(peerID := None) \<Longrightarrow> role_change g g'"
| assign: "role_of g (SelfPeerID g) = Some s \<Longrightarrow> RoleAdmin \<le> s \<Longrightarrow> role_of g peerID = Some r \<Longrightarrow> r < s \<Longrightarrow>
    role < s \<Longrightarrow> role_of g' = (role_of g)(peerID \<mapsto> role) \<Longrightarrow> role_change g g'"
| newcomer: "role_of g peerID = None \<Longrightarrow> peerID \<noteq> SelfPeerID g \<Longrightarrow>
    role_of g' = (role_of g)(peerID \<mapsto> RoleUser) \<Longrightarrow> role_change g g'"

lemma role_of_put [simp]: "role_of (g\<lparr>Peers := mput k p (Peers g)\<rparr>) = (role_of g)(k \<mapsto> p_Role p)"
  by (auto simp: role_of_def dict_simps)

lemma role_of_del [simp]: "role_of (g\<lparr>Peers := mdel k (Peers g)\<rparr>) = (role_of g)(k := None)"
  by (auto simp: role_of_def dict_simps)

lemma role_of_other [simp]:
  "role_of (g\<lparr>PendingInvitations := i\<rparr>) = role_of g" "role_of (g\<lparr>senderKeyManager := m\<rparr>) = role_of g"
  "role_of (g\<lparr>ch_Name := n\<rparr>) = role_of g" "role_of (g\<lparr>ch_Privacy := v\<rparr>) = role_of g"
  by (simp_all add: role_of_def fun_eq_iff)

lemma role_of_get: "mget (Peers g) k = Some p \<Longrightarrow> role_of g k = Some (p_Role p)"
  by (simp add: role_of_def)

lemma role_of_get_None: "mget (Peers g) k = None \<Longrightarrow> role_of g k = None"
  by (simp add: role_of_def)

text \<open>What an operation of a member leaves alone: who oneself is, and the group's settings below the rank of an admin.\<close>

definition settings_kept :: "Chat \<Rightarrow> Chat \<Rightarrow> bool" where
  "settings_kept g g' \<longleftrightarrow> SelfPeerID g' = SelfPeerID g \<and>
     ((ch_Name g', ch_Privacy g') = (ch_Name g, ch_Privacy g) \<or>
      (\<exists>s. role_of g (SelfPeerID g) = Some s \<and> RoleAdmin \<le> s))"

lemma require_role_Ok:
  assumes "requireSelfRoleLocked required g = Ok self"
  shows "role_of g (SelfPeerID g) = Some (p_Role self)" "required \<le> p_Role self"
  using assms by (auto simp: requireSelfRoleLocked_def role_of_def not_less split: option.splits if_splits)

lemma permission_Ok:
  assumes "validatePeerPermission peerID required g = Ok (target, self)"
  shows "mget (Peers g) peerID = Some target" "role_of g (SelfPeerID g) = Some (p_Role self)"
    "required \<le> p_Role self" "p_Role target < p_Role self"
  using assms require_role_Ok [of required g self]
  by (auto simp: validatePeerPermission_def not_le split: option.splits sum.splits if_splits)

lemma kick_change: "role_change g (fst (snd (KickPeer env now peerID g)))"
proof (cases "validatePeerPermission peerID RoleModerator g")
  case (Inr ts)
  obtain t s where ts: "ts = (t, s)" by (cases ts)
  note perm = permission_Ok [OF Inr [unfolded ts]]
  show ?thesis
    using role_change.kick [OF perm(2,3) role_of_get [OF perm(1)] perm(4)] Inr ts
    by (auto simp: KickPeer_def intro: role_change.same split: prod.splits sum.splits)
qed (simp add: KickPeer_def role_change.same)

lemma assign_change: "role_change g (fst (snd (SetPeerRole env now peerID role g)))"
proof (cases "validatePeerPermission peerID RoleAdmin g")
  case (Inr ts)
  obtain t s where ts: "ts = (t, s)" by (cases ts)
  note perm = permission_Ok [OF Inr [unfolded ts]]
  show ?thesis
    using role_change.assign [OF perm(2,3) role_of_get [OF perm(1)] perm(4), of role] Inr ts
    by (auto simp: SetPeerRole_def Let_def not_le intro: role_change.same split: prod.splits)
qed (simp add: SetPeerRole_def role_change.same)

lemma announce_change: "role_change g (fst (snd (HandlePeerAnnounce now data a g)))"
proof (cases "mget (Peers g) (a_PeerID data)")
  case None
  then show ?thesis
    using role_change.newcomer [OF role_of_get_None [OF None]]
    by (auto simp: HandlePeerAnnounce_def Let_def intro: role_change.same)
next
  case (Some p)
  then show ?thesis
    by (auto simp: HandlePeerAnnounce_def role_of_get fun_upd_idem intro!: role_change.same)
qed

lemma self_name_change: "role_change g (fst (snd (SetSelfName env now name g)))"
  by (auto simp: SetSelfName_def Let_def role_of_get fun_upd_idem intro!: role_change.same split: option.splits prod.splits)

lemma address_change: "role_change g (snd (UpdatePeerAddress now peerID a g))"
  by (auto simp: UpdatePeerAddress_def role_of_get fun_upd_idem intro!: role_change.same split: option.splits)

lemma invite_change: "role_of (fst (snd (InviteFriend send now friendID g))) = role_of g"
  by (auto simp: InviteFriend_def createPendingInvitation_def Let_def split: sum.splits prod.splits)

lemma send_state:
  obtains m where "fst (snd (group_SendMessage G env now message g)) = g\<lparr>senderKeyManager := m\<rparr>"
proof -
  have "\<exists>m. fst (snd (group_SendMessage G env now message g)) = g\<lparr>senderKeyManager := m\<rparr>"
    by (auto simp: group_SendMessage_def sendEncryptedGroupMessage_def sendPlaintextGroupMessage_def Let_def
        intro: exI [of _ "senderKeyManager g"] split: sum.splits option.splits prod.splits)
  with that show thesis by blast
qed

text \<open>Every operation but leaving and a peer list, which is a sequence of announcements.\<close>

fun is_listed :: "chat_op \<Rightarrow> bool" where
  "is_listed (OpListed _ _ _ _) = True"
| "is_listed _ = False"

lemma step_role_change:
  assumes "\<not> is_leave p" "\<not> is_listed p"
  shows "role_change g (chat_step p g)"
proof (cases p)
  case (OpSend G env now message)
  obtain m where "chat_step p g = g\<lparr>senderKeyManager := m\<rparr>" unfolding OpSend chat_step.simps by (rule send_state)
  then show ?thesis by (simp add: role_change.same)
qed (use assms in \<open>simp_all add: kick_change assign_change announce_change self_name_change address_change
      role_change.same invite_change CleanupExpiredInvitations_def,
    simp_all add: SetName_def SetPrivacy_def Let_def role_change.same split: sum.splits prod.splits\<close>)

lemma step_settings:
  assumes "\<not> is_leave p" "\<not> is_listed p"
  shows "settings_kept g (chat_step p g)"
proof (cases p)
  case (OpSend G env now message)
  obtain m where "chat_step p g = g\<lparr>senderKeyManager := m\<rparr>" unfolding OpSend chat_step.simps by (rule send_state)
  then show ?thesis by (simp add: settings_kept_def)
next
  case (OpName env now name)
  then show ?thesis using require_role_Ok [of RoleAdmin g]
    by (auto simp: SetName_def settings_kept_def Let_def split: sum.splits prod.splits)
next
  case (OpPrivacy env now privacy)
  then show ?thesis using require_role_Ok [of RoleAdmin g]
    by (auto simp: SetPrivacy_def settings_kept_def Let_def split: sum.splits prod.splits)
qed (use assms in \<open>auto simp: settings_kept_def InviteFriend_def createPendingInvitation_def CleanupExpiredInvitations_def
      KickPeer_def SetPeerRole_def SetSelfName_def UpdatePeerAddress_def HandlePeerAnnounce_def Let_def
      split: sum.splits prod.splits option.splits if_splits\<close>)

section \<open>Runs without leaving\<close>

lemma listed_Cons:
  "fst (HandlePeerListResponse now responderID (d # list) a g) =
     fst (HandlePeerListResponse now responderID list a
       (fst (snd (HandlePeerAnnounce now d (if a_PeerID d = responderID then a else None) g))))"
  by (simp add: Let_def split_beta)

lemma listed_announced:
  assumes "\<And>g data a. P g \<Longrightarrow> P (chat_step (OpAnnounced now data a) g)" and "P g"
  shows "P (chat_step (OpListed now responderID list a) g)"
  using assms(2)
proof (induction list arbitrary: g)
  case (Cons d list)
  from assms(1) [OF Cons.prems, of d "if a_PeerID d = responderID then a else None"] show ?case
    using Cons.IH by (simp only: chat_step.simps listed_Cons)
qed simp

lemma member_run:
  assumes stable: "\<And>g p. P g \<Longrightarrow> \<not> is_leave p \<Longrightarrow> \<not> is_listed p \<Longrightarrow> P (chat_step p g)"
    and "list_all (Not \<circ> is_leave) ps" "P g"
  shows "P (fold chat_step ps g)"
  using assms(2,3)
proof (induction ps arbitrary: g)
  case (Cons p ps)
  have "P (chat_step p g)"
  proof (cases p)
    case (OpListed now responderID list a)
    have "P (chat_step (OpListed now responderID list a) g)"
      by (rule listed_announced [OF stable Cons.prems(2)]) simp_all
    then show ?thesis by (simp only: OpListed)
  qed (use Cons.prems stable [of g p] in simp_all)
  then show ?case using Cons by simp
qed simp

definition ranked :: "Chat \<Rightarrow> bool" where
  "ranked g \<longleftrightarrow> (\<forall>peerID r. role_of g peerID = Some r \<longrightarrow> r \<le> RoleFounder)"

definition founders :: "Chat \<Rightarrow> u32 set" where
  "founders g = {peerID. role_of g peerID = Some RoleFounder}"

lemma role_change_founders:
  assumes "role_change g g'" "ranked g"
  shows "founders g' = founders g \<and> ranked g'"
  using assms
proof (cases rule: role_change.cases)
  case (kick s peerID r)
  with assms(2) have "s \<le> RoleFounder" by (auto simp: ranked_def)
  with kick have "r \<noteq> RoleFounder" by auto
  with kick assms(2) show ?thesis by (auto simp: founders_def ranked_def)
next
  case (assign s peerID r role)
  with assms(2) have s: "s \<le> RoleFounder" by (auto simp: ranked_def)
  with assign have "r \<noteq> RoleFounder" "role \<noteq> RoleFounder" "role \<le> RoleFounder" by auto
  with assign assms(2) show ?thesis by (auto simp: founders_def ranked_def)
qed (auto simp: founders_def ranked_def)

lemma leave_roles:
  "role_of (fst (Leave env now message g reg)) = (role_of g)(SelfPeerID g := None)"
  by (auto simp: Leave_def Let_def role_of_def fun_eq_iff dict_simps)

lemma step_founders:
  assumes "ranked g"
  shows "founders (chat_step p g) \<subseteq> founders g \<and> ranked (chat_step p g)"
proof (cases "is_leave p")
  case True
  then obtain env now message where p: "p = OpLeave env now message" by (cases p) simp_all
  show ?thesis using assms by (auto simp: p founders_def ranked_def leave_roles split: if_splits)
next
  case False
  have "founders (fold chat_step [p] g) = founders g \<and> ranked (fold chat_step [p] g)"
    by (rule member_run [where P = "\<lambda>g'. founders g' = founders g \<and> ranked g'"])
      (use False assms in \<open>auto dest: role_change_founders [OF step_role_change]\<close>)
  then show ?thesis by simp
qed

interpretation chat_sys: op_system chat_step ranked
  by unfold_locales (simp add: step_founders)

section \<open>Founder and rank\<close>

text \<open>
  C28. In every run of a group chat, of one's own operations and of announcements and peer lists received
  from anyone, nobody becomes founder; and until one leaves, every founder stays in the group with that
  role, so that no founder is demoted or kicked.\<close>

theorem founder_protected:
  assumes "ranked g"
  shows "founders (fold chat_step ps g) \<subseteq> founders g \<and>
    (list_all (Not \<circ> is_leave) ps \<longrightarrow> founders (fold chat_step ps g) = founders g)"
proof (intro conjI impI)
  show "founders (fold chat_step ps g) \<subseteq> founders g"
    by (rule chat_sys.stable_run [where P = "\<lambda>g'. founders g' \<subseteq> founders g"])
      (use assms step_founders in \<open>blast+\<close>)
  assume "list_all (Not \<circ> is_leave) ps"
  then have "founders (fold chat_step ps g) = founders g \<and> ranked (fold chat_step ps g)"
    by (rule member_run [where P = "\<lambda>g'. founders g' = founders g \<and> ranked g'", rotated])
      (use assms in \<open>auto dest: role_change_founders [OF step_role_change]\<close>)
  then show "founders (fold chat_step ps g) = founders g" ..
qed

text \<open>Ranks after a run, from those before it: those of the members stay, newcomers are users.\<close>

definition low_rank_inv :: "Chat \<Rightarrow> Role \<Rightarrow> Chat \<Rightarrow> bool" where
  "low_rank_inv g r g' \<longleftrightarrow> SelfPeerID g' = SelfPeerID g \<and> role_of g' (SelfPeerID g) = Some r \<and>
     (ch_Name g', ch_Privacy g') = (ch_Name g, ch_Privacy g) \<and>
     (\<forall>peerID q. role_of g' peerID = Some q \<longrightarrow> q = RoleUser \<or> role_of g peerID = Some q) \<and>
     (r < RoleModerator \<longrightarrow> (\<forall>peerID q. role_of g peerID = Some q \<longrightarrow> role_of g' peerID = Some q))"

lemma low_rank_step:
  assumes "low_rank_inv g r g'" "r < RoleAdmin" "\<not> is_leave p" "\<not> is_listed p"
  shows "low_rank_inv g r (chat_step p g')"
proof -
  have self: "role_of g' (SelfPeerID g') = Some r" using assms(1) by (simp add: low_rank_inv_def)
  have kept: "SelfPeerID (chat_step p g') = SelfPeerID g'"
    "(ch_Name (chat_step p g'), ch_Privacy (chat_step p g')) = (ch_Name g', ch_Privacy g')"
    using step_settings [OF assms(3,4), of g'] assms(2) self by (auto simp: settings_kept_def)
  from step_role_change [OF assms(3,4), of g'] show ?thesis
  proof (cases rule: role_change.cases)
    case same
    then show ?thesis using assms(1) kept by (auto simp: low_rank_inv_def)
  next
    case (kick s peerID q)
    then have "s = r" "peerID \<noteq> SelfPeerID g'" "\<not> r < RoleModerator" using self by auto
    with kick(5) show ?thesis using assms(1) kept by (auto simp: low_rank_inv_def)
  next
    case (assign s peerID q role)
    then show ?thesis using self assms(2) by simp
  next
    case (newcomer peerID)
    then show ?thesis using assms(1) kept by (auto simp: low_rank_inv_def)
  qed
qed

text \<open>
  C29. A member below the rank of an admin cannot change the name or the privacy of the group, nor the
  role of anybody: whatever operations it tries and whatever announcements arrive, a peer has the role
  it had before or is a user that announced itself. Below the rank of a moderator it cannot remove anybody either.\<close>

theorem rank_limits_member:
  assumes "role_of g (SelfPeerID g) = Some r" "r < RoleAdmin" "list_all (Not \<circ> is_leave) ps"
    and "g' = fold chat_step ps g"
  shows "ch_Name g' = ch_Name g \<and> ch_Privacy g' = ch_Privacy g \<and>
    (\<forall>peerID q. role_of g' peerID = Some q \<longrightarrow> q = RoleUser \<or> role_of g peerID = Some q) \<and>
    (r < RoleModerator \<longrightarrow> (\<forall>peerID q. role_of g peerID = Some q \<longrightarrow> role_of g' peerID = Some q))"
proof -
  have "low_rank_inv g r g'" unfolding assms(4)
  proof (rule member_run [where P = "low_rank_inv g r", OF _ assms(3)])
    show "low_rank_inv g r g" using assms(1) by (simp add: low_rank_inv_def)
  qed (rule low_rank_step [OF _ assms(2)])
  then show ?thesis by (simp add: low_rank_inv_def)
qed

section \<open>A sample group\<close>

definition sample_member :: "u32 \<Rightarrow> Role \<Rightarrow> addr option \<Rightarrow> Peer" where
  "sample_member i role a = \<lparr>p_ID = i, p_Name = ''member'', p_Role = role, Connection = 2, p_PublicKey = 0,
     Address = a, LastActive = 0\<rparr>"

definition sample_chat :: "Role \<Rightarrow> Chat" where
  "sample_chat role = \<lparr>ch_ID = 9, ch_Name = ''group'', ch_Type = 0, ch_Privacy = PrivacyPublic, PeerCount = 1,
     SelfPeerID = 1, Peers = [(1, sample_member 1 role None), (2, sample_member 2 RoleUser (Some ''a'')),
       (3, sample_member 3 RoleFounder (Some ''b''))],
     Created = 0, PendingInvitations = [], hasTransport = True, hasDht = False, friendResolver = None,
     senderKeyManager = Some ((member 1)\<lparr>maxMessageCounter := 0\<rparr>), ch_keyPair = None,
     messageCallback = False, peerCallback = False, peerDiscoveredCallback = False\<rparr>"

definition sample_env :: broadcast_env where
  "sample_env = \<lparr>sendOk = (\<lambda>a. a = ''a''), dhtNodes = (\<lambda>_. []), cancelled = (\<lambda>_. False)\<rparr>"

lemmas sample_group_defs = sample_chat_def sample_member_def sample_env_def

lemma sample_roles:
  "role_of (sample_chat role) = [1 \<mapsto> role, 2 \<mapsto> RoleUser, 3 \<mapsto> RoleFounder]"
  by (auto simp: role_of_def sample_group_defs mget_def fun_eq_iff)

lemma sample_settings: "SelfPeerID (sample_chat role) = 1" "ch_Name (sample_chat role) = ''group''"
  by (simp_all add: sample_chat_def)


section \<open>Whom a broadcast reaches\<close>

definition reaches :: "broadcast_env \<Rightarrow> Chat \<Rightarrow> Peer \<Rightarrow> addr \<Rightarrow> bool" where
  "reaches env g peer a \<longleftrightarrow> sendOk env a \<and> (Address peer = Some a \<or> Some a \<in> set (discoverPeerViaDHT env peer g))"

definition online :: "Chat \<Rightarrow> u32 set" where
  "online g = {peerID. peerID \<noteq> SelfPeerID g \<and> (\<exists>peer. mget (Peers g) peerID = Some peer \<and> Connection peer \<noteq> 0)}"

definition reached :: "broadcast_env \<Rightarrow> Chat \<Rightarrow> u32 set" where
  "reached env g = {peerID \<in> online g. hasTransport g \<and> \<not> cancelled env peerID \<and>
     (\<exists>peer a. mget (Peers g) peerID = Some peer \<and> reaches env g peer a)}"

lemma attempt_result:
  "(\<exists>a. Some a \<in> set nodes \<and> sendOk env a \<and> attemptPacketTransmission env msg b nodes = (Ok (), [SentTo a msg])) \<or>
   (\<forall>a. Some a \<in> set nodes \<longrightarrow> \<not> sendOk env a) \<and> (\<exists>e. attemptPacketTransmission env msg b nodes = (Err e, []))"
  by (induction env msg b nodes rule: attemptPacketTransmission.induct) auto

lemma job_result:
  assumes "peerID \<in> online g" "mget (Peers g) peerID = Some peer"
  shows "if peerID \<in> reached env g
    then \<exists>a. reaches env g peer a \<and> processBroadcastJob env peerID msg g = (Ok (), [SentTo a msg])
    else \<exists>e. processBroadcastJob env peerID msg g = (Err e, [])"
  using assms attempt_result [of "discoverPeerViaDHT env peer g" env msg False]
  by (auto simp: processBroadcastJob_def broadcastPeerUpdate_def validatePeerForBroadcast_def reached_def online_def
      reaches_def split: option.splits)

lemma set_jobs:
  assumes "wf_map (Peers g)"
  shows "set (collectOnlinePeerJobs g) = online g" and "distinct (collectOnlinePeerJobs g)"
  using assms
  by (auto simp: collectOnlinePeerJobs_def online_def wf_map_def mget_def distinct_map_filter
      intro: map_of_is_SomeI dest: map_of_SomeD intro!: image_eqI)

lemma job_split:
  assumes "wf_map (Peers g)" "peerID \<in> set (collectOnlinePeerJobs g)"
  shows "isl (fst (processBroadcastJob env peerID msg g)) \<longleftrightarrow> peerID \<notin> reached env g"
    and "length (snd (processBroadcastJob env peerID msg g)) = (if peerID \<in> reached env g then 1 else 0)"
proof -
  from assms obtain peer where "peerID \<in> online g" "mget (Peers g) peerID = Some peer"
    by (auto simp: set_jobs online_def)
  from job_result [OF this, of env msg]
  show "isl (fst (processBroadcastJob env peerID msg g)) \<longleftrightarrow> peerID \<notin> reached env g"
    "length (snd (processBroadcastJob env peerID msg g)) = (if peerID \<in> reached env g then 1 else 0)"
    by (auto split: if_splits)
qed

lemma count_reached:
  assumes "wf_map (Peers g)"
  shows "length (filter (\<lambda>p. p \<in> reached env g) (collectOnlinePeerJobs g)) = card (reached env g)"
proof -
  have "set (filter (\<lambda>p. p \<in> reached env g) (collectOnlinePeerJobs g)) = reached env g"
    using set_jobs(1) [OF assms] by (auto simp: reached_def)
  then show ?thesis using set_jobs(2) [OF assms] by (metis distinct_card distinct_filter)
qed

lemma sum_indicator: "sum_list (map (\<lambda>x. if P x then 1 else 0) xs) = length (filter P xs)"
  by (induction xs) auto

lemma sent_count:
  assumes "wf_map (Peers g)"
  shows "length (concat (map (\<lambda>p. snd (processBroadcastJob env p msg g)) (collectOnlinePeerJobs g))) = card (reached env g)"
proof -
  have counts: "map (\<lambda>p. length (snd (processBroadcastJob env p msg g))) (collectOnlinePeerJobs g) =
      map (\<lambda>p. if p \<in> reached env g then 1 else 0) (collectOnlinePeerJobs g)"
    by (rule map_cong) (simp_all add: job_split(2) [OF assms])
  show ?thesis by (simp only: length_concat map_map comp_def counts sum_indicator count_reached [OF assms])
qed

lemma broadcast_result:
  assumes "wf_map (Peers g)"
  shows "fst (broadcastGroupUpdate env now upd g) = Ok () \<longleftrightarrow> reached env g \<noteq> {} \<or> online g = {}"
proof -
  let ?jobs = "collectOnlinePeerJobs g" and ?msg = "createBroadcastMessage now upd g"
  have "filter (\<lambda>p. isl (fst (processBroadcastJob env p ?msg g))) ?jobs = filter (\<lambda>p. p \<notin> reached env g) ?jobs"
    "filter (\<lambda>p. \<not> isl (fst (processBroadcastJob env p ?msg g))) ?jobs = filter (\<lambda>p. p \<in> reached env g) ?jobs"
    by (rule filter_cong; simp add: job_split(1) [OF assms])+
  then show ?thesis using set_jobs(1) [OF assms]
    by (auto simp: broadcastGroupUpdate_def sendToConnectedPeers_def validateBroadcastResults_def Let_def filter_map
        comp_def filter_empty_conv reached_def)
qed

text \<open>
  C30. A broadcast sends the message exactly once for every online member that can be reached, by its
  known address or a node the DHT finds near its key, and to nobody else; it fails exactly when there
  are online members and none of them is reached.\<close>

theorem broadcast_reaches_members:
  assumes "wf_map (Peers g)" and "broadcastGroupUpdate env now upd g = (r, evs)"
  shows "length evs = card (reached env g) \<and>
    (\<forall>peerID \<in> reached env g. \<exists>peer a. mget (Peers g) peerID = Some peer \<and> reaches env g peer a \<and>
       SentTo a (createBroadcastMessage now upd g) \<in> set evs) \<and>
    (r = Ok () \<longleftrightarrow> reached env g \<noteq> {} \<or> online g = {})"
proof (intro conjI ballI)
  let ?msg = "createBroadcastMessage now upd g"
  have evs: "evs = concat (map (\<lambda>p. snd (processBroadcastJob env p ?msg g)) (collectOnlinePeerJobs g))"
    using assms(2) by (simp add: broadcastGroupUpdate_def sendToConnectedPeers_def Let_def comp_def)
  then show "length evs = card (reached env g)" by (simp only: sent_count [OF assms(1)])
  show "r = Ok () \<longleftrightarrow> reached env g \<noteq> {} \<or> online g = {}"
    using broadcast_result [OF assms(1), of env now upd] assms(2) by simp
  fix peerID assume R: "peerID \<in> reached env g"
  then obtain peer where on: "peerID \<in> online g" "mget (Peers g) peerID = Some peer" by (auto simp: reached_def)
  with job_result [OF this, of env ?msg] R obtain a where
    a: "reaches env g peer a" "processBroadcastJob env peerID ?msg g = (Ok (), [SentTo a ?msg])" by auto
  have "SentTo a ?msg \<in> set evs" using a(2) on(1) set_jobs(1) [OF assms(1)] by (force simp: evs)
  with a on show "\<exists>peer a. mget (Peers g) peerID = Some peer \<and> reaches env g peer a \<and> SentTo a ?msg \<in> set evs"
    by blast
qed

section \<open>Sender keys and addresses\<close>

definition exhausted :: "SenderKeyManager \<Rightarrow> bool" where
  "exhausted skm \<longleftrightarrow> (\<exists>my. mySenderKey skm = Some my \<and> maxMessageCounter skm \<le> MessageCounter my)"

lemma exhausted_send:
  assumes "exhausted skm" "senderKeyManager g = Some skm"
  shows "isl (fst (group_SendMessage G env now message g))"
    and "senderKeyManager (fst (snd (group_SendMessage G env now message g))) = Some skm"
  using assms
  by (auto simp: exhausted_def group_SendMessage_def sendEncryptedGroupMessage_def EncryptMessage_def
      split: sum.splits)

lemma exhausted_step:
  assumes "exhausted skm" "senderKeyManager g = Some skm"
  shows "senderKeyManager (chat_step p g) = Some skm"
proof (cases p)
  case (OpListed now responderID list a)
  have "senderKeyManager (chat_step (OpListed now responderID list a) g) = Some skm"
    by (rule listed_announced [where P = "\<lambda>g. senderKeyManager g = Some skm"])
      (use assms(2) in \<open>auto simp: HandlePeerAnnounce_def Let_def split: option.splits\<close>)
  then show ?thesis by (simp only: OpListed)
next
  case (OpSend G env now message)
  then show ?thesis using exhausted_send(2) [OF assms] by simp
qed (use assms(2) in \<open>auto simp: InviteFriend_def createPendingInvitation_def CleanupExpiredInvitations_def Leave_def
      KickPeer_def SetPeerRole_def SetName_def SetPrivacy_def SetSelfName_def UpdatePeerAddress_def
      HandlePeerAnnounce_def Let_def split: sum.splits prod.splits option.splits\<close>)

lemma exhausted_run:
  "exhausted skm \<Longrightarrow> senderKeyManager g = Some skm \<Longrightarrow> senderKeyManager (fold chat_step ps g) = Some skm"
  by (induction ps arbitrary: g) (simp_all add: exhausted_step)

text \<open>
  C38. No operation of a chat renews its sender key: once the key has encrypted as many messages as it
  may, every later attempt to send a message to the group fails, whatever is done in between.\<close>

theorem encrypted_group_goes_silent:
  assumes "senderKeyManager g = Some skm" "mySenderKey skm = Some my" "maxMessageCounter skm \<le> MessageCounter my"
  shows "isl (fst (group_SendMessage G env now message (fold chat_step ps g)))"
proof -
  have ex: "exhausted skm" using assms(2,3) by (simp add: exhausted_def)
  show ?thesis by (rule exhausted_send(1) [OF ex exhausted_run [OF ex assms(1)]])
qed

definition lost_address :: "u32 \<Rightarrow> Chat \<Rightarrow> bool" where
  "lost_address peerID g \<longleftrightarrow> (\<exists>peer. mget (Peers g) peerID = Some peer \<and> Address peer = None)"

lemma announce_loses:
  "a_PeerID data \<noteq> SelfPeerID g \<Longrightarrow> lost_address (a_PeerID data) (fst (snd (HandlePeerAnnounce now data None g)))"
  by (auto simp: lost_address_def HandlePeerAnnounce_def Let_def dict_simps split: option.splits)

lemma announce_self: "SelfPeerID (fst (snd (HandlePeerAnnounce now data a g))) = SelfPeerID g"
  by (auto simp: HandlePeerAnnounce_def Let_def split: option.splits)

lemma announce_keeps_lost:
  "lost_address peerID g \<Longrightarrow> a_PeerID data = peerID \<longrightarrow> a = None \<Longrightarrow>
     lost_address peerID (fst (snd (HandlePeerAnnounce now data a g)))"
  by (auto simp: lost_address_def HandlePeerAnnounce_def Let_def dict_simps split: option.splits)

lemma list_keeps_lost:
  "lost_address peerID g \<Longrightarrow> peerID \<noteq> responderID \<Longrightarrow>
     lost_address peerID (fst (HandlePeerListResponse now responderID list a g))"
proof (induction list arbitrary: g)
  case (Cons d list)
  show ?case unfolding listed_Cons by (rule Cons.IH [OF announce_keeps_lost]) (use Cons.prems in auto)
qed simp

text \<open>
  A peer list erases the addresses it does not carry: every listed member other than the responder
  has no address afterwards, even when it was known before.\<close>

theorem peer_list_forgets_addresses:
  assumes "data \<in> set list" "a_PeerID data \<noteq> responderID" "a_PeerID data \<noteq> SelfPeerID g"
  shows "\<exists>peer. mget (Peers (fst (HandlePeerListResponse now responderID list a g))) (a_PeerID data) = Some peer \<and>
    Address peer = None"
proof -
  have "lost_address (a_PeerID data) (fst (HandlePeerListResponse now responderID list a g))"
    using assms
  proof (induction list arbitrary: g)
    case (Cons d list)
    show ?case
    proof (cases "d = data")
      case True
      then show ?thesis unfolding listed_Cons
        using Cons.prems announce_loses [of data g now] list_keeps_lost by simp
    next
      case False
      then show ?thesis unfolding listed_Cons using Cons by (simp add: announce_self)
    qed
  qed simp
  then show ?thesis by (simp only: lost_address_def)
qed

text \<open>
  A kicked member that announces itself again is back as a user, and the password of a private group is
  not compared with anything.
\<close>

lemma kicked_peer_returns:
  assumes "KickPeer env now peerID g = (Ok (), g1, evs)" "a_PeerID data = peerID" "peerID \<noteq> SelfPeerID g"
  shows "role_of (fst (snd (HandlePeerAnnounce now' data a g1))) peerID = Some RoleUser"
  using assms
  by (auto simp: KickPeer_def HandlePeerAnnounce_def role_of_def dict_simps Let_def
      split: sum.splits prod.splits)

lemma any_password_joins:
  assumes "password \<noteq> []" "password' \<noteq> []"
  shows "group_Join env now rndSelf chatID password transport dhtRouting dhtAnswer reg =
    group_Join env now rndSelf chatID password' transport dhtRouting dhtAnswer reg"
proof -
  have same: "\<And>privacy. validatePrivateGroupPassword privacy password = validatePrivateGroupPassword privacy password'"
    using assms by (simp add: validatePrivateGroupPassword_def)
  show ?thesis unfolding group_Join_def same ..
qed

section \<open>Invitations\<close>

lemma failed_invitation_keeps_pending:
  assumes "InviteFriend send now friendID g = (Err e, g', evs)"
  shows "mget (PendingInvitations g') = mget (PendingInvitations g)"
  using assms
  by (auto simp: InviteFriend_def createPendingInvitation_def validateInvitationEligibility_def Let_def dict_simps
      fun_eq_iff split: if_splits sum.splits prod.splits)

theorem founder_protected_witness:
  "founders (fold chat_step [OpKick sample_env 0 3, OpRole sample_env 0 3 RoleUser] (sample_chat RoleAdmin)) = {3}"
proof -
  have "ranked (sample_chat RoleAdmin)" "founders (sample_chat RoleAdmin) = {3}"
    by (auto simp: ranked_def founders_def sample_roles split: if_splits)
  then show ?thesis
    using founder_protected [of "sample_chat RoleAdmin" "[OpKick sample_env 0 3, OpRole sample_env 0 3 RoleUser]"] by simp
qed

theorem rank_limits_member_witness:
  "ch_Name (fold chat_step [OpName sample_env 0 ''mine'', OpKick sample_env 0 2] (sample_chat RoleUser)) = ''group'' \<and>
   role_of (fold chat_step [OpName sample_env 0 ''mine'', OpKick sample_env 0 2] (sample_chat RoleUser)) 2 = Some RoleUser"
proof -
  have "role_of (sample_chat RoleUser) (SelfPeerID (sample_chat RoleUser)) = Some RoleUser"
    "role_of (sample_chat RoleUser) 2 = Some RoleUser" "ch_Name (sample_chat RoleUser) = ''group''"
    by (simp_all add: sample_roles sample_settings)
  then show ?thesis
    using rank_limits_member [of "sample_chat RoleUser" RoleUser "[OpName sample_env 0 ''mine'', OpKick sample_env 0 2]", OF _ _ _ refl]
    by simp
qed

theorem broadcast_reaches_members_witness:
  "length (snd (broadcastGroupUpdate sample_env 0 (PeerLeaveData 1 []) (sample_chat RoleUser))) = 1 \<and>
   fst (broadcastGroupUpdate sample_env 0 (PeerLeaveData 1 []) (sample_chat RoleUser)) = Ok ()"
proof -
  have wf: "wf_map (Peers (sample_chat RoleUser))" by (simp add: wf_map_def sample_chat_def)
  have "reached sample_env (sample_chat RoleUser) = {2}"
    by (auto simp: reached_def online_def reaches_def discoverPeerViaDHT_def sample_group_defs mget_def split: if_splits)
  then show ?thesis
    using broadcast_reaches_members [OF wf, of sample_env 0 "PeerLeaveData 1 []"]
    by (metis card_1_singleton_iff insert_not_empty prod.collapse One_nat_def)
qed

theorem encrypted_group_goes_silent_witness:
  "isl (fst (group_SendMessage toy_group sample_env 0 ''hi'' (fold chat_step [OpSelfName sample_env 0 ''x''] (sample_chat RoleUser))))"
  by (rule encrypted_group_goes_silent [of _ "(member 1)\<lparr>maxMessageCounter := 0\<rparr>" "the (mySenderKey (member 1))"])
    (simp_all add: sample_chat_def member_def)

theorem peer_list_forgets_addresses_witness:
  "\<exists>peer. mget (Peers (fst (HandlePeerListResponse 5 3
       [announce_of (sample_member 2 RoleUser None)] (Some ''b'') (sample_chat RoleUser)))) 2 = Some peer \<and> Address peer = None"
  using peer_list_forgets_addresses [of "announce_of (sample_member 2 RoleUser None)"
      "[announce_of (sample_member 2 RoleUser None)]" 3 "sample_chat RoleUser" 5 "Some ''b''"]
  by (simp add: sample_group_defs)

end
