(* ===== verification/Spec2Isabelle.thy ===== *)
theory Spec2Isabelle
  imports Limits Tox_Id Nonce_Store Key_Rotation Ratchet_Properties File_Delivery
    Priority_Refinement Message_Restart Dht_Lookup_Properties Session_Cache
    Negotiation_Properties Wire_Packet Version_Commitment Trust_Store
    Group_Properties
begin

text \<open>
  A verification of toxcore-go, the Go implementation of the Tox peer-to-peer messaging protocol.
\<close>

end
